(* ===== verification/Prelude.thy ===== *)
theory Prelude
  imports Main "HOL-Library.Word" "HOL-Library.List_Lexorder" "HOL-Library.Char_ord"
begin

text \<open>
  Shared vocabulary of the development.
  \<^item> Machine integers: Go's \<open>uint64\<close> and \<open>int64\<close> are both \<open>64 word\<close>, so \<open>+\<close>, \<open>-\<close> and \<open>*\<close> wrap as
    they do in Go and the conversions \<open>int64(x)\<close>, \<open>uint64(x)\<close> are the identity. A signed value is
    compared with \<open>word_sless\<close> and \<open>word_sle\<close> (written \<open>x <s y\<close>, \<open>x <=s y\<close>).
  \<^item> Errors are values: a fallible operation returns \<open>chain_error + 'a\<close> and \<open>bind_r\<close> is the early
    return \<open>if err != nil { return err }\<close>. A \<open>for range\<close> loop is a recursion over the list.
  \<^item> Buckets: the contents of one key-value bucket of the database, as the list of its entries in
    increasing key order, which is the order a cursor reads them. \<open>bput\<close> stores, \<open>map_of\<close> looks up,
    \<open>bsum\<close> adds up a measure of the stored values.
\<close>

named_theorems handler_keeps \<open>every transaction handler keeps the invariant and the supply\<close>
named_theorems handler_quiet \<open>every transaction handler leaves the nonces alone and moves requests forward only\<close>

type_synonym u64 = "64 word"
type_synonym i64 = "64 word"
type_synonym u8 = "8 word"
type_synonym bytes = "8 word list"
type_synonym ('k, 'v) bucket = "('k \<times> 'v) list"

fun bind_r :: "'e + 'a \<Rightarrow> ('a \<Rightarrow> 'e + 'b) \<Rightarrow> 'e + 'b" where
  "bind_r (Inl e) f = Inl e"
| "bind_r (Inr x) f = f x"

fun map_err :: "('e \<Rightarrow> 'e) \<Rightarrow> 'e + 'a \<Rightarrow> 'e + 'a" where
  "map_err w (Inl e) = Inl (w e)"
| "map_err w (Inr x) = Inr x"

definition succeeds :: "'e + 'a \<Rightarrow> bool" where
  "succeeds r = (case r of Inl _ \<Rightarrow> False | Inr _ \<Rightarrow> True)"

fun bput :: "'k::linorder \<Rightarrow> 'v \<Rightarrow> ('k, 'v) bucket \<Rightarrow> ('k, 'v) bucket" where
  "bput k v [] = [(k, v)]"
| "bput k v (e # b) =
     (if k < fst e then (k, v) # e # b
      else if k = fst e then (k, v) # b
      else e # bput k v b)"

definition bucket_ok :: "('k::linorder, 'v) bucket \<Rightarrow> bool" where
  "bucket_ok b = sorted_wrt (<) (map fst b)"

definition bsum :: "('v \<Rightarrow> nat) \<Rightarrow> ('k, 'v) bucket \<Rightarrow> nat" where
  "bsum f b = sum_list (map (f \<circ> snd) b)"

definition bget0 :: "('v \<Rightarrow> nat) \<Rightarrow> ('k, 'v) bucket \<Rightarrow> 'k \<Rightarrow> nat" where
  "bget0 f b k = (case map_of b k of None \<Rightarrow> 0 | Some v \<Rightarrow> f v)"

definition string_bytes :: "string \<Rightarrow> bytes" where
  "string_bytes s = map of_char s"

subsection \<open>The error monad\<close>

lemma bind_r_Inr_iff [simp]: "bind_r m f = Inr y \<longleftrightarrow> (\<exists>x. m = Inr x \<and> f x = Inr y)"
  by (cases m) auto

lemma map_err_Inr_iff [simp]: "map_err w m = Inr y \<longleftrightarrow> m = Inr y"
  by (cases m) auto

lemma if_Inl_Inr [simp]:
  "((if c then Inl e else m) = Inr y) \<longleftrightarrow> \<not> c \<and> m = Inr y"
  by auto

lemma succeeds_iff: "succeeds r \<longleftrightarrow> (\<exists>x. r = Inr x)"
  by (cases r) (auto simp: succeeds_def)

subsection \<open>Buckets\<close>

lemma map_of_bput [simp]: "map_of (bput k v b) = (map_of b)(k \<mapsto> v)"
  by (induction b) (auto simp: fun_eq_iff)

lemma keys_bput: "fst ` set (bput k v b) = insert k (fst ` set b)"
  by (induction b) auto

lemma bucket_ok_Nil [simp]: "bucket_ok []"
  by (simp add: bucket_ok_def)

lemma bucket_ok_Cons:
  "bucket_ok (e # b) \<longleftrightarrow> (\<forall>k \<in> fst ` set b. fst e < k) \<and> bucket_ok b"
  by (simp add: bucket_ok_def)

lemma bucket_ok_bput [simp, intro]: "bucket_ok b \<Longrightarrow> bucket_ok (bput k v b)"
proof (induction b)
  case Nil
  then show ?case by (simp add: bucket_ok_def)
next
  case (Cons e b)
  then show ?case
    by (auto simp: bucket_ok_Cons keys_bput dest: less_trans)
qed

lemma bucket_ok_distinct: "bucket_ok b \<Longrightarrow> distinct (map fst b)"
  by (simp add: bucket_ok_def strict_sorted_iff)

lemma map_of_bucket: "bucket_ok b \<Longrightarrow> map_of b k = Some v \<longleftrightarrow> (k, v) \<in> set b"
  using bucket_ok_distinct map_of_eq_Some_iff by metis

lemma bget0_le_bsum: "bget0 f b k \<le> bsum f b"
  unfolding bget0_def bsum_def
  by (induction b) (auto split: option.splits if_splits)

text \<open>Storing a value replaces its old share of the sum.\<close>

lemma bsum_bput:
  "bucket_ok b \<Longrightarrow> bsum f (bput k v b) + bget0 f b k = bsum f b + f v"
proof (induction b)
  case Nil
  then show ?case by (simp add: bsum_def bget0_def)
next
  case (Cons e b)
  then have ok: "bucket_ok b" and lt: "\<forall>k' \<in> fst ` set b. fst e < k'"
    by (simp_all add: bucket_ok_Cons)
  have none: "map_of b k = None" if "k < fst e"
    using lt that by (force simp: map_of_eq_None_iff)
  show ?case
    using Cons.IH [OF ok] none
    by (cases e) (auto simp: bsum_def bget0_def)
qed

lemma bsum_bput_new:
  "bucket_ok b \<Longrightarrow> map_of b k = None \<Longrightarrow> bsum f (bput k v b) = bsum f b + f v"
  using bsum_bput [of b f k v] by (simp add: bget0_def)

lemma bsum_bput_upd:
  "bucket_ok b \<Longrightarrow> map_of b k = Some w \<Longrightarrow> bsum f (bput k v b) + f w = bsum f b + f v"
  using bsum_bput [of b f k v] by (simp add: bget0_def)

lemma bsum_ge: "map_of b k = Some w \<Longrightarrow> f w \<le> bsum f b"
  using bget0_le_bsum [of f b k] by (simp add: bget0_def)

lemma length_string_bytes [simp]: "length (string_bytes s) = length s"
  by (simp add: string_bytes_def)

subsection \<open>Words read as numbers\<close>

lemma unat_64_less: "unat (x :: 64 word) < 2 ^ 64"
  using unsigned_less [of x] by simp

lemma unat_add_fits: "unat (x :: u64) + unat y < 2 ^ 64 \<Longrightarrow> unat (x + y) = unat x + unat y"
  by (simp add: unat_word_ariths)

lemma unat_mult_fits: "unat (x :: u64) * unat y < 2 ^ 64 \<Longrightarrow> unat (x * y) = unat x * unat y"
  by (simp add: unat_word_ariths)

lemma sint_fits: "- (2 ^ 63) \<le> k \<Longrightarrow> k < 2 ^ 63 \<Longrightarrow> sint (word_of_int k :: 64 word) = k"
  by (simp add: signed_of_int signed_take_bit_int_eq_self_iff)

lemma unat_sub_le: "(y :: u64) \<le> x \<Longrightarrow> unat (x - y) = unat x - unat y"
  by (rule unat_sub)

end
