(* ===== verification/Types.thy ===== *)
theory Types
  imports Prelude
begin

text \<open>
  The data model of \<open>chain/internal/types/types.go\<close>, in the order of that file: coins, services,
  request statuses, attestations, verification domains, results, requests, challenges, vouchers,
  parameters, the transaction messages, the signed envelope, events with their typed payloads, and
  the sentinel errors. A Go struct is a record with the same fields in the same order (each prefixed
  by a short tag, since record fields share one name space), a pointer field is an \<open>option\<close>, a slice
  a list, a Go string the list of its bytes. An event's \<open>Payload\<close>, which Go stores as the JSON text
  of a typed struct, is that struct itself (\<open>event_payload\<close>).
\<close>

subsection \<open>Domain types\<close>

record coin =
  denom :: string
  amount :: u64

definition zero_coin :: coin where
  "zero_coin = \<lparr>denom = '''', amount = 0\<rparr>"

definition isPositive :: "coin \<Rightarrow> bool" where
  "isPositive c \<longleftrightarrow> amount c > 0"

definition isValid :: "coin \<Rightarrow> bool" where
  "isValid c \<longleftrightarrow> denom c \<noteq> ''''"

definition isLT :: "coin \<Rightarrow> coin \<Rightarrow> bool" where
  "isLT c other = (if denom c \<noteq> denom other then False else amount c < amount other)"

record service =
  svc_id :: u64
  svc_owner :: string
  svc_name :: string
  svc_description :: string
  svc_price :: coin
  svc_domain_id :: u64
  svc_active :: bool
  svc_created_at :: i64
  svc_registration_bond :: coin

datatype request_status =
  StatusPending | StatusSubmitted | StatusChallenged | StatusFinalized | StatusSlashed | StatusRefunded

fun status_text :: "request_status \<Rightarrow> string" where
  "status_text StatusPending = ''PENDING''"
| "status_text StatusSubmitted = ''SUBMITTED''"
| "status_text StatusChallenged = ''CHALLENGED''"
| "status_text StatusFinalized = ''FINALIZED''"
| "status_text StatusSlashed = ''SLASHED''"
| "status_text StatusRefunded = ''REFUNDED''"

record attestation =
  att_provider :: string
  att_domain_id :: u64
  att_model_sha256 :: string
  att_runtime_id :: string
  att_hardware_tag :: string
  att_precision :: string
  att_tokenizer_id :: string
  att_input_hash :: string
  att_output_hash :: string
  att_produced_at :: i64
  att_signature_hex :: string

record verification_domain =
  dom_id :: u64
  dom_model_sha256 :: string
  dom_runtime_id :: string
  dom_hardware_tag :: string
  dom_precision :: string
  dom_tokenizer_id :: string
  dom_description :: string
  dom_registered_at :: i64
  dom_active :: bool
  dom_voucher_margin :: i64

record msg_register_domain =
  mrd_authority :: string
  mrd_model_sha256 :: string
  mrd_runtime_id :: string
  mrd_hardware_tag :: string
  mrd_precision :: string
  mrd_tokenizer_id :: string
  mrd_description :: string
  mrd_voucher_margin :: i64

record result =
  res_output_hash :: string
  res_output_uri :: string
  res_output_text :: string
  res_attestation :: attestation

record challenge =
  ch_challenger :: string
  ch_posted_at :: i64
  ch_attestation :: attestation
  ch_bond :: coin

record voucher =
  v_voucher :: string
  v_posted_at :: i64
  v_attestation :: attestation
  v_bond :: coin
  v_supports_provider :: bool

record inference_request =
  req_id :: u64
  req_service_id :: u64
  req_requester :: string
  req_input_hash :: string
  req_input_uri :: string
  req_input_text :: string
  req_escrow :: coin
  req_deadline :: i64
  req_status :: request_status
  req_created_at :: i64
  req_finalized_at :: i64
  req_result :: "result option"
  req_paid :: "coin option"
  req_submitted_at :: i64
  req_challenges :: "challenge list"
  req_provider_bond :: "coin option"
  req_vouchers :: "voucher list"

record params =
  p_challenge_window :: i64
  p_min_service_price :: coin
  p_max_deadline_blocks :: i64
  p_provider_bond :: coin
  p_challenger_bond :: coin
  p_voucher_bond :: coin
  p_voucher_reward :: coin
  p_voucher_margin :: i64
  p_service_registration_bond :: coin
  p_min_service_lifetime :: i64
  p_voucher_bond_scale_bp :: i64

definition aios :: "u64 \<Rightarrow> coin" where
  "aios n = \<lparr>denom = ''aios'', amount = n\<rparr>"

definition defaultParams :: params where
  "defaultParams = \<lparr>
     p_challenge_window = 45,
     p_min_service_price = aios 1,
     p_max_deadline_blocks = 10000,
     p_provider_bond = aios 50,
     p_challenger_bond = aios 50,
     p_voucher_bond = aios 25,
     p_voucher_reward = aios 25,
     p_voucher_margin = 0,
     p_service_registration_bond = aios 100,
     p_min_service_lifetime = 1000,
     p_voucher_bond_scale_bp = 5000\<rparr>"

subsection \<open>Transactions\<close>

definition txRegisterService :: string where "txRegisterService = ''register_service''"
definition txRequestInference :: string where "txRequestInference = ''request_inference''"
definition txSubmitResult :: string where "txSubmitResult = ''submit_result''"
definition txTransfer :: string where "txTransfer = ''transfer''"
definition txRegisterDomain :: string where "txRegisterDomain = ''register_domain''"
definition txChallenge :: string where "txChallenge = ''challenge''"
definition txVouch :: string where "txVouch = ''vouch''"
definition txUpdateService :: string where "txUpdateService = ''update_service''"
definition txDeactivateService :: string where "txDeactivateService = ''deactivate_service''"
definition txDeactivateDomain :: string where "txDeactivateDomain = ''deactivate_domain''"
definition txResolveChallenge :: string where "txResolveChallenge = ''resolve_challenge''"

lemmas tx_names = txRegisterService_def txRequestInference_def txSubmitResult_def txTransfer_def
  txRegisterDomain_def txChallenge_def txVouch_def txUpdateService_def txDeactivateService_def
  txDeactivateDomain_def txResolveChallenge_def

record msg_register_service =
  mrs_owner :: string
  mrs_name :: string
  mrs_description :: string
  mrs_price :: coin
  mrs_domain_id :: u64

record msg_request_inference =
  mri_requester :: string
  mri_service_id :: u64
  mri_input_hash :: string
  mri_input_uri :: string
  mri_input_text :: string
  mri_max_price :: coin
  mri_deadline :: i64

record msg_submit_result =
  msr_provider :: string
  msr_request_id :: u64
  msr_result :: result

record msg_transfer =
  mt_from :: string
  mt_to :: string
  mt_amount :: coin

record msg_challenge =
  mc_challenger :: string
  mc_request_id :: u64
  mc_attestation :: attestation

record msg_vouch =
  mv_voucher :: string
  mv_request_id :: u64
  mv_attestation :: attestation

record msg_update_service =
  mus_owner :: string
  mus_service_id :: u64
  mus_description :: string
  mus_price :: coin

record msg_deactivate_service =
  mds_owner :: string
  mds_service_id :: u64

record msg_deactivate_domain =
  mdd_authority :: string
  mdd_domain_id :: u64

record msg_resolve_challenge =
  mrc_authority :: string
  mrc_request_id :: u64
  mrc_decision :: string

record signed_tx =
  tx_type :: string
  tx_nonce :: u64
  tx_pub_key_hex :: string
  tx_signature_hex :: string
  tx_payload :: string

subsection \<open>Events\<close>

record service_registered_payload =
  esr_service_id :: u64
  esr_owner :: string
  esr_name :: string
  esr_description :: string
  esr_price :: coin

record inference_requested_payload =
  eir_request_id :: u64
  eir_service_id :: u64
  eir_requester :: string
  eir_input_hash :: string
  eir_input_uri :: string
  eir_input_text :: string
  eir_escrow :: coin
  eir_deadline :: i64

record result_submitted_payload =
  ers_request_id :: u64
  ers_provider :: string
  ers_output_hash :: string
  ers_output_uri :: string

record request_finalized_payload =
  erf_request_id :: u64
  erf_provider :: string
  erf_paid :: coin
  erf_bond_returned :: coin

record request_refunded_payload =
  err_request_id :: u64
  err_requester :: string
  err_refunded :: coin

record block_committed_payload =
  ebc_height :: i64
  ebc_time :: string

record domain_registered_payload =
  edr_domain_id :: u64
  edr_model_sha256 :: string
  edr_runtime_id :: string
  edr_hardware_tag :: string
  edr_precision :: string
  edr_tokenizer_id :: string
  edr_description :: string

record challenged_payload =
  ech_request_id :: u64
  ech_challenger :: string
  ech_challenger_hash :: string
  ech_provider_hash :: string
  ech_bond :: coin

record vouched_payload =
  evo_request_id :: u64
  evo_voucher :: string
  evo_output_hash :: string
  evo_supports_provider :: bool
  evo_bond :: coin

record request_dismissed_payload =
  edi_request_id :: u64
  edi_provider :: string
  edi_challenger :: string
  edi_paid :: coin
  edi_bond_returned :: coin
  edi_challenger_bond_forfeit :: coin
  edi_voucher_count :: int

record service_updated_payload =
  esu_service_id :: u64
  esu_owner :: string
  esu_description :: string
  esu_price :: coin

record service_deactivated_payload =
  esd_service_id :: u64
  esd_owner :: string
  esd_bond_refunded :: coin

record domain_deactivated_payload =
  edd_domain_id :: u64
  edd_authority :: string
  edd_services_deactivated :: int
  edd_requests_voided :: int

record request_voided_payload =
  evd_request_id :: u64
  evd_service_id :: u64
  evd_domain_id :: u64
  evd_prior_status :: request_status
  evd_requester :: string
  evd_escrow_refunded :: coin
  evd_provider :: string
  evd_provider_bond_returned :: coin
  evd_challenger :: string
  evd_challenger_bond_returned :: coin
  evd_voucher_bonds_returned :: int

record request_slashed_payload =
  esl_request_id :: u64
  esl_provider :: string
  esl_challenger :: string
  esl_refunded :: coin
  esl_bond_slashed :: coin
  esl_challenger_bond_returned :: coin
  esl_forfeited_to_treasury :: int
  esl_challenger_vouchers_returned :: int

datatype event_payload =
  NoPayload
| ServiceRegistered service_registered_payload
| InferenceRequested inference_requested_payload
| ResultSubmitted result_submitted_payload
| RequestFinalized request_finalized_payload
| RequestRefunded request_refunded_payload
| BlockCommitted block_committed_payload
| DomainRegistered domain_registered_payload
| Challenged challenged_payload
| Vouched vouched_payload
| RequestDismissed request_dismissed_payload
| ServiceUpdated service_updated_payload
| ServiceDeactivated service_deactivated_payload
| DomainDeactivated domain_deactivated_payload
| RequestVoided request_voided_payload
| RequestSlashed request_slashed_payload

text \<open>
  The event type string that the code pairs with each payload (the \<open>EventType\<close> constants); the zero
  event has the empty type.
\<close>

fun event_type_of :: "event_payload \<Rightarrow> string" where
  "event_type_of NoPayload = ''''"
| "event_type_of (ServiceRegistered _) = ''ServiceRegistered''"
| "event_type_of (InferenceRequested _) = ''InferenceRequested''"
| "event_type_of (ResultSubmitted _) = ''ResultSubmitted''"
| "event_type_of (RequestFinalized _) = ''RequestFinalized''"
| "event_type_of (RequestRefunded _) = ''RequestRefunded''"
| "event_type_of (BlockCommitted _) = ''BlockCommitted''"
| "event_type_of (DomainRegistered _) = ''DomainRegistered''"
| "event_type_of (Challenged _) = ''Challenged''"
| "event_type_of (RequestSlashed _) = ''RequestSlashed''"
| "event_type_of (Vouched _) = ''Vouched''"
| "event_type_of (RequestDismissed _) = ''RequestDismissed''"
| "event_type_of (ServiceUpdated _) = ''ServiceUpdated''"
| "event_type_of (ServiceDeactivated _) = ''ServiceDeactivated''"
| "event_type_of (DomainDeactivated _) = ''DomainDeactivated''"
| "event_type_of (RequestVoided _) = ''RequestVoided''"

record event =
  ev_type :: string
  ev_height :: i64
  ev_payload :: event_payload

definition mk_event :: "i64 \<Rightarrow> event_payload \<Rightarrow> event" where
  "mk_event h p = \<lparr>ev_type = event_type_of p, ev_height = h, ev_payload = p\<rparr>"

definition no_event :: event where
  "no_event = \<lparr>ev_type = '''', ev_height = 0, ev_payload = NoPayload\<rparr>"

subsection \<open>Errors\<close>

text \<open>
  The sentinel errors, an error that is only a text (\<open>errors.New\<close> or \<open>fmt.Errorf\<close> without
  \<open>%w\<close>), an error of the database, and an error wrapped with \<open>fmt.Errorf("...: %w", err)\<close>. The
  formatted numbers and addresses of a message are dropped; its fixed text is kept. \<open>Panic\<close> is a Go
  run-time panic (an index out of range), which leaves the database transaction rolled back.
\<close>

datatype chain_error =
  ErrInvalidSignature | ErrInvalidNonce | ErrInvalidAddress | ErrServiceNotFound
| ErrServiceInactive | ErrDuplicateName | ErrInsufficientFunds | ErrInsufficientPrice
| ErrInvalidDeadline | ErrRequestNotFound | ErrRequestNotPending | ErrWrongProvider
| ErrInputHashMismatch | ErrZeroPrice | ErrEmptyName
| ErrDomainNotFound | ErrDomainInactive | ErrAttestationDomainMismatch | ErrUnauthorized
| ErrChallengeWindowClosed | ErrChallengeNotApplicable | ErrChallengeOutputMatches
| ErrVouchNotApplicable | ErrVouchHashMismatch | ErrVouchDuplicate | ErrVouchNotEligible
| ErrNotOwner | ErrServiceAlreadyInactive | ErrInvalidDecision
| ErrText string | ErrDb string | Panic string | Wrapped string chain_error

text \<open>\<open>errors.Is(e, t)\<close> for a sentinel \<open>t\<close>: unwrap until the sentinel is met.\<close>

fun errors_is :: "chain_error \<Rightarrow> chain_error \<Rightarrow> bool" where
  "errors_is (Wrapped m e) t \<longleftrightarrow> Wrapped m e = t \<or> errors_is e t"
| "errors_is e t \<longleftrightarrow> e = t"

subsection \<open>The life cycle order of statuses\<close>

text \<open>
  The library order on statuses is the order of the life cycle: a request moves from pending to
  submitted to challenged and ends in one of the three terminal statuses.
\<close>

fun status_rank :: "request_status \<Rightarrow> nat" where
  "status_rank StatusPending = 0"
| "status_rank StatusSubmitted = 1"
| "status_rank StatusChallenged = 2"
| "status_rank StatusFinalized = 3"
| "status_rank StatusSlashed = 4"
| "status_rank StatusRefunded = 5"

lemma status_rank_inj: "status_rank a = status_rank b \<Longrightarrow> a = b"
  by (cases a; cases b) auto

instantiation request_status :: linorder
begin

definition less_eq_request_status :: "request_status \<Rightarrow> request_status \<Rightarrow> bool" where
  "less_eq_request_status a b \<longleftrightarrow> status_rank a \<le> status_rank b"

definition less_request_status :: "request_status \<Rightarrow> request_status \<Rightarrow> bool" where
  "less_request_status a b \<longleftrightarrow> status_rank a < status_rank b"

instance
  by standard (auto simp: less_eq_request_status_def less_request_status_def dest: status_rank_inj)

end

definition terminal :: "request_status \<Rightarrow> bool" where
  "terminal st \<longleftrightarrow> st = StatusFinalized \<or> st = StatusSlashed \<or> st = StatusRefunded"

lemma terminal_simps [simp]:
  "\<not> terminal StatusPending" "\<not> terminal StatusSubmitted" "\<not> terminal StatusChallenged"
  "terminal StatusFinalized" "terminal StatusSlashed" "terminal StatusRefunded"
  by (simp_all add: terminal_def)

lemma not_isPositive [simp]: "\<not> isPositive c \<longleftrightarrow> amount c = 0"
  by (auto simp: isPositive_def word_gt_0)

lemma isPositive_zero [simp]: "\<not> isPositive zero_coin"
  by (simp add: zero_coin_def isPositive_def)

end
