(* ===== verification/Codec.thy ===== *)
theory Codec
  imports Types
begin

text \<open>
  Byte-level encodings: lowercase hex as in Go's \<open>encoding/hex\<close>, the big-endian keys of the id
  buckets and counters (\<open>uint64Key\<close>, \<open>putUint64\<close>, \<open>getUint64\<close> in
  \<open>chain/internal/state/state.go\<close>), account addresses (\<open>AddressFromPubKey\<close>, \<open>IsValidAddress\<close>),
  the module addresses, and the stateless check \<open>ValidateBasic\<close> of a signed envelope. SHA-256 is a
  parameter \<open>sha\<close>: any function from byte strings to byte strings of length 32.
\<close>

unbundle bit_operations_syntax

subsection \<open>Hex\<close>

definition hexDigit :: "nat \<Rightarrow> char" where
  "hexDigit n = ''0123456789abcdef'' ! n"

fun hexEncode :: "bytes \<Rightarrow> string" where
  "hexEncode [] = []"
| "hexEncode (b # bs) = hexDigit (unat b div 16) # hexDigit (unat b mod 16) # hexEncode bs"

definition fromHexChar :: "char \<Rightarrow> nat option" where
  "fromHexChar c =
     (let n = (of_char c :: nat) in
      if 48 \<le> n \<and> n \<le> 57 then Some (n - 48)
      else if 97 \<le> n \<and> n \<le> 102 then Some (n - 97 + 10)
      else if 65 \<le> n \<and> n \<le> 70 then Some (n - 65 + 10)
      else None)"

fun hexDecode :: "string \<Rightarrow> bytes option" where
  "hexDecode [] = Some []"
| "hexDecode [c] = None"
| "hexDecode (c # d # cs) =
     (case (fromHexChar c, fromHexChar d) of
        (Some a, Some b) \<Rightarrow> map_option (\<lambda>bs. word_of_nat (16 * a + b) # bs) (hexDecode cs)
      | _ \<Rightarrow> None)"

subsection \<open>Big-endian keys\<close>

fun uint64KeyLoop :: "nat \<Rightarrow> u64 \<Rightarrow> bytes \<Rightarrow> bytes" where
  "uint64KeyLoop 0 n b = b"
| "uint64KeyLoop (Suc i) n b = uint64KeyLoop i (drop_bit 8 n) (b[i := ucast n])"

definition uint64Key :: "u64 \<Rightarrow> bytes" where
  "uint64Key n = uint64KeyLoop 8 n (replicate 8 0)"

fun getUint64Loop :: "bytes \<Rightarrow> u64 \<Rightarrow> u64" where
  "getUint64Loop [] n = n"
| "getUint64Loop (c # cs) n = getUint64Loop cs (push_bit 8 n OR ucast c)"

definition getUint64 :: "bytes \<Rightarrow> u64" where
  "getUint64 bz = (if length bz \<noteq> 8 then 0 else getUint64Loop bz 0)"

subsection \<open>Addresses\<close>

definition addressFromPubKey :: "(bytes \<Rightarrow> bytes) \<Rightarrow> bytes \<Rightarrow> string" where
  "addressFromPubKey sha pub = ''aios1'' @ hexEncode (take 20 (sha pub))"

definition isValidAddress :: "string \<Rightarrow> bool" where
  "isValidAddress s =
     (if take 5 s \<noteq> ''aios1'' then False
      else let body = drop 5 s in
        if length body \<noteq> 40 then False else hexDecode body \<noteq> None)"

definition moduleEscrowAddr :: string where
  "moduleEscrowAddr = ''aios1escrow000000000000000000000000000000''"

definition moduleFaucetAddr :: string where
  "moduleFaucetAddr = ''aios1faucet000000000000000000000000000000''"

definition moduleTreasuryAddr :: string where
  "moduleTreasuryAddr = ''aios1treasury00000000000000000000000000000''"

subsection \<open>The signed envelope\<close>

definition known_tx_types :: "string list" where
  "known_tx_types =
     [txRegisterService, txRequestInference, txSubmitResult, txTransfer, txRegisterDomain,
      txChallenge, txVouch, txUpdateService, txDeactivateService, txDeactivateDomain,
      txResolveChallenge]"

definition validateBasic :: "signed_tx \<Rightarrow> chain_error + unit" where
  "validateBasic t =
     (if tx_type t \<notin> set known_tx_types then Inl (ErrText ''unknown tx type'')
      else if length (tx_pub_key_hex t) = 0 then Inl (ErrText ''pub_key_hex required'')
      else if hexDecode (tx_pub_key_hex t) = None then Inl (Wrapped ''pub_key_hex'' (ErrText ''hex''))
      else if length (tx_signature_hex t) = 0 then Inl (ErrText ''signature_hex required'')
      else if hexDecode (tx_signature_hex t) = None then Inl (Wrapped ''signature_hex'' (ErrText ''hex''))
      else if length (tx_payload t) = 0 then Inl (ErrText ''payload required'')
      else Inr ())"

text \<open>
  What is signed: the envelope with its signature cleared, through an encoder \<open>enc\<close> (Go's
  \<open>json.Marshal\<close>, which may refuse a payload that is not JSON). The same for an attestation.
\<close>

definition txCanonicalBytes :: "(signed_tx \<Rightarrow> bytes option) \<Rightarrow> signed_tx \<Rightarrow> bytes option" where
  "txCanonicalBytes enc t =
     enc \<lparr>tx_type = tx_type t, tx_nonce = tx_nonce t, tx_pub_key_hex = tx_pub_key_hex t,
          tx_signature_hex = '''', tx_payload = tx_payload t\<rparr>"

definition attestationCanonicalBytes :: "(attestation \<Rightarrow> bytes option) \<Rightarrow> attestation \<Rightarrow> bytes option" where
  "attestationCanonicalBytes enc a = enc (a\<lparr>att_signature_hex := ''''\<rparr>)"

subsection \<open>Hex: round trip\<close>

lemma fromHexChar_hexDigit: "n < 16 \<Longrightarrow> fromHexChar (hexDigit n) = Some n"
proof -
  have "\<forall>n \<in> set [0..<16]. fromHexChar (hexDigit n) = Some n"
    by code_simp
  then show "n < 16 \<Longrightarrow> fromHexChar (hexDigit n) = Some n" by simp
qed

lemma byte_nibbles: "word_of_nat (16 * (unat (b :: u8) div 16) + unat b mod 16) = b"
  by (simp add: mult.commute)

lemma length_hexEncode [simp]: "length (hexEncode bs) = 2 * length bs"
  by (induction bs) auto

lemma u8_less: "unat (b :: u8) < 256"
  using unsigned_less [of b] by simp

lemma hexDecode_Encode: "hexDecode (hexEncode bs) = Some bs"
proof (induction bs)
  case (Cons b bs)
  have "unat b div 16 < 16" and "unat b mod 16 < 16"
    using u8_less [of b] by simp_all
  then show ?case
    using Cons by (simp add: fromHexChar_hexDigit byte_nibbles del: of_nat_add of_nat_mult)
qed simp

lemma hexDecode_head: "hexDecode (c # cs) = Some bs \<Longrightarrow> fromHexChar c \<noteq> None"
  by (cases cs) (auto split: option.splits)

lemma hexDecode_second: "hexDecode (c # d # cs) = Some bs \<Longrightarrow> fromHexChar d \<noteq> None"
  by (auto split: option.splits)

subsection \<open>Keys: round trip and order\<close>

text \<open>The number a byte string denotes, most significant byte first.\<close>

fun beval :: "bytes \<Rightarrow> nat" where
  "beval [] = 0"
| "beval (c # cs) = unat c * 256 ^ length cs + beval cs"

lemma beval_less: "beval bs < 256 ^ length bs"
proof (induction bs)
  case (Cons c cs)
  have "unat c * 256 ^ length cs + beval cs < (unat c + 1) * 256 ^ length cs"
    using Cons by simp
  also have "\<dots> \<le> 256 * 256 ^ length cs"
    using u8_less [of c] by (intro mult_right_mono) auto
  finally show ?case by simp
qed simp

text \<open>On byte strings of one length the bytewise order is the order of the numbers.\<close>

lemma less_beval: "length xs = length ys \<Longrightarrow> xs < ys \<longleftrightarrow> beval xs < beval ys"
proof (induction xs ys rule: list_induct2)
  case (Cons x xs y ys)
  have sx: "beval xs < 256 ^ length ys" and sy: "beval ys < 256 ^ length ys"
    using beval_less [of xs] beval_less [of ys] Cons.hyps by simp_all
  have le: "a * k + r < b * k + s" if "a < b" "r < k" for a b r s k :: nat
  proof -
    have "a * k + r < (a + 1) * k" using that by simp
    also have "\<dots> \<le> b * k" using that by (intro mult_right_mono) auto
    finally show ?thesis by simp
  qed
  consider "unat x < unat y" | "x = y" | "unat y < unat x"
    by (metis linorder_cases word_unat_eq_iff)
  then show ?case
  proof cases
    case 1
    then show ?thesis
      using le [OF 1 sx, of "beval ys"] Cons.hyps by (simp add: word_less_nat_alt)
  next
    case 2
    then show ?thesis using Cons by simp
  next
    case 3
    then show ?thesis
      using le [OF 3 sy, of "beval xs"] Cons.hyps by (auto simp: word_less_nat_alt)
  qed
qed simp

lemma uint64Key_bytes:
  "uint64Key n =
     [ucast (drop_bit 56 n), ucast (drop_bit 48 n), ucast (drop_bit 40 n), ucast (drop_bit 32 n),
      ucast (drop_bit 24 n), ucast (drop_bit 16 n), ucast (drop_bit 8 n), ucast n]"
  by (simp add: uint64Key_def eval_nat_numeral)

lemma length_uint64Key [simp]: "length (uint64Key n) = 8"
  by (simp add: uint64Key_bytes)

lemma unat_byte: "unat (ucast (drop_bit k (n :: u64)) :: u8) = (unat n div 2 ^ k) mod 256"
proof -
  have "unat (ucast (drop_bit k n) :: u8) = take_bit 8 (unat (drop_bit k n))"
    by (simp add: unsigned_ucast_eq)
  also have "\<dots> = (unat n div 2 ^ k) mod 256"
    by (simp only: unat_drop_bit_eq) (simp add: drop_bit_eq_div take_bit_eq_mod)
  finally show ?thesis .
qed

lemma beval_digits:
  "beval (map (\<lambda>k. ucast (drop_bit (8 * k) (n :: u64))) (rev [0..<m])) = unat n mod 256 ^ m"
proof (induction m)
  case (Suc m)
  have "unat n mod 256 ^ Suc m = 256 ^ m * (unat n div 256 ^ m mod 256) + unat n mod 256 ^ m"
    using mod_mult2_eq [of "unat n" "256 ^ m" 256] by (simp add: mult.commute)
  moreover have "(2 :: nat) ^ (8 * m) = 256 ^ m"
    by (simp add: power_mult)
  ultimately show ?case
    using Suc by (simp add: unat_byte)
qed simp

lemma beval_uint64Key: "beval (uint64Key n) = unat n"
proof -
  have "uint64Key n = map (\<lambda>k. ucast (drop_bit (8 * k) n)) (rev [0..<8])"
    by (simp add: uint64Key_bytes upt_rec)
  then show ?thesis
    using beval_digits [of n 8] unat_64_less [of n] by simp
qed

lemma shift_in_byte:
  assumes "unat (n :: u64) < 2 ^ 56"
  shows "unat (push_bit 8 n OR ucast (c :: u8)) = unat n * 256 + unat c"
proof -
  have "push_bit 8 n OR (ucast c :: u64) = push_bit 8 n + ucast c"
    by (rule disjunctive_add [symmetric]) (auto simp: bit_simps dest: bit_imp_le_length)
  then have e: "push_bit 8 n OR (ucast c :: u64) = n * 256 + ucast c"
    by (simp add: push_bit_eq_mult)
  have m: "unat (n * 256) = unat n * 256"
    using assms by (simp add: unat_word_ariths)
  have c: "unat (ucast c :: u64) = unat c"
    using u8_less [of c] by (simp add: unsigned_ucast_eq take_bit_nat_eq_self_iff)
  show ?thesis
    unfolding e using assms u8_less [of c] by (subst unat_add_fits) (simp_all add: m c)
qed

lemma getUint64Loop_beval:
  "unat n * 256 ^ length cs + beval cs < 2 ^ 64 \<Longrightarrow>
   unat (getUint64Loop cs n) = unat n * 256 ^ length cs + beval cs"
proof (induction cs arbitrary: n)
  case (Cons c cs)
  have "unat n * 256 \<le> unat n * 256 ^ Suc (length cs)"
    by simp
  also have "\<dots> < 2 ^ 64"
    using Cons.prems by (rule le_less_trans [rotated]) simp
  finally have "unat n < 2 ^ 56"
    by simp
  then have step: "unat (push_bit 8 n OR ucast c) = unat n * 256 + unat c"
    by (rule shift_in_byte)
  show ?case
    using Cons.prems by (simp add: Cons.IH step algebra_simps)
qed simp

lemma getUint64_beval: "length bz = 8 \<Longrightarrow> unat (getUint64 bz) = beval bz"
  using beval_less [of bz] by (simp add: getUint64_def getUint64Loop_beval)

lemma getUint64_uint64Key: "getUint64 (uint64Key n) = n"
  by (rule word_unat_eq_iff [THEN iffD2]) (simp add: getUint64_beval beval_uint64Key)

lemma uint64Key_less: "uint64Key n < uint64Key m \<longleftrightarrow> n < m"
  by (simp add: less_beval beval_uint64Key word_less_nat_alt)

subsection \<open>Addresses\<close>

lemma isValidAddress_derived:
  "length (sha pub) = 32 \<Longrightarrow> isValidAddress (addressFromPubKey sha pub)"
  by (simp add: addressFromPubKey_def isValidAddress_def hexDecode_Encode)

lemma not_hex_char: "fromHexChar (CHR ''s'') = None" "fromHexChar (CHR ''t'') = None"
  "fromHexChar (CHR ''u'') = None"
  by code_simp+

lemma moduleAddr_invalid:
  "\<not> isValidAddress moduleEscrowAddr" "\<not> isValidAddress moduleTreasuryAddr"
  "\<not> isValidAddress moduleFaucetAddr"
proof -
  have "hexDecode (drop 5 moduleEscrowAddr) = None"
    using hexDecode_second [of "CHR ''e''" "CHR ''s''"]
    by (cases "hexDecode (drop 5 moduleEscrowAddr)") (auto simp: moduleEscrowAddr_def not_hex_char)
  then show "\<not> isValidAddress moduleEscrowAddr"
    by (simp add: isValidAddress_def Let_def)
  have "hexDecode (drop 5 moduleTreasuryAddr) = None"
    using hexDecode_head [of "CHR ''t''"]
    by (cases "hexDecode (drop 5 moduleTreasuryAddr)") (auto simp: moduleTreasuryAddr_def not_hex_char)
  then show "\<not> isValidAddress moduleTreasuryAddr"
    by (simp add: isValidAddress_def Let_def)
  have "fromHexChar (CHR ''u'') = None" by (rule not_hex_char)
  then have "hexDecode (drop 5 moduleFaucetAddr) = None"
    by (simp add: moduleFaucetAddr_def split: option.splits)
  then show "\<not> isValidAddress moduleFaucetAddr"
    by (simp add: isValidAddress_def Let_def)
qed

lemma isValidAddress_length: "isValidAddress s \<Longrightarrow> length s = 45"
proof -
  assume "isValidAddress s"
  then have "take 5 s = ''aios1''" and "length (drop 5 s) = 40"
    by (auto simp: isValidAddress_def Let_def split: if_splits)
  then have "length (take 5 s) + length (drop 5 s) = 45"
    by simp
  then show ?thesis
    by (simp del: length_take length_drop flip: length_append)
qed

end
