(* ===== verification/Payments.thy ===== *)
theory Payments
  imports Prelude
begin

text \<open>
  The contract of a ledger, and what a client can build on it. The settlement code never touches an
  account directly: it debits the escrow account and credits a party. The locale \<open>ledger\<close> states
  what that code relies on (how a debit and a credit change balances and supply, when they succeed,
  that they leave the rest of the state alone), and proves once what follows for the three shapes of
  payment the code has: one move, a list of moves from one account (\<open>payAll\<close>), and a pool debited
  once and credited in shares (\<open>payPool\<close>).
\<close>

fun payAll ::
  "('s \<Rightarrow> string \<Rightarrow> u64 \<Rightarrow> 'e + 's) \<Rightarrow> ('s \<Rightarrow> string \<Rightarrow> u64 \<Rightarrow> 'e + 's) \<Rightarrow> string \<Rightarrow>
   (string \<times> u64) list \<Rightarrow> 's \<Rightarrow> 'e + 's" where
  "payAll dr cr src [] s = Inr s"
| "payAll dr cr src (p # ps) s =
     bind_r (bind_r (dr s src (snd p)) (\<lambda>s. cr s (fst p) (snd p))) (payAll dr cr src ps)"

fun creditAll ::
  "('s \<Rightarrow> string \<Rightarrow> u64 \<Rightarrow> 'e + 's) \<Rightarrow> (string \<times> u64) list \<Rightarrow> 's \<Rightarrow> 'e + 's" where
  "creditAll cr [] s = Inr s"
| "creditAll cr (p # ps) s = bind_r (cr s (fst p) (snd p)) (creditAll cr ps)"

definition payPool ::
  "('s \<Rightarrow> string \<Rightarrow> u64 \<Rightarrow> 'e + 's) \<Rightarrow> ('s \<Rightarrow> string \<Rightarrow> u64 \<Rightarrow> 'e + 's) \<Rightarrow> string \<Rightarrow> u64 \<Rightarrow>
   (string \<times> u64) list \<Rightarrow> 's \<Rightarrow> 'e + 's" where
  "payPool dr cr src pool ps s = bind_r (dr s src pool) (creditAll cr ps)"

definition due :: "(string \<times> u64) list \<Rightarrow> nat" where
  "due ps = sum_list (map (unat \<circ> snd) ps)"

definition received :: "(string \<times> u64) list \<Rightarrow> string \<Rightarrow> nat" where
  "received ps a = sum_list (map (unat \<circ> snd) (filter (\<lambda>p. fst p = a) ps))"

lemma due_simps [simp]:
  "due [] = 0" "due (p # ps) = unat (snd p) + due ps" "due (ps @ qs) = due ps + due qs"
  by (simp_all add: due_def)

lemma received_simps [simp]:
  "received [] a = 0"
  "received (p # ps) a = (if fst p = a then unat (snd p) else 0) + received ps a"
  "received (ps @ qs) a = received ps a + received qs a"
  by (simp_all add: received_def)

lemma payAll_append:
  "payAll dr cr src (ps @ qs) s = bind_r (payAll dr cr src ps s) (payAll dr cr src qs)"
proof (induction ps arbitrary: s)
  case (Cons p ps)
  then show ?case
    by (cases "bind_r (dr s src (snd p)) (\<lambda>s. cr s (fst p) (snd p))") auto
qed simp

locale ledger =
  fixes bal :: "'s \<Rightarrow> string \<Rightarrow> nat"
    and total :: "'s \<Rightarrow> nat"
    and ok :: "'s \<Rightarrow> bool"
    and frame :: "'s \<Rightarrow> 's \<Rightarrow> bool"
    and addr_ok :: "string \<Rightarrow> bool"
    and dr :: "'s \<Rightarrow> string \<Rightarrow> u64 \<Rightarrow> 'e + 's"
    and cr :: "'s \<Rightarrow> string \<Rightarrow> u64 \<Rightarrow> 'e + 's"
  assumes fits: "ok s \<Longrightarrow> total s < 2 ^ 64"
    and frame_refl: "frame s s"
    and frame_trans: "frame s t \<Longrightarrow> frame t u \<Longrightarrow> frame s u"
    and dr_Inr: "ok s \<Longrightarrow> dr s a n = Inr s' \<Longrightarrow>
      unat n \<le> bal s a \<and> ok s' \<and> frame s s' \<and> total s' + unat n = total s
      \<and> bal s' = (bal s)(a := bal s a - unat n)"
    and dr_ok: "ok s \<Longrightarrow> addr_ok a \<Longrightarrow> unat n \<le> bal s a \<Longrightarrow> \<exists>s'. dr s a n = Inr s'"
    and cr_Inr: "ok s \<Longrightarrow> total s + unat n < 2 ^ 64 \<Longrightarrow> cr s a n = Inr s' \<Longrightarrow>
      ok s' \<and> frame s s' \<and> total s' = total s + unat n
      \<and> bal s' = (bal s)(a := bal s a + unat n)"
    and cr_ok: "addr_ok a \<Longrightarrow> \<exists>s'. cr s a n = Inr s'"
begin

lemma move_Inr:
  assumes "ok s" and "dr s src n = Inr s1" and "cr s1 dst n = Inr s'"
  shows "unat n \<le> bal s src \<and> ok s' \<and> frame s s' \<and> total s' = total s
    \<and> (\<forall>a. bal s' a + (if a = src then unat n else 0) = bal s a + (if a = dst then unat n else 0))"
proof -
  note d = dr_Inr [OF assms(1,2)]
  have "total s1 + unat n < 2 ^ 64"
    using d fits [OF assms(1)] by simp
  with assms(3) have "ok s' \<and> frame s1 s' \<and> total s' = total s1 + unat n
      \<and> bal s' = (bal s1)(dst := bal s1 dst + unat n)"
    using d cr_Inr [of s1 n dst s'] by simp
  moreover have "frame s s'"
    using d calculation frame_trans by blast
  ultimately show ?thesis
    using d by auto
qed

lemma move_ok:
  assumes "ok s" and "addr_ok src" and "addr_ok dst" and "unat n \<le> bal s src"
  shows "\<exists>s1 s'. dr s src n = Inr s1 \<and> cr s1 dst n = Inr s'"
  using dr_ok [OF assms(1,2,4)] cr_ok [OF assms(3)] by blast

lemma payAll_Inr:
  "ok s \<Longrightarrow> payAll dr cr src ps s = Inr s' \<Longrightarrow>
   ok s' \<and> frame s s' \<and> total s' = total s
   \<and> (\<forall>a. bal s' a + (if a = src then due ps else 0) = bal s a + received ps a)"
proof (induction ps arbitrary: s)
  case Nil
  then show ?case by (auto simp: frame_refl)
next
  case (Cons p ps)
  from Cons.prems(2) obtain s1 s2 where d: "dr s src (snd p) = Inr s1"
    and c: "cr s1 (fst p) (snd p) = Inr s2" and rest: "payAll dr cr src ps s2 = Inr s'"
    by auto
  note m = move_Inr [OF Cons.prems(1) d c]
  then have "ok s2" by blast
  from Cons.IH [OF this rest] have r: "ok s'" "frame s2 s'" "total s' = total s2"
    and b: "\<And>a. bal s' a + (if a = src then due ps else 0) = bal s2 a + received ps a"
    by blast+
  have "bal s' a + (if a = src then due (p # ps) else 0) = bal s a + received (p # ps) a" for a
  proof -
    have "bal s2 a + (if a = src then unat (snd p) else 0)
        = bal s a + (if a = fst p then unat (snd p) else 0)"
      using m by blast
    then show ?thesis
      using b [of a] by (cases "a = src"; cases "fst p = a") auto
  qed
  moreover have "frame s s'"
    using m r(2) frame_trans by blast
  ultimately show ?case
    using m r by simp
qed

lemma payAll_ok:
  "ok s \<Longrightarrow> addr_ok src \<Longrightarrow> (\<And>p. p \<in> set ps \<Longrightarrow> addr_ok (fst p)) \<Longrightarrow> due ps \<le> bal s src \<Longrightarrow>
   \<exists>s'. payAll dr cr src ps s = Inr s'"
proof (induction ps arbitrary: s)
  case (Cons p ps)
  have "addr_ok (fst p)" and "unat (snd p) \<le> bal s src"
    using Cons.prems(3,4) by simp_all
  then obtain s1 s2 where d: "dr s src (snd p) = Inr s1" and c: "cr s1 (fst p) (snd p) = Inr s2"
    using move_ok [OF Cons.prems(1,2)] by blast
  note m = move_Inr [OF Cons.prems(1) d c]
  then have "bal s2 src + unat (snd p) = bal s src + (if src = fst p then unat (snd p) else 0)"
    by (metis (mono_tags, lifting))
  with Cons.prems(4) have "due ps \<le> bal s2 src" by simp
  moreover have "ok s2"
    using m by blast
  ultimately have "\<exists>s'. payAll dr cr src ps s2 = Inr s'"
    using Cons.prems(2,3) by (intro Cons.IH) simp_all
  with d c show ?case by simp
qed simp

lemma creditAll_Inr:
  "ok s \<Longrightarrow> total s + due ps < 2 ^ 64 \<Longrightarrow> creditAll cr ps s = Inr s' \<Longrightarrow>
   ok s' \<and> frame s s' \<and> total s' = total s + due ps \<and> (\<forall>a. bal s' a = bal s a + received ps a)"
proof (induction ps arbitrary: s)
  case Nil
  then show ?case by (auto simp: frame_refl)
next
  case (Cons p ps)
  from Cons.prems(3) obtain s1 where c: "cr s (fst p) (snd p) = Inr s1"
    and rest: "creditAll cr ps s1 = Inr s'"
    by auto
  have m: "ok s1 \<and> frame s s1 \<and> total s1 = total s + unat (snd p)
      \<and> bal s1 = (bal s)(fst p := bal s (fst p) + unat (snd p))"
    using cr_Inr [OF Cons.prems(1) _ c] Cons.prems(2) by simp
  then have "ok s1" and "total s1 + due ps < 2 ^ 64"
    using Cons.prems(2) by simp_all
  note r = Cons.IH [OF this rest]
  moreover have "frame s s'"
    using m r frame_trans by blast
  ultimately show ?case
    using m by simp
qed

lemma creditAll_ok:
  "(\<And>p. p \<in> set ps \<Longrightarrow> addr_ok (fst p)) \<Longrightarrow> \<exists>s'. creditAll cr ps s = Inr s'"
proof (induction ps arbitrary: s)
  case (Cons p ps)
  obtain s1 where "cr s (fst p) (snd p) = Inr s1"
    using cr_ok Cons.prems [of p] by fastforce
  moreover have "\<exists>s'. creditAll cr ps s1 = Inr s'"
    using Cons.prems by (intro Cons.IH) simp
  ultimately show ?case by simp
qed simp

lemma payPool_Inr:
  assumes "ok s" and "due ps = unat pool" and "payPool dr cr src pool ps s = Inr s'"
  shows "ok s' \<and> frame s s' \<and> total s' = total s
   \<and> (\<forall>a. bal s' a + (if a = src then unat pool else 0) = bal s a + received ps a)"
proof -
  obtain s1 where d: "dr s src pool = Inr s1" and c: "creditAll cr ps s1 = Inr s'"
    using assms(3) by (auto simp: payPool_def)
  note m = dr_Inr [OF assms(1) d]
  then have "ok s' \<and> frame s1 s' \<and> total s' = total s1 + due ps
      \<and> (\<forall>a. bal s' a = bal s1 a + received ps a)"
    using creditAll_Inr [OF _ _ c] fits [OF assms(1)] assms(2) by simp
  moreover have "frame s s'"
    using m calculation frame_trans by blast
  ultimately show ?thesis
    using m assms(2) by auto
qed

lemma payPool_ok:
  assumes "ok s" and "addr_ok src" and "\<And>p. p \<in> set ps \<Longrightarrow> addr_ok (fst p)"
    and "unat pool \<le> bal s src"
  shows "\<exists>s'. payPool dr cr src pool ps s = Inr s'"
proof -
  obtain s1 where "dr s src pool = Inr s1"
    using dr_ok [OF assms(1,2,4)] by blast
  moreover have "\<exists>s'. creditAll cr ps s1 = Inr s'"
    using assms(3) by (rule creditAll_ok)
  ultimately show ?thesis by (simp add: payPool_def)
qed

end

end
