(* ===== verification/Ledger.thy ===== *)
theory Ledger
  imports Codec Payments
begin

text \<open>
  The state of the chain (\<open>State\<close> in \<open>chain/internal/state/state.go\<close>), its accounts and its nonces.

  The database is bbolt, a third-party store. What the model keeps of it is its contents: each bucket
  is the ordered list of its entries, \<open>Get\<close> is \<open>map_of\<close>, a cursor reads the list from its head, and a
  transaction that returns an error leaves the old contents (see the theory on submission). Whether
  \<open>Put\<close> accepts a key is up to the store: \<open>put_err\<close> of the environment, which
  \<open>put_accepts\<close> assumes to refuse no key of 1 to 32768 bytes, the documented limits. The environment
  also carries the cryptography and the JSON codec of the Go standard library.
\<close>

datatype bucket_id =
  BktMeta | BktAccounts | BktServices | BktSvcByName | BktRequests | BktNonces | BktDomains

record env =
  put_err :: "bucket_id \<Rightarrow> bytes \<Rightarrow> string option"
  sha256 :: "bytes \<Rightarrow> bytes"
  ed25519_verify :: "bytes \<Rightarrow> bytes \<Rightarrow> bytes \<Rightarrow> bool"
  encode_tx :: "signed_tx \<Rightarrow> bytes option"
  dec_register_service :: "string \<Rightarrow> msg_register_service option"
  dec_request_inference :: "string \<Rightarrow> msg_request_inference option"
  dec_submit_result :: "string \<Rightarrow> msg_submit_result option"
  dec_transfer :: "string \<Rightarrow> msg_transfer option"
  dec_register_domain :: "string \<Rightarrow> msg_register_domain option"
  dec_challenge :: "string \<Rightarrow> msg_challenge option"
  dec_vouch :: "string \<Rightarrow> msg_vouch option"
  dec_update_service :: "string \<Rightarrow> msg_update_service option"
  dec_deactivate_service :: "string \<Rightarrow> msg_deactivate_service option"
  dec_deactivate_domain :: "string \<Rightarrow> msg_deactivate_domain option"
  dec_resolve_challenge :: "string \<Rightarrow> msg_resolve_challenge option"

definition put_accepts :: "env \<Rightarrow> bool" where
  "put_accepts E \<longleftrightarrow> (\<forall>b k. 0 < length k \<and> length k \<le> 32768 \<longrightarrow> put_err E b k = None)"

record account =
  acc_address :: string
  acc_balance :: u64
  acc_nonce :: u64

datatype meta_value = MetaU64 u64 | MetaString string | MetaParams params

definition keyChainID :: string where "keyChainID = ''chain_id''"
definition keyHeight :: string where "keyHeight = ''height''"
definition keyNextSvcID :: string where "keyNextSvcID = ''next_service_id''"
definition keyNextReqID :: string where "keyNextReqID = ''next_request_id''"
definition keyNextDomainID :: string where "keyNextDomainID = ''next_domain_id''"
definition keyParams :: string where "keyParams = ''params''"
definition keyAuthority :: string where "keyAuthority = ''authority''"

lemmas meta_keys = keyChainID_def keyHeight_def keyNextSvcID_def keyNextReqID_def
  keyNextDomainID_def keyParams_def keyAuthority_def

record chain_state =
  cs_meta :: "(string, meta_value) bucket"
  cs_accounts :: "(string, account) bucket"
  cs_services :: "(u64, service) bucket"
  cs_svc_by_name :: "(string, u64) bucket"
  cs_requests :: "(u64, inference_request) bucket"
  cs_nonces :: "(string, u64) bucket"
  cs_domains :: "(u64, verification_domain) bucket"

definition empty_db :: chain_state where
  "empty_db = \<lparr>cs_meta = [], cs_accounts = [], cs_services = [], cs_svc_by_name = [],
     cs_requests = [], cs_nonces = [], cs_domains = []\<rparr>"

text \<open>\<open>Bucket.Put\<close>: the store accepts the key, and then the new contents \<open>s'\<close> hold, or refuses it.\<close>

definition bucket_put :: "env \<Rightarrow> bucket_id \<Rightarrow> bytes \<Rightarrow> chain_state \<Rightarrow> chain_error + chain_state" where
  "bucket_put E b k s' = (case put_err E b k of None \<Rightarrow> Inr s' | Some m \<Rightarrow> Inl (ErrDb m))"

subsection \<open>The meta bucket\<close>

definition putMeta :: "env \<Rightarrow> chain_state \<Rightarrow> string \<Rightarrow> meta_value \<Rightarrow> chain_error + chain_state" where
  "putMeta E s k v = bucket_put E BktMeta (string_bytes k) (s\<lparr>cs_meta := bput k v (cs_meta s)\<rparr>)"

definition getMetaUint64 :: "chain_state \<Rightarrow> string \<Rightarrow> u64" where
  "getMetaUint64 s k = (case map_of (cs_meta s) k of Some (MetaU64 n) \<Rightarrow> n | _ \<Rightarrow> 0)"

definition getMetaString :: "chain_state \<Rightarrow> string \<Rightarrow> string" where
  "getMetaString s k = (case map_of (cs_meta s) k of Some (MetaString t) \<Rightarrow> t | _ \<Rightarrow> '''')"

definition paramsLocked :: "chain_state \<Rightarrow> chain_error + params" where
  "paramsLocked s =
     (case map_of (cs_meta s) keyParams of Some (MetaParams p) \<Rightarrow> Inr p | _ \<Rightarrow> Inl (ErrText ''json''))"

definition heightLocked :: "chain_state \<Rightarrow> i64" where
  "heightLocked s = getMetaUint64 s keyHeight"

definition authorityLocked :: "chain_state \<Rightarrow> string" where
  "authorityLocked s = getMetaString s keyAuthority"

text \<open>\<open>init\<close>: each key that is missing gets its first value; the others stay.\<close>

definition initKey :: "env \<Rightarrow> string \<Rightarrow> meta_value \<Rightarrow> chain_state \<Rightarrow> chain_error + chain_state" where
  "initKey E k v s = (if map_of (cs_meta s) k = None then putMeta E s k v else Inr s)"

definition initState :: "env \<Rightarrow> chain_state \<Rightarrow> chain_error + chain_state" where
  "initState E s =
     bind_r (initKey E keyChainID (MetaString ''aios-devnet-1'') s) (\<lambda>s.
     bind_r (initKey E keyHeight (MetaU64 0) s) (\<lambda>s.
     bind_r (initKey E keyNextSvcID (MetaU64 1) s) (\<lambda>s.
     bind_r (initKey E keyNextReqID (MetaU64 1) s) (\<lambda>s.
     bind_r (initKey E keyNextDomainID (MetaU64 1) s) (\<lambda>s.
     initKey E keyParams (MetaParams defaultParams) s)))))"

definition setParams :: "env \<Rightarrow> chain_state \<Rightarrow> params \<Rightarrow> chain_error + chain_state" where
  "setParams E s p = putMeta E s keyParams (MetaParams p)"

definition setAuthority :: "env \<Rightarrow> chain_state \<Rightarrow> string \<Rightarrow> chain_error + chain_state" where
  "setAuthority E s addr =
     (if \<not> isValidAddress addr then Inl ErrInvalidAddress
      else putMeta E s keyAuthority (MetaString addr))"

subsection \<open>Accounts\<close>

definition loadAccount :: "chain_state \<Rightarrow> string \<Rightarrow> account" where
  "loadAccount s addr =
     (case map_of (cs_accounts s) addr of
        None \<Rightarrow> \<lparr>acc_address = addr, acc_balance = 0, acc_nonce = 0\<rparr>
      | Some acc \<Rightarrow> acc)"

definition credit :: "env \<Rightarrow> chain_state \<Rightarrow> string \<Rightarrow> u64 \<Rightarrow> chain_error + chain_state" where
  "credit E s addr n =
     (if n = 0 then Inr s
      else let acc = loadAccount s addr;
               acc' = acc\<lparr>acc_balance := acc_balance acc + n\<rparr>
           in bucket_put E BktAccounts (string_bytes addr)
                (s\<lparr>cs_accounts := bput addr acc' (cs_accounts s)\<rparr>))"

definition debit :: "env \<Rightarrow> chain_state \<Rightarrow> string \<Rightarrow> u64 \<Rightarrow> chain_error + chain_state" where
  "debit E s addr n =
     (if n = 0 then Inr s
      else let acc = loadAccount s addr in
        if acc_balance acc < n then Inl ErrInsufficientFunds
        else let acc' = acc\<lparr>acc_balance := acc_balance acc - n\<rparr>
             in bucket_put E BktAccounts (string_bytes addr)
                  (s\<lparr>cs_accounts := bput addr acc' (cs_accounts s)\<rparr>))"

definition mint :: "env \<Rightarrow> chain_state \<Rightarrow> string \<Rightarrow> u64 \<Rightarrow> chain_error + chain_state" where
  "mint E s addr n = credit E s addr n"

definition treasuryBalance :: "chain_state \<Rightarrow> u64" where
  "treasuryBalance s = acc_balance (loadAccount s moduleTreasuryAddr)"

text \<open>
  The pair that the handlers write out at every payment: debit the source, then credit the
  destination; \<open>w\<close> is what the debit's error is wrapped in.
\<close>

definition move ::
  "(chain_error \<Rightarrow> chain_error) \<Rightarrow> env \<Rightarrow> chain_state \<Rightarrow> string \<Rightarrow> string \<Rightarrow> u64 \<Rightarrow> chain_error + chain_state"
  where
  "move w E s src dst n = bind_r (map_err w (debit E s src n)) (\<lambda>s. credit E s dst n)"

subsection \<open>Nonces\<close>

definition nextNonce :: "chain_state \<Rightarrow> string \<Rightarrow> u64" where
  "nextNonce s addr = (case map_of (cs_nonces s) addr of None \<Rightarrow> 0 | Some n \<Rightarrow> n)"

definition incNonce :: "env \<Rightarrow> chain_state \<Rightarrow> string \<Rightarrow> chain_error + chain_state" where
  "incNonce E s addr =
     bucket_put E BktNonces (string_bytes addr)
       (s\<lparr>cs_nonces := bput addr (nextNonce s addr + 1) (cs_nonces s)\<rparr>)"

subsection \<open>Balances and supply as numbers\<close>

definition bal :: "chain_state \<Rightarrow> string \<Rightarrow> nat" where
  "bal s a = unat (acc_balance (loadAccount s a))"

definition total_supply :: "chain_state \<Rightarrow> nat" where
  "total_supply s = bsum (unat \<circ> acc_balance) (cs_accounts s)"

definition accounts_ok :: "chain_state \<Rightarrow> bool" where
  "accounts_ok s \<longleftrightarrow> bucket_ok (cs_accounts s) \<and> total_supply s < 2 ^ 64"

definition same_but_accounts :: "chain_state \<Rightarrow> chain_state \<Rightarrow> bool" where
  "same_but_accounts s s' \<longleftrightarrow> s' = s\<lparr>cs_accounts := cs_accounts s'\<rparr>"

definition addr_ok :: "env \<Rightarrow> string \<Rightarrow> bool" where
  "addr_ok E a \<longleftrightarrow> put_err E BktAccounts (string_bytes a) = None"

lemma bucket_put_Inr [simp]: "bucket_put E b k s' = Inr t \<longleftrightarrow> put_err E b k = None \<and> t = s'"
  by (auto simp: bucket_put_def split: option.splits)

lemma put_accepts_None: "put_accepts E \<Longrightarrow> 0 < length k \<Longrightarrow> length k \<le> 32768 \<Longrightarrow> put_err E b k = None"
  by (simp add: put_accepts_def)

lemma addr_okI: "put_accepts E \<Longrightarrow> isValidAddress a \<Longrightarrow> addr_ok E a"
  unfolding addr_ok_def by (rule put_accepts_None) (simp_all add: isValidAddress_length)

lemma addr_ok_module:
  "put_accepts E \<Longrightarrow> addr_ok E moduleEscrowAddr" "put_accepts E \<Longrightarrow> addr_ok E moduleTreasuryAddr"
  unfolding addr_ok_def
  by (rule put_accepts_None; simp add: moduleEscrowAddr_def moduleTreasuryAddr_def)+

lemma bal_bget0: "bal s a = bget0 (unat \<circ> acc_balance) (cs_accounts s) a"
  by (simp add: bal_def loadAccount_def bget0_def split: option.splits)

lemma bal_le_total_supply: "bal s a \<le> total_supply s"
  by (simp add: bal_bget0 total_supply_def bget0_le_bsum)

lemma loadAccount_upd [simp]:
  "loadAccount (s\<lparr>cs_accounts := bput a v (cs_accounts s)\<rparr>) b = (if b = a then v else loadAccount s b)"
  by (simp add: loadAccount_def)

lemma loadAccount_frame [simp]:
  "loadAccount (s\<lparr>cs_meta := m\<rparr>) = loadAccount s"
  "loadAccount (s\<lparr>cs_services := sv\<rparr>) = loadAccount s"
  "loadAccount (s\<lparr>cs_svc_by_name := sn\<rparr>) = loadAccount s"
  "loadAccount (s\<lparr>cs_requests := rq\<rparr>) = loadAccount s"
  "loadAccount (s\<lparr>cs_nonces := nn\<rparr>) = loadAccount s"
  "loadAccount (s\<lparr>cs_domains := dm\<rparr>) = loadAccount s"
  by (simp_all add: loadAccount_def fun_eq_iff)

lemma bal_frame [simp]:
  "bal (s\<lparr>cs_meta := m\<rparr>) = bal s" "bal (s\<lparr>cs_services := sv\<rparr>) = bal s"
  "bal (s\<lparr>cs_svc_by_name := sn\<rparr>) = bal s" "bal (s\<lparr>cs_requests := rq\<rparr>) = bal s"
  "bal (s\<lparr>cs_nonces := nn\<rparr>) = bal s" "bal (s\<lparr>cs_domains := dm\<rparr>) = bal s"
  by (simp_all add: bal_def fun_eq_iff)

lemma total_supply_frame [simp]:
  "total_supply (s\<lparr>cs_meta := m\<rparr>) = total_supply s" "total_supply (s\<lparr>cs_services := sv\<rparr>) = total_supply s"
  "total_supply (s\<lparr>cs_svc_by_name := sn\<rparr>) = total_supply s" "total_supply (s\<lparr>cs_requests := rq\<rparr>) = total_supply s"
  "total_supply (s\<lparr>cs_nonces := nn\<rparr>) = total_supply s" "total_supply (s\<lparr>cs_domains := dm\<rparr>) = total_supply s"
  by (simp_all add: total_supply_def)

lemma accounts_ok_frame [simp]:
  "accounts_ok (s\<lparr>cs_meta := m\<rparr>) = accounts_ok s" "accounts_ok (s\<lparr>cs_services := sv\<rparr>) = accounts_ok s"
  "accounts_ok (s\<lparr>cs_svc_by_name := sn\<rparr>) = accounts_ok s" "accounts_ok (s\<lparr>cs_requests := rq\<rparr>) = accounts_ok s"
  "accounts_ok (s\<lparr>cs_nonces := nn\<rparr>) = accounts_ok s" "accounts_ok (s\<lparr>cs_domains := dm\<rparr>) = accounts_ok s"
  by (simp_all add: accounts_ok_def)

lemma same_but_accounts_refl [simp]: "same_but_accounts s s"
  by (simp add: same_but_accounts_def)

lemma same_but_accounts_trans:
  "same_but_accounts s t \<Longrightarrow> same_but_accounts t u \<Longrightarrow> same_but_accounts s u"
  by (cases s; cases t; cases u) (simp add: same_but_accounts_def)

lemma same_but_accounts_fields:
  assumes "same_but_accounts s s'"
  shows "cs_meta s' = cs_meta s" and "cs_services s' = cs_services s"
    and "cs_svc_by_name s' = cs_svc_by_name s" and "cs_requests s' = cs_requests s"
    and "cs_nonces s' = cs_nonces s" and "cs_domains s' = cs_domains s"
  using assms by (cases s; cases s'; simp add: same_but_accounts_def)+

subsection \<open>Debit and credit\<close>

lemma debit_Inr:
  assumes ok: "accounts_ok s" and d: "debit E s a n = Inr s'"
  shows "unat n \<le> bal s a \<and> accounts_ok s' \<and> same_but_accounts s s'
    \<and> total_supply s' + unat n = total_supply s \<and> bal s' = (bal s)(a := bal s a - unat n)"
proof (cases "n = 0")
  case True
  then show ?thesis using assms by (simp add: debit_def)
next
  case False
  let ?acc = "loadAccount s a"
  let ?acc' = "?acc\<lparr>acc_balance := acc_balance ?acc - n\<rparr>"
  from d False have le: "n \<le> acc_balance ?acc"
    and s': "s' = s\<lparr>cs_accounts := bput a ?acc' (cs_accounts s)\<rparr>"
    by (auto simp: debit_def Let_def split: if_splits)
  have nle: "unat n \<le> bal s a" using le by (simp add: bal_def word_le_nat_alt)
  have sum: "total_supply s' + bal s a = total_supply s + (bal s a - unat n)"
    using bsum_bput [of "cs_accounts s" "unat \<circ> acc_balance" a ?acc'] ok le
    by (simp add: s' total_supply_def accounts_ok_def unat_sub_le flip: bal_bget0) (simp add: bal_def)
  show ?thesis
    using ok nle sum le
    by (auto simp: s' accounts_ok_def same_but_accounts_def bal_def unat_sub_le fun_eq_iff)
qed

lemma debit_ok:
  assumes "accounts_ok s" and "addr_ok E a" and "unat n \<le> bal s a"
  shows "\<exists>s'. debit E s a n = Inr s'"
  using assms by (auto simp: debit_def Let_def addr_ok_def bal_def word_le_nat_alt word_less_nat_alt bucket_put_def)

lemma credit_Inr:
  assumes ok: "accounts_ok s" and fits: "total_supply s + unat n < 2 ^ 64" and c: "credit E s a n = Inr s'"
  shows "accounts_ok s' \<and> same_but_accounts s s' \<and> total_supply s' = total_supply s + unat n
    \<and> bal s' = (bal s)(a := bal s a + unat n)"
proof (cases "n = 0")
  case True
  then show ?thesis using assms by (simp add: credit_def)
next
  case False
  let ?acc = "loadAccount s a"
  let ?acc' = "?acc\<lparr>acc_balance := acc_balance ?acc + n\<rparr>"
  from c False have s': "s' = s\<lparr>cs_accounts := bput a ?acc' (cs_accounts s)\<rparr>"
    by (auto simp: credit_def Let_def)
  have add: "unat (acc_balance ?acc + n) = bal s a + unat n"
    using fits bal_le_total_supply [of s a] by (simp add: bal_def unat_add_fits)
  have sum: "total_supply s' + bal s a = total_supply s + (bal s a + unat n)"
    using bsum_bput [of "cs_accounts s" "unat \<circ> acc_balance" a ?acc'] ok
    by (simp add: s' total_supply_def accounts_ok_def add flip: bal_bget0)
  show ?thesis
    using ok sum fits add
    by (auto simp: s' accounts_ok_def same_but_accounts_def bal_def fun_eq_iff)
qed

lemma credit_ok: "addr_ok E a \<Longrightarrow> \<exists>s'. credit E s a n = Inr s'"
  by (simp add: credit_def Let_def addr_ok_def bucket_put_def)

subsection \<open>The accounts bucket is a ledger\<close>

interpretation lg: ledger bal total_supply accounts_ok same_but_accounts "addr_ok E" "debit E" "credit E"
  for E
proof
  show "total_supply s < 2 ^ 64" if "accounts_ok s" for s
    using that by (simp add: accounts_ok_def)
  show "same_but_accounts s u" if "same_but_accounts s t" "same_but_accounts t u" for s t u
    using that by (rule same_but_accounts_trans)
qed (auto dest: debit_Inr credit_Inr intro: debit_ok credit_ok)

lemma move_Inr_iff:
  "move w E s src dst n = Inr s' \<longleftrightarrow>
   (\<exists>s1. debit E s src n = Inr s1 \<and> credit E s1 dst n = Inr s')"
  by (simp add: move_def)

lemma move_facts:
  assumes "accounts_ok s" and "move w E s src dst n = Inr s'"
  shows "unat n \<le> bal s src" and "accounts_ok s'" and "same_but_accounts s s'"
    and "total_supply s' = total_supply s"
    and "bal s' a + (if a = src then unat n else 0) = bal s a + (if a = dst then unat n else 0)"
proof -
  obtain s1 where "debit E s src n = Inr s1" and "credit E s1 dst n = Inr s'"
    using assms(2) by (auto simp: move_Inr_iff)
  note m = lg.move_Inr [OF assms(1) this]
  show "unat n \<le> bal s src" and "accounts_ok s'" and "same_but_accounts s s'"
    and "total_supply s' = total_supply s"
    using m by simp_all
  show "bal s' a + (if a = src then unat n else 0) = bal s a + (if a = dst then unat n else 0)"
    using m by blast
qed

lemma move_zero [simp]: "move w E s src dst 0 = Inr s"
  by (simp add: move_def debit_def credit_def)

lemma move_short: "bal s src < unat n \<Longrightarrow> move w E s src dst n = Inl (w ErrInsufficientFunds)"
  by (auto simp: move_def debit_def Let_def bal_def word_less_nat_alt)

end
