(* ===== verification/Tables.thy ===== *)
theory Tables
  imports Ledger
begin

text \<open>
  The three id tables of the state: services (with their unique-name index), requests and
  verification domains (the stores of \<open>chain/internal/state/state.go\<close>), the reads over them and the
  voucher eligibility scan. Their common contract, what a lookup returns after a store and how a
  measure summed over the table changes, is the locale \<open>table\<close>; each table interprets it.

  A stored value is the struct itself: the JSON text that Go writes under the key is read back by the
  same program, so a cursor never meets a value it cannot decode.
\<close>

subsection \<open>The stores\<close>

definition putService :: "env \<Rightarrow> chain_state \<Rightarrow> service \<Rightarrow> chain_error + chain_state" where
  "putService E s svc =
     bind_r (bucket_put E BktServices (uint64Key (svc_id svc))
               (s\<lparr>cs_services := bput (svc_id svc) svc (cs_services s)\<rparr>)) (\<lambda>s.
     bucket_put E BktSvcByName (string_bytes (svc_name svc))
       (s\<lparr>cs_svc_by_name := bput (svc_name svc) (svc_id svc) (cs_svc_by_name s)\<rparr>))"

definition getService :: "chain_state \<Rightarrow> u64 \<Rightarrow> chain_error + service" where
  "getService s k = (case map_of (cs_services s) k of None \<Rightarrow> Inl ErrServiceNotFound | Some v \<Rightarrow> Inr v)"

definition putRequest :: "env \<Rightarrow> chain_state \<Rightarrow> inference_request \<Rightarrow> chain_error + chain_state" where
  "putRequest E s r =
     bucket_put E BktRequests (uint64Key (req_id r))
       (s\<lparr>cs_requests := bput (req_id r) r (cs_requests s)\<rparr>)"

definition getRequest :: "chain_state \<Rightarrow> u64 \<Rightarrow> chain_error + inference_request" where
  "getRequest s k = (case map_of (cs_requests s) k of None \<Rightarrow> Inl ErrRequestNotFound | Some v \<Rightarrow> Inr v)"

definition putDomain :: "env \<Rightarrow> chain_state \<Rightarrow> verification_domain \<Rightarrow> chain_error + chain_state" where
  "putDomain E s d =
     bucket_put E BktDomains (uint64Key (dom_id d))
       (s\<lparr>cs_domains := bput (dom_id d) d (cs_domains s)\<rparr>)"

definition getDomain :: "chain_state \<Rightarrow> u64 \<Rightarrow> chain_error + verification_domain" where
  "getDomain s k = (case map_of (cs_domains s) k of None \<Rightarrow> Inl ErrDomainNotFound | Some v \<Rightarrow> Inr v)"

fun eligibleLoop :: "(u64 \<times> service) list \<Rightarrow> string \<Rightarrow> u64 \<Rightarrow> bool" where
  "eligibleLoop [] owner domainID = False"
| "eligibleLoop (kv # cur) owner domainID =
     (let svc = snd kv in
      if svc_owner svc = owner \<and> svc_domain_id svc = domainID \<and> svc_active svc then True
      else eligibleLoop cur owner domainID)"

definition voucherEligible :: "chain_state \<Rightarrow> string \<Rightarrow> u64 \<Rightarrow> bool" where
  "voucherEligible s owner domainID =
     (if domainID = 0 then True else eligibleLoop (cs_services s) owner domainID)"

subsection \<open>Public reads\<close>

definition listDomains :: "chain_state \<Rightarrow> verification_domain list" where
  "listDomains s = map snd (cs_domains s)"

definition listServices :: "chain_state \<Rightarrow> service list" where
  "listServices s = map snd (cs_services s)"

fun listRequestsLoop ::
  "(u64 \<times> inference_request) list \<Rightarrow> string \<Rightarrow> u64 \<Rightarrow> inference_request list" where
  "listRequestsLoop [] filterStatus filterService = []"
| "listRequestsLoop (kv # cur) filterStatus filterService =
     (let r = snd kv in
      if filterStatus \<noteq> '''' \<and> status_text (req_status r) \<noteq> filterStatus then
        listRequestsLoop cur filterStatus filterService
      else if filterService \<noteq> 0 \<and> req_service_id r \<noteq> filterService then
        listRequestsLoop cur filterStatus filterService
      else r # listRequestsLoop cur filterStatus filterService)"

definition listRequests :: "chain_state \<Rightarrow> string \<Rightarrow> u64 \<Rightarrow> inference_request list" where
  "listRequests s filterStatus filterService = listRequestsLoop (cs_requests s) filterStatus filterService"

subsection \<open>The contract of a table\<close>

locale table =
  fixes get :: "'s \<Rightarrow> 'k::linorder \<Rightarrow> 'e + 'v"
    and put :: "'s \<Rightarrow> 'v \<Rightarrow> 'e + 's"
    and key :: "'v \<Rightarrow> 'k"
    and entries :: "'s \<Rightarrow> ('k, 'v) bucket"
  assumes get_iff: "get s k = Inr v \<longleftrightarrow> map_of (entries s) k = Some v"
    and put_entries: "put s v = Inr s' \<Longrightarrow> entries s' = bput (key v) v (entries s)"
begin

lemma put_measure:
  "put s v = Inr s' \<Longrightarrow> bucket_ok (entries s) \<Longrightarrow> get s (key v) = Inr w \<Longrightarrow>
   bsum f (entries s') + f w = bsum f (entries s) + f v"
  by (simp add: get_iff put_entries bsum_bput_upd)

lemma get_measure: "get s k = Inr v \<Longrightarrow> f v \<le> bsum f (entries s)"
  by (auto simp: get_iff intro: bsum_ge)

lemma get_listed: "bucket_ok (entries s) \<Longrightarrow> get s k = Inr v \<longleftrightarrow> (k, v) \<in> set (entries s)"
  by (simp add: get_iff map_of_bucket)

end

lemma getService_iff: "getService s k = Inr v \<longleftrightarrow> map_of (cs_services s) k = Some v"
  by (simp add: getService_def split: option.splits)

lemma getRequest_iff: "getRequest s k = Inr v \<longleftrightarrow> map_of (cs_requests s) k = Some v"
  by (simp add: getRequest_def split: option.splits)

lemma getDomain_iff: "getDomain s k = Inr v \<longleftrightarrow> map_of (cs_domains s) k = Some v"
  by (simp add: getDomain_def split: option.splits)

lemma putService_Inr:
  "putService E s svc = Inr s' \<longleftrightarrow>
   put_err E BktServices (uint64Key (svc_id svc)) = None \<and>
   put_err E BktSvcByName (string_bytes (svc_name svc)) = None \<and>
   s' = s\<lparr>cs_services := bput (svc_id svc) svc (cs_services s),
          cs_svc_by_name := bput (svc_name svc) (svc_id svc) (cs_svc_by_name s)\<rparr>"
  by (auto simp: putService_def)

lemma putRequest_Inr:
  "putRequest E s r = Inr s' \<longleftrightarrow>
   put_err E BktRequests (uint64Key (req_id r)) = None \<and>
   s' = s\<lparr>cs_requests := bput (req_id r) r (cs_requests s)\<rparr>"
  by (auto simp: putRequest_def)

lemma putDomain_Inr:
  "putDomain E s d = Inr s' \<longleftrightarrow>
   put_err E BktDomains (uint64Key (dom_id d)) = None \<and>
   s' = s\<lparr>cs_domains := bput (dom_id d) d (cs_domains s)\<rparr>"
  by (auto simp: putDomain_def)

interpretation svcs: table getService "putService E" svc_id cs_services for E
  by unfold_locales (auto simp: getService_iff putService_Inr)

interpretation reqs: table getRequest "putRequest E" req_id cs_requests for E
  by unfold_locales (auto simp: getRequest_iff putRequest_Inr)

interpretation doms: table getDomain "putDomain E" dom_id cs_domains for E
  by unfold_locales (auto simp: getDomain_iff putDomain_Inr)

lemma putRequest_ok: "put_accepts E \<Longrightarrow> \<exists>s'. putRequest E s r = Inr s'"
  by (simp add: putRequest_def bucket_put_def put_accepts_None)

lemma putDomain_ok: "put_accepts E \<Longrightarrow> \<exists>s'. putDomain E s d = Inr s'"
  by (simp add: putDomain_def bucket_put_def put_accepts_None)

subsection \<open>Reads\<close>

lemma eligibleLoop_iff:
  "eligibleLoop cur a d \<longleftrightarrow> (\<exists>k svc. (k, svc) \<in> set cur \<and> svc_owner svc = a \<and> svc_domain_id svc = d \<and> svc_active svc)"
proof (induction cur)
  case (Cons kv cur)
  show ?case
    by (cases kv) (simp only: eligibleLoop.simps Let_def Cons snd_conv, auto)
qed simp

lemma voucherEligible_iff:
  assumes "bucket_ok (cs_services s)"
  shows "voucherEligible s a d \<longleftrightarrow>
    d = 0 \<or> (\<exists>k svc. getService s k = Inr svc \<and> svc_owner svc = a \<and> svc_domain_id svc = d \<and> svc_active svc)"
  using assms by (auto simp: voucherEligible_def eligibleLoop_iff svcs.get_listed)

lemma listRequestsLoop_filter:
  "listRequestsLoop cur fs fv =
   filter (\<lambda>r. (fs = '''' \<or> status_text (req_status r) = fs) \<and> (fv = 0 \<or> req_service_id r = fv)) (map snd cur)"
  by (induction cur) (auto simp: Let_def)

lemma listRequests_mem:
  assumes "bucket_ok (cs_requests s)"
  shows "r \<in> set (listRequests s fs fv) \<longleftrightarrow>
    (\<exists>k. getRequest s k = Inr r) \<and> (fs = '''' \<or> status_text (req_status r) = fs)
    \<and> (fv = 0 \<or> req_service_id r = fv)"
proof -
  have "r \<in> snd ` set (cs_requests s) \<longleftrightarrow> (\<exists>k. getRequest s k = Inr r)"
    using assms by (force simp: reqs.get_listed)
  then show ?thesis
    by (auto simp: listRequests_def listRequestsLoop_filter)
qed

end
