(* ===== verification/Invariant.thy ===== *)
theory Invariant
  imports Tables
begin

text \<open>
  What holds of the state between transactions and blocks. \<open>tables_ok E D\<close> is the shape of the tables: ids are
  keys below their counters, the name index is the inverse of the services' names, every party that
  can be paid is a valid address, a request has the parts its status promises, and no active
  service and no open request is bound to an inactive verification domain, the domains in \<open>D\<close> apart
  (\<open>D\<close> is empty between transactions; the cascade of a domain's deactivation restores it).
  \<open>chain_inv E D\<close> adds the accounts: balances add up to less than \<open>2 ^ 64\<close>, and the module escrow holds at
  least what it owes (\<open>solvent\<close>), the funds locked in open requests and in service bonds.
\<close>

subsection \<open>What the escrow owes\<close>

definition opt_amount :: "coin option \<Rightarrow> u64" where
  "opt_amount c = (case c of None \<Rightarrow> 0 | Some b \<Rightarrow> amount b)"

definition voucher_locked :: "voucher list \<Rightarrow> nat" where
  "voucher_locked vs = sum_list (map (unat \<circ> amount \<circ> v_bond) vs)"

definition challenge_locked :: "challenge list \<Rightarrow> nat" where
  "challenge_locked cs = sum_list (map (unat \<circ> amount \<circ> ch_bond) cs)"

definition req_stakes :: "inference_request \<Rightarrow> nat" where
  "req_stakes r =
     unat (amount (req_escrow r)) + unat (opt_amount (req_provider_bond r))
     + challenge_locked (req_challenges r) + voucher_locked (req_vouchers r)"

definition req_locked :: "inference_request \<Rightarrow> nat" where
  "req_locked r = (if terminal (req_status r) then 0 else req_stakes r)"

definition svc_locked :: "service \<Rightarrow> nat" where
  "svc_locked v = unat (amount (svc_registration_bond v))"

definition obligations :: "chain_state \<Rightarrow> nat" where
  "obligations s = bsum req_locked (cs_requests s) + bsum svc_locked (cs_services s)"

definition solvent :: "chain_state \<Rightarrow> bool" where
  "solvent s \<longleftrightarrow> obligations s \<le> bal s moduleEscrowAddr"

subsection \<open>Well-formed tables\<close>

definition req_shape :: "inference_request \<Rightarrow> bool" where
  "req_shape r \<longleftrightarrow>
     isValidAddress (req_requester r) \<and>
     list_all (isValidAddress \<circ> ch_challenger) (req_challenges r) \<and>
     list_all (isValidAddress \<circ> v_voucher) (req_vouchers r) \<and>
     distinct (map v_voucher (req_vouchers r)) \<and>
     length (req_vouchers r) < 2 ^ 63 \<and>
     (case req_status r of
        StatusPending \<Rightarrow> req_result r = None \<and> req_provider_bond r = None \<and> req_challenges r = [] \<and> req_vouchers r = []
      | StatusSubmitted \<Rightarrow> req_result r \<noteq> None \<and> req_challenges r = [] \<and> req_vouchers r = []
      | StatusChallenged \<Rightarrow> req_result r \<noteq> None \<and> length (req_challenges r) = 1
      | StatusFinalized \<Rightarrow> req_result r \<noteq> None \<and> req_paid r = Some (req_escrow r)
      | StatusSlashed \<Rightarrow> req_result r \<noteq> None
      | StatusRefunded \<Rightarrow> req_paid r = None) \<and>
     (req_status r \<noteq> StatusFinalized \<longrightarrow> req_paid r = None)"

definition domain_live :: "u64 set \<Rightarrow> chain_state \<Rightarrow> u64 \<Rightarrow> bool" where
  "domain_live D s d \<longleftrightarrow> d = 0 \<or> (\<exists>dom. getDomain s d = Inr dom \<and> (dom_active dom \<or> d \<in> D))"

definition svc_ok :: "env \<Rightarrow> u64 set \<Rightarrow> chain_state \<Rightarrow> u64 \<Rightarrow> service \<Rightarrow> bool" where
  "svc_ok E D s k v \<longleftrightarrow>
     svc_id v = k \<and> k < getMetaUint64 s keyNextSvcID \<and> isValidAddress (svc_owner v) \<and>
     put_err E BktSvcByName (string_bytes (svc_name v)) = None \<and>
     map_of (cs_svc_by_name s) (svc_name v) = Some k \<and>
     (svc_active v \<longrightarrow> domain_live D s (svc_domain_id v)) \<and>
     (\<not> svc_active v \<longrightarrow> svc_registration_bond v = zero_coin)"

definition req_ok :: "u64 set \<Rightarrow> chain_state \<Rightarrow> u64 \<Rightarrow> inference_request \<Rightarrow> bool" where
  "req_ok D s k r \<longleftrightarrow>
     req_id r = k \<and> k < getMetaUint64 s keyNextReqID \<and> req_shape r \<and>
     (\<exists>v. getService s (req_service_id r) = Inr v \<and>
          (terminal (req_status r) \<or> domain_live D s (svc_domain_id v)))"

definition dom_ok :: "chain_state \<Rightarrow> u64 \<Rightarrow> verification_domain \<Rightarrow> bool" where
  "dom_ok s k d \<longleftrightarrow>
     dom_id d = k \<and> k \<noteq> 0 \<and> k < getMetaUint64 s keyNextDomainID \<and> 0 <=s dom_voucher_margin d"

definition names_ok :: "chain_state \<Rightarrow> bool" where
  "names_ok s \<longleftrightarrow>
     (\<forall>n k. map_of (cs_svc_by_name s) n = Some k \<longrightarrow> (\<exists>v. getService s k = Inr v \<and> svc_name v = n))"

definition counters_ok :: "chain_state \<Rightarrow> bool" where
  "counters_ok s \<longleftrightarrow>
     0 < getMetaUint64 s keyNextSvcID \<and> 0 < getMetaUint64 s keyNextReqID \<and>
     0 < getMetaUint64 s keyNextDomainID \<and> succeeds (paramsLocked s)"

definition tables_ok :: "env \<Rightarrow> u64 set \<Rightarrow> chain_state \<Rightarrow> bool" where
  "tables_ok E D s \<longleftrightarrow>
     bucket_ok (cs_services s) \<and> bucket_ok (cs_requests s) \<and> bucket_ok (cs_domains s) \<and>
     counters_ok s \<and> names_ok s \<and>
     (\<forall>k v. getService s k = Inr v \<longrightarrow> svc_ok E D s k v) \<and>
     (\<forall>k r. getRequest s k = Inr r \<longrightarrow> req_ok D s k r) \<and>
     (\<forall>k d. getDomain s k = Inr d \<longrightarrow> dom_ok s k d)"

definition chain_inv :: "env \<Rightarrow> u64 set \<Rightarrow> chain_state \<Rightarrow> bool" where
  "chain_inv E D s \<longleftrightarrow> tables_ok E D s \<and> accounts_ok s \<and> solvent s"

subsection \<open>Reads that an update does not touch\<close>

lemma get_frames [simp]:
  "getService (s\<lparr>cs_accounts := a\<rparr>) = getService s" "getService (s\<lparr>cs_nonces := n\<rparr>) = getService s"
  "getService (s\<lparr>cs_meta := m\<rparr>) = getService s" "getService (s\<lparr>cs_requests := rq\<rparr>) = getService s"
  "getService (s\<lparr>cs_domains := dm\<rparr>) = getService s" "getService (s\<lparr>cs_svc_by_name := sn\<rparr>) = getService s"
  "getRequest (s\<lparr>cs_accounts := a\<rparr>) = getRequest s" "getRequest (s\<lparr>cs_nonces := n\<rparr>) = getRequest s"
  "getRequest (s\<lparr>cs_meta := m\<rparr>) = getRequest s" "getRequest (s\<lparr>cs_services := sv\<rparr>) = getRequest s"
  "getRequest (s\<lparr>cs_domains := dm\<rparr>) = getRequest s" "getRequest (s\<lparr>cs_svc_by_name := sn\<rparr>) = getRequest s"
  "getDomain (s\<lparr>cs_accounts := a\<rparr>) = getDomain s" "getDomain (s\<lparr>cs_nonces := n\<rparr>) = getDomain s"
  "getDomain (s\<lparr>cs_meta := m\<rparr>) = getDomain s" "getDomain (s\<lparr>cs_services := sv\<rparr>) = getDomain s"
  "getDomain (s\<lparr>cs_requests := rq\<rparr>) = getDomain s" "getDomain (s\<lparr>cs_svc_by_name := sn\<rparr>) = getDomain s"
  by (simp_all add: getService_def getRequest_def getDomain_def fun_eq_iff)

lemma meta_frames [simp]:
  "getMetaUint64 (s\<lparr>cs_accounts := a\<rparr>) = getMetaUint64 s" "getMetaUint64 (s\<lparr>cs_nonces := n\<rparr>) = getMetaUint64 s"
  "getMetaUint64 (s\<lparr>cs_services := sv\<rparr>) = getMetaUint64 s" "getMetaUint64 (s\<lparr>cs_requests := rq\<rparr>) = getMetaUint64 s"
  "getMetaUint64 (s\<lparr>cs_domains := dm\<rparr>) = getMetaUint64 s" "getMetaUint64 (s\<lparr>cs_svc_by_name := sn\<rparr>) = getMetaUint64 s"
  "paramsLocked (s\<lparr>cs_accounts := a\<rparr>) = paramsLocked s" "paramsLocked (s\<lparr>cs_nonces := n\<rparr>) = paramsLocked s"
  "paramsLocked (s\<lparr>cs_services := sv\<rparr>) = paramsLocked s" "paramsLocked (s\<lparr>cs_requests := rq\<rparr>) = paramsLocked s"
  "paramsLocked (s\<lparr>cs_domains := dm\<rparr>) = paramsLocked s" "paramsLocked (s\<lparr>cs_svc_by_name := sn\<rparr>) = paramsLocked s"
  by (simp_all add: getMetaUint64_def paramsLocked_def fun_eq_iff)

lemma get_upds [simp]:
  "getService (s\<lparr>cs_services := bput k v sv\<rparr>) j =
     (if j = k then Inr v else getService (s\<lparr>cs_services := sv\<rparr>) j)"
  "getRequest (s\<lparr>cs_requests := bput k r rq\<rparr>) j =
     (if j = k then Inr r else getRequest (s\<lparr>cs_requests := rq\<rparr>) j)"
  "getDomain (s\<lparr>cs_domains := bput k d dm\<rparr>) j =
     (if j = k then Inr d else getDomain (s\<lparr>cs_domains := dm\<rparr>) j)"
  by (simp_all add: getService_def getRequest_def getDomain_def)

lemma meta_upds [simp]:
  "getMetaUint64 (s\<lparr>cs_meta := bput k v m\<rparr>) j =
     (if j = k then (case v of MetaU64 n \<Rightarrow> n | _ \<Rightarrow> 0) else getMetaUint64 (s\<lparr>cs_meta := m\<rparr>) j)"
  "paramsLocked (s\<lparr>cs_meta := bput k (MetaParams p) m\<rparr>) =
     (if k = keyParams then Inr p else paramsLocked (s\<lparr>cs_meta := m\<rparr>))"
  "k \<noteq> keyParams \<Longrightarrow> paramsLocked (s\<lparr>cs_meta := bput k v m\<rparr>) = paramsLocked (s\<lparr>cs_meta := m\<rparr>)"
  by (simp_all add: getMetaUint64_def paramsLocked_def)

lemma key_neqs [simp]:
  "keyNextSvcID \<noteq> keyParams" "keyNextReqID \<noteq> keyParams" "keyNextDomainID \<noteq> keyParams"
  "keyHeight \<noteq> keyParams" "keyAuthority \<noteq> keyParams" "keyNextSvcID \<noteq> keyNextReqID"
  "keyNextSvcID \<noteq> keyNextDomainID" "keyNextReqID \<noteq> keyNextDomainID" "keyNextReqID \<noteq> keyNextSvcID"
  "keyNextDomainID \<noteq> keyNextSvcID" "keyNextDomainID \<noteq> keyNextReqID" "keyNextSvcID \<noteq> keyHeight"
  "keyNextReqID \<noteq> keyHeight" "keyNextDomainID \<noteq> keyHeight" "keyNextSvcID \<noteq> keyAuthority"
  "keyNextReqID \<noteq> keyAuthority" "keyNextDomainID \<noteq> keyAuthority" "keyHeight \<noteq> keyAuthority"
  "keyHeight \<noteq> keyNextSvcID" "keyHeight \<noteq> keyNextReqID" "keyHeight \<noteq> keyNextDomainID"
  by (simp_all add: meta_keys)

lemma live_frames [simp]:
  "domain_live D (s\<lparr>cs_accounts := a\<rparr>) = domain_live D s" "domain_live D (s\<lparr>cs_nonces := n\<rparr>) = domain_live D s"
  "domain_live D (s\<lparr>cs_meta := m\<rparr>) = domain_live D s" "domain_live D (s\<lparr>cs_services := sv\<rparr>) = domain_live D s"
  "domain_live D (s\<lparr>cs_requests := rq\<rparr>) = domain_live D s" "domain_live D (s\<lparr>cs_svc_by_name := sn\<rparr>) = domain_live D s"
  by (simp_all add: domain_live_def fun_eq_iff)

lemmas wf_defs = tables_ok_def svc_ok_def req_ok_def dom_ok_def names_ok_def counters_ok_def

lemma wf_accounts [simp]: "tables_ok E D (s\<lparr>cs_accounts := a\<rparr>) = tables_ok E D s"
  by (simp add: wf_defs)

lemma wf_nonces [simp]: "tables_ok E D (s\<lparr>cs_nonces := n\<rparr>) = tables_ok E D s"
  by (simp add: wf_defs)

lemma obligations_frames [simp]:
  "obligations (s\<lparr>cs_accounts := a\<rparr>) = obligations s" "obligations (s\<lparr>cs_nonces := n\<rparr>) = obligations s"
  "obligations (s\<lparr>cs_meta := m\<rparr>) = obligations s" "obligations (s\<lparr>cs_domains := dm\<rparr>) = obligations s"
  "obligations (s\<lparr>cs_svc_by_name := sn\<rparr>) = obligations s"
  by (simp_all add: obligations_def)

lemma wf_same_but_accounts: "same_but_accounts s s' \<Longrightarrow> tables_ok E D s' = tables_ok E D s"
  by (metis same_but_accounts_def wf_accounts)

lemma obligations_same_but_accounts: "same_but_accounts s s' \<Longrightarrow> obligations s' = obligations s"
  by (metis same_but_accounts_def obligations_frames(1))

lemma gets_same_but_accounts:
  assumes "same_but_accounts s s'"
  shows "getService s' = getService s" "getRequest s' = getRequest s" "getDomain s' = getDomain s"
    "getMetaUint64 s' = getMetaUint64 s" "paramsLocked s' = paramsLocked s"
  using same_but_accounts_fields [OF assms]
  by (simp_all add: getService_def getRequest_def getDomain_def getMetaUint64_def paramsLocked_def fun_eq_iff)

subsection \<open>Stores that keep the shape\<close>

lemma wf_service: "tables_ok E D s \<Longrightarrow> getService s k = Inr v \<Longrightarrow> svc_ok E D s k v"
  by (simp add: tables_ok_def)

lemma wf_request: "tables_ok E D s \<Longrightarrow> getRequest s k = Inr r \<Longrightarrow> req_ok D s k r"
  by (simp add: tables_ok_def)

lemma wf_domain: "tables_ok E D s \<Longrightarrow> getDomain s k = Inr d \<Longrightarrow> dom_ok s k d"
  by (simp add: tables_ok_def)

lemma wf_name: "tables_ok E D s \<Longrightarrow> map_of (cs_svc_by_name s) n = Some k \<Longrightarrow> \<exists>v. getService s k = Inr v \<and> svc_name v = n"
  by (simp add: tables_ok_def names_ok_def)

lemma wf_put_request:
  assumes "tables_ok E D s" and "req_ok D s (req_id r) r"
  shows "tables_ok E D (s\<lparr>cs_requests := bput (req_id r) r (cs_requests s)\<rparr>)"
  using assms by (simp add: wf_defs)

lemma wf_put_domain_new:
  assumes "tables_ok E D s" and "dom_id d = getMetaUint64 s keyNextDomainID"
    and "dom_id d < dom_id d + 1" and "0 <=s dom_voucher_margin d"
  shows "tables_ok E D (s\<lparr>cs_meta := bput keyNextDomainID (MetaU64 (dom_id d + 1)) (cs_meta s),
                   cs_domains := bput (dom_id d) d (cs_domains s)\<rparr>)"
proof -
  have new: "getDomain s (dom_id d) \<noteq> Inr d'" for d'
    using assms(1,2) by (auto simp: tables_ok_def dom_ok_def)
  let ?t = "s\<lparr>cs_meta := bput keyNextDomainID (MetaU64 (dom_id d + 1)) (cs_meta s),
              cs_domains := bput (dom_id d) d (cs_domains s)\<rparr>"
  have get: "getDomain ?t k = (if k = dom_id d then Inr d else getDomain s k)" for k
    by simp
  have "domain_live D s j \<Longrightarrow> domain_live D ?t j" for j
    using new by (auto simp: domain_live_def)
  then have "svc_ok E D s k v \<Longrightarrow> svc_ok E D ?t k v" and "req_ok D s k r \<Longrightarrow> req_ok D ?t k r" for k v r
    by (fastforce simp: svc_ok_def req_ok_def)+
  moreover have old: "dom_ok ?t k d'" if "getDomain s k = Inr d'" for k d'
  proof -
    have "k < dom_id d"
      using assms(2) wf_domain [OF assms(1) that] by (simp add: dom_ok_def)
    then have "k < dom_id d + 1" using assms(3) by (rule order.strict_trans)
    then show ?thesis
      using wf_domain [OF assms(1) that] by (simp add: dom_ok_def)
  qed
  moreover have pos: "0 < dom_id d"
    using assms(1,2) by (simp add: tables_ok_def counters_ok_def)
  then have "dom_ok ?t (dom_id d) d"
    using assms(3,4) by (auto simp: dom_ok_def)
  moreover have "counters_ok ?t"
    using assms(1,3) pos by (auto simp: tables_ok_def counters_ok_def intro: order.strict_trans)
  moreover have "names_ok ?t"
    using assms(1) by (simp add: tables_ok_def names_ok_def)
  ultimately show ?thesis
    using assms(1) unfolding tables_ok_def get by auto
qed

lemma wf_meta_other:
  assumes "tables_ok E D s" and "k \<notin> {keyParams, keyNextSvcID, keyNextReqID, keyNextDomainID}"
  shows "tables_ok E D (s\<lparr>cs_meta := bput k v (cs_meta s)\<rparr>)"
  using assms by (auto simp: wf_defs)

lemma wf_put_request_new:
  assumes "tables_ok E D s" and "req_id r = getMetaUint64 s keyNextReqID" and "req_id r < req_id r + 1"
    and "req_shape r" and "getService s (req_service_id r) = Inr v" and "domain_live D s (svc_domain_id v)"
  shows "tables_ok E D (s\<lparr>cs_meta := bput keyNextReqID (MetaU64 (req_id r + 1)) (cs_meta s),
                   cs_requests := bput (req_id r) r (cs_requests s)\<rparr>)"
proof -
  have "k < req_id r + 1" if "getRequest s k = Inr r'" for k r'
  proof -
    have "k < req_id r"
      using assms(1,2) that by (simp add: tables_ok_def req_ok_def)
    then show ?thesis using assms(3) by (rule order.strict_trans)
  qed
  then show ?thesis
    using assms by (auto simp: wf_defs)
qed

lemma wf_put_service_new:
  assumes "tables_ok E D s" and "svc_id v = getMetaUint64 s keyNextSvcID" and "svc_id v < svc_id v + 1"
    and "isValidAddress (svc_owner v)" and "put_err E BktSvcByName (string_bytes (svc_name v)) = None"
    and "map_of (cs_svc_by_name s) (svc_name v) = None"
    and "svc_active v" and "domain_live D s (svc_domain_id v)"
  shows "tables_ok E D (s\<lparr>cs_meta := bput keyNextSvcID (MetaU64 (svc_id v + 1)) (cs_meta s),
                   cs_services := bput (svc_id v) v (cs_services s),
                   cs_svc_by_name := bput (svc_name v) (svc_id v) (cs_svc_by_name s)\<rparr>)"
proof -
  have old: "k < svc_id v" and nm: "svc_name v' \<noteq> svc_name v"
    if "getService s k = Inr v'" for k v'
    using assms(2,6) wf_service [OF assms(1) that] by (auto simp: svc_ok_def)
  have lt: "k < svc_id v + 1" and ne: "k \<noteq> svc_id v" if "getService s k = Inr v'" for k v'
    using old [OF that] assms(3) by (auto intro: order.strict_trans)
  let ?t = "s\<lparr>cs_meta := bput keyNextSvcID (MetaU64 (svc_id v + 1)) (cs_meta s),
              cs_services := bput (svc_id v) v (cs_services s),
              cs_svc_by_name := bput (svc_name v) (svc_id v) (cs_svc_by_name s)\<rparr>"
  have get: "getService ?t k = (if k = svc_id v then Inr v else getService s k)" for k
    by simp
  have "svc_ok E D ?t (svc_id v) v"
    using assms(3-5,7,8) by (simp add: svc_ok_def)
  moreover have "svc_ok E D ?t k v'" if "getService s k = Inr v'" for k v'
    using wf_service [OF assms(1) that] lt [OF that] nm [OF that] by (simp add: svc_ok_def)
  moreover have "req_ok D ?t k r" if "getRequest s k = Inr r" for k r
    using wf_request [OF assms(1) that] ne by (auto simp: req_ok_def)
  moreover have "names_ok ?t"
    using wf_name [OF assms(1)] ne by (fastforce simp: names_ok_def)
  moreover have "0 < svc_id v + 1"
    using assms(3) by (rule le_less_trans [OF word_zero_le])
  then have "counters_ok ?t" and "dom_ok ?t = dom_ok s"
    using assms(1) by (auto simp: tables_ok_def counters_ok_def dom_ok_def fun_eq_iff)
  ultimately show ?thesis
    using assms(1) unfolding tables_ok_def get by auto
qed

lemma wf_put_service_upd:
  assumes "tables_ok E D s" and "getService s (svc_id v) = Inr w"
    and "svc_name v = svc_name w" and "svc_owner v = svc_owner w" and "svc_domain_id v = svc_domain_id w"
    and "if svc_active v then svc_active w else svc_registration_bond v = zero_coin"
  shows "tables_ok E D (s\<lparr>cs_services := bput (svc_id v) v (cs_services s),
                   cs_svc_by_name := bput (svc_name v) (svc_id v) (cs_svc_by_name s)\<rparr>)"
proof -
  have w: "svc_ok E D s (svc_id v) w"
    using assms(1,2) by (simp add: tables_ok_def)
  let ?t = "s\<lparr>cs_services := bput (svc_id v) v (cs_services s),
              cs_svc_by_name := bput (svc_name v) (svc_id v) (cs_svc_by_name s)\<rparr>"
  have get: "getService ?t k = (if k = svc_id v then Inr v else getService s k)" for k
    by simp
  have v: "svc_ok E D ?t (svc_id v) v"
    using w assms(3-6) by (auto simp: svc_ok_def)
  have old: "svc_ok E D ?t k v'" if "getService s k = Inr v'" and "k \<noteq> svc_id v" for k v'
    using wf_service [OF assms(1) that(1)] w that(2) assms(3) by (auto simp: svc_ok_def)
  have "req_ok D ?t k r" if "getRequest s k = Inr r" for k r
    using wf_request [OF assms(1) that] assms(2,5) by (auto simp: req_ok_def)
  moreover have "names_ok ?t"
    using wf_name [OF assms(1)] assms(2,3) by (fastforce simp: names_ok_def)
  moreover have "counters_ok ?t" and "dom_ok ?t = dom_ok s"
    using assms(1) by (simp_all add: tables_ok_def counters_ok_def dom_ok_def fun_eq_iff)
  ultimately show ?thesis
    using assms(1) v old unfolding tables_ok_def get by auto
qed

subsection \<open>Consequences\<close>

lemma wf_buckets: "tables_ok E D s \<Longrightarrow> bucket_ok (cs_services s)" "tables_ok E D s \<Longrightarrow> bucket_ok (cs_requests s)"
  "tables_ok E D s \<Longrightarrow> bucket_ok (cs_domains s)"
  by (simp_all add: tables_ok_def)

lemma wf_request_service:
  assumes "tables_ok E D s" and "getRequest s k = Inr r"
  obtains v where "getService s (req_service_id r) = Inr v" and "isValidAddress (svc_owner v)"
  using wf_request [OF assms] wf_service [OF assms(1)] by (auto simp: req_ok_def svc_ok_def)

lemma wf_params:
  assumes "tables_ok E D s" obtains p where "paramsLocked s = Inr p"
  using assms by (auto simp: tables_ok_def counters_ok_def succeeds_iff)

lemma inv_wf: "chain_inv E D s \<Longrightarrow> tables_ok E D s"
  and inv_accounts: "chain_inv E D s \<Longrightarrow> accounts_ok s"
  and inv_solvent: "chain_inv E D s \<Longrightarrow> obligations s \<le> bal s moduleEscrowAddr"
  by (simp_all add: chain_inv_def solvent_def)

lemma req_locked_le: "getRequest s k = Inr r \<Longrightarrow> req_locked r \<le> obligations s"
  using reqs.get_measure [of s k r req_locked] by (simp add: obligations_def)

lemma svc_locked_le: "getService s k = Inr v \<Longrightarrow> svc_locked v \<le> obligations s"
  using svcs.get_measure [of s k v svc_locked] by (simp add: obligations_def)

lemma stored_sublist:
  assumes wf: "tables_ok E D s"
  shows "distinct (map req_id (filter P (map snd (cs_requests s))))"
    and "r \<in> set (filter P (map snd (cs_requests s))) \<longleftrightarrow> getRequest s (req_id r) = Inr r \<and> P r"
proof -
  note b = wf_buckets(2) [OF wf]
  have id: "req_id r = k" if "(k, r) \<in> set (cs_requests s)" for k r
    using wf_request [OF wf] that reqs.get_listed [OF b] by (simp add: req_ok_def)
  then have eq: "map req_id (map snd (cs_requests s)) = map fst (cs_requests s)"
    by (auto simp: prod_eq_iff)
  show "distinct (map req_id (filter P (map snd (cs_requests s))))"
    by (rule distinct_map_filter) (simp only: eq bucket_ok_distinct [OF b])
  have "r \<in> set (map snd (cs_requests s)) \<longleftrightarrow> getRequest s (req_id r) = Inr r"
  proof
    assume "r \<in> set (map snd (cs_requests s))"
    then obtain k where kr: "(k, r) \<in> set (cs_requests s)" by auto
    with id [OF kr] show "getRequest s (req_id r) = Inr r"
      by (simp add: reqs.get_listed [OF b])
  next
    assume "getRequest s (req_id r) = Inr r"
    then have "(req_id r, r) \<in> set (cs_requests s)"
      by (simp add: reqs.get_listed [OF b])
    then show "r \<in> set (map snd (cs_requests s))" by force
  qed
  then show "r \<in> set (filter P (map snd (cs_requests s))) \<longleftrightarrow> getRequest s (req_id r) = Inr r \<and> P r"
    by (simp only: set_filter mem_Collect_eq)
qed

lemma listRequests_sorted:
  assumes wf: "tables_ok E D s"
  shows "sorted_wrt (<) (map req_id (listRequests s fs fv))"
proof -
  note b = wf_buckets(2) [OF wf]
  have "req_id r = k" if "(k, r) \<in> set (cs_requests s)" for k r
    using wf_request [OF wf] that reqs.get_listed [OF b] by (simp add: req_ok_def)
  then have "map req_id (map snd (cs_requests s)) = map fst (cs_requests s)"
    by (auto simp: prod_eq_iff)
  moreover have "sorted_wrt (<) (map fst (cs_requests s))"
    using b by (simp add: bucket_ok_def)
  ultimately have "sorted_wrt (\<lambda>q r. req_id q < req_id r) (map snd (cs_requests s))"
    by (simp only: sorted_wrt_map [symmetric])
  then show ?thesis
    by (simp add: listRequests_def listRequestsLoop_filter sorted_wrt_map sorted_wrt_filter)
qed

end
