(* ===== verification/Settlement.thy ===== *)
theory Settlement
  imports Invariant
begin

text \<open>
  Closing a request. Every way the code ends a request pays the stakes the escrow holds for it and
  then stores the request in a terminal status. \<open>pays\<close> is a list of payments out of the module
  escrow, \<open>paid\<close> what such a list does to the balances. The locale \<open>settlement\<close> is the contract of
  a closing operation \<open>run\<close>: it pays exactly what is locked (\<open>payouts_due\<close>), it succeeds whenever
  the escrow can pay (\<open>run_ok\<close>), and nothing but accounts and that one request changes. The lemmas
  of the locale say that one closing, and a loop of closings over distinct stored requests, keep the
  invariant and cannot fail. The two sweeps of \<open>block.go\<close> and the three operations of
  \<open>resolution.go\<close> interpret it.
\<close>

abbreviation pays :: "env \<Rightarrow> (string \<times> u64) list \<Rightarrow> chain_state \<Rightarrow> chain_error + chain_state" where
  "pays E ps s \<equiv> payAll (debit E) (credit E) moduleEscrowAddr ps s"

definition paid :: "(string \<times> u64) list \<Rightarrow> chain_state \<Rightarrow> chain_state \<Rightarrow> bool" where
  "paid ps s s' \<longleftrightarrow>
     accounts_ok s' \<and> same_but_accounts s s' \<and> total_supply s' = total_supply s \<and>
     (\<forall>a. bal s' a + (if a = moduleEscrowAddr then due ps else 0) = bal s a + received ps a)"

definition close_frame :: "chain_state \<Rightarrow> chain_state \<Rightarrow> bool" where
  "close_frame s s' \<longleftrightarrow> s' = s\<lparr>cs_accounts := cs_accounts s', cs_requests := cs_requests s'\<rparr>"

definition swept ::
  "(inference_request \<Rightarrow> inference_request) \<Rightarrow> chain_state \<Rightarrow> chain_state \<Rightarrow> inference_request set \<Rightarrow> bool" where
  "swept f s s' X \<longleftrightarrow>
     close_frame s s' \<and> total_supply s' = total_supply s \<and>
     (\<forall>k. getRequest s' k =
        (case getRequest s k of Inl e \<Rightarrow> Inl e | Inr r \<Rightarrow> Inr (if r \<in> X then f r else r)))"

text \<open>The loop over the requests to close, collecting the event of each.\<close>

fun settleLoop ::
  "(chain_state \<Rightarrow> inference_request \<Rightarrow> chain_error + chain_state \<times> event) \<Rightarrow>
   inference_request list \<Rightarrow> chain_state \<Rightarrow> event list \<Rightarrow> chain_error + chain_state \<times> event list" where
  "settleLoop run [] s emitted = Inr (s, emitted)"
| "settleLoop run (r # rs) s emitted =
     bind_r (run s r) (\<lambda>(s, ev). settleLoop run rs s (emitted @ [ev]))"

subsection \<open>Payments out of the escrow\<close>

lemma isPositive_iff: "isPositive c \<longleftrightarrow> amount c \<noteq> 0"
  by (simp add: isPositive_def word_gt_0)

lemma opt_amount_simps [simp]: "opt_amount None = 0" "opt_amount (Some b) = amount b"
  by (simp_all add: opt_amount_def)

lemma zero_payment [simp]: "debit E s a 0 = Inr s" "credit E s a 0 = Inr s"
  by (simp_all add: debit_def credit_def)

lemma pays_paid: "accounts_ok s \<Longrightarrow> pays E ps s = Inr s' \<Longrightarrow> paid ps s s'"
  unfolding paid_def using lg.payAll_Inr [of s E moduleEscrowAddr ps s'] by blast

lemma payPool_paid:
  assumes "accounts_ok s" and "due ps = unat pool"
    and "payPool (debit E) (credit E) moduleEscrowAddr pool ps s = Inr s'"
  shows "paid ps s s'"
  unfolding paid_def using lg.payPool_Inr [OF assms] unfolding assms(2) .

lemma paid_trans:
  assumes "paid ps s s1" and "paid qs s1 s2"
  shows "paid (ps @ qs) s s2"
proof -
  have "bal s2 a + (if a = moduleEscrowAddr then due (ps @ qs) else 0) = bal s a + received (ps @ qs) a" for a
  proof -
    have "bal s1 a + (if a = moduleEscrowAddr then due ps else 0) = bal s a + received ps a"
      and "bal s2 a + (if a = moduleEscrowAddr then due qs else 0) = bal s1 a + received qs a"
      using assms unfolding paid_def by blast+
    then show ?thesis by (cases "a = moduleEscrowAddr") simp_all
  qed
  moreover have "same_but_accounts s s2"
    using assms same_but_accounts_trans unfolding paid_def by blast
  ultimately show ?thesis
    using assms by (simp add: paid_def)
qed

lemma pays_ok:
  assumes "accounts_ok s" and "put_accepts E" and "list_all (\<lambda>p. addr_ok E (fst p)) ps"
    and "due ps \<le> bal s moduleEscrowAddr"
  shows "\<exists>s'. pays E ps s = Inr s'"
  using assms by (intro lg.payAll_ok) (auto simp: addr_ok_module list_all_iff)

lemma paid_bal:
  assumes "paid ps s s'"
  shows "bal s' moduleEscrowAddr + due ps = bal s moduleEscrowAddr + received ps moduleEscrowAddr"
    and "a \<noteq> moduleEscrowAddr \<Longrightarrow> bal s' a = bal s a + received ps a"
  using assms unfolding paid_def by (metis, metis add.right_neutral)

lemma close_frame_refl [simp]: "close_frame s s"
  by (simp add: close_frame_def)

lemma close_frame_trans: "close_frame s t \<Longrightarrow> close_frame t u \<Longrightarrow> close_frame s u"
  by (cases s; cases t; cases u) (simp add: close_frame_def)

lemma close_frame_fields:
  assumes "close_frame s s'"
  shows "cs_meta s' = cs_meta s" "cs_services s' = cs_services s" "cs_svc_by_name s' = cs_svc_by_name s"
    "cs_nonces s' = cs_nonces s" "cs_domains s' = cs_domains s"
  using assms by (cases s; cases s'; simp add: close_frame_def)+

lemma close_frame_gets:
  assumes "close_frame s s'"
  shows "getService s' = getService s" "getDomain s' = getDomain s" "getMetaUint64 s' = getMetaUint64 s"
    "paramsLocked s' = paramsLocked s"
  using close_frame_fields [OF assms]
  by (simp_all add: getService_def getDomain_def getMetaUint64_def paramsLocked_def fun_eq_iff)

subsection \<open>The contract\<close>

locale settlement =
  fixes E :: env
    and run :: "chain_state \<Rightarrow> inference_request \<Rightarrow> chain_error + chain_state \<times> event"
    and ready :: "inference_request \<Rightarrow> bool"
    and close :: "inference_request \<Rightarrow> inference_request"
    and payouts :: "service \<Rightarrow> inference_request \<Rightarrow> (string \<times> u64) list"
  assumes run_paid:
      "accounts_ok s \<Longrightarrow> getService s (req_service_id r) = Inr svc \<Longrightarrow> ready r \<Longrightarrow> req_shape r \<Longrightarrow>
       req_locked r < 2 ^ 64 \<Longrightarrow> run s r = Inr (s', ev) \<Longrightarrow>
       \<exists>s1. paid (payouts svc r) s s1 \<and> putRequest E s1 (close r) = Inr s'"
    and run_ok:
      "put_accepts E \<Longrightarrow> accounts_ok s \<Longrightarrow> getService s (req_service_id r) = Inr svc \<Longrightarrow>
       isValidAddress (svc_owner svc) \<Longrightarrow> ready r \<Longrightarrow> req_shape r \<Longrightarrow>
       req_locked r \<le> bal s moduleEscrowAddr \<Longrightarrow> \<exists>s' ev. run s r = Inr (s', ev)"
    and payouts_due:
      "ready r \<Longrightarrow> req_shape r \<Longrightarrow> req_locked r < 2 ^ 64 \<Longrightarrow> due (payouts svc r) = req_locked r"
    and close_closes:
      "ready r \<Longrightarrow> req_shape r \<Longrightarrow>
       req_shape (close r) \<and> terminal (req_status (close r)) \<and> req_id (close r) = req_id r
       \<and> req_service_id (close r) = req_service_id r"
begin

lemma locked_less:
  assumes "chain_inv E D s" and "getRequest s k = Inr r"
  shows "req_locked r < 2 ^ 64" and "req_locked r \<le> bal s moduleEscrowAddr"
  using req_locked_le [OF assms(2)] inv_solvent [OF assms(1)] bal_le_total_supply [of s moduleEscrowAddr]
    inv_accounts [OF assms(1)] by (auto simp: accounts_ok_def)

lemma step:
  assumes inv: "chain_inv E D s" and r: "getRequest s (req_id r) = Inr r" and rdy: "ready r"
    and svc: "getService s (req_service_id r) = Inr svc" and run: "run s r = Inr (s', ev)"
  shows "chain_inv E D s'" and "close_frame s s'" and "total_supply s' = total_supply s"
    and "getRequest s' = (getRequest s)(req_id r := Inr (close r))"
    and "\<exists>s1. paid (payouts svc r) s s1 \<and> cs_accounts s' = cs_accounts s1"
proof -
  have rok: "req_ok D s (req_id r) r"
    using wf_request [OF inv_wf [OF inv] r] .
  then have shape: "req_shape r" by (simp add: req_ok_def)
  obtain s1 where p: "paid (payouts svc r) s s1" and put: "putRequest E s1 (close r) = Inr s'"
    using run_paid [OF inv_accounts [OF inv] svc rdy shape locked_less(1) [OF inv r] run] by blast
  note c = close_closes [OF rdy shape]
  have same: "same_but_accounts s s1" and acc: "accounts_ok s1" and tot: "total_supply s1 = total_supply s"
    using p by (simp_all add: paid_def)
  note g = gets_same_but_accounts [OF same]
  have s': "s' = s1\<lparr>cs_requests := bput (req_id (close r)) (close r) (cs_requests s1)\<rparr>"
    using put by (simp add: putRequest_Inr)
  have wf1: "tables_ok E D s1"
    using inv same by (simp add: chain_inv_def wf_same_but_accounts)
  have live: "domain_live D s1 = domain_live D s"
    by (simp add: domain_live_def g fun_eq_iff)
  have "req_ok D s1 (req_id (close r)) (close r)"
    using rok c by (auto simp: req_ok_def g live)
  then have wf': "tables_ok E D s'"
    unfolding s' using wf1 by (rule wf_put_request [rotated])
  have r1: "getRequest s1 (req_id (close r)) = Inr r"
    using r c g by simp
  have obl: "obligations s' + req_locked r = obligations s"
    using reqs.put_measure [OF put wf_buckets(2) [OF wf1] r1, of req_locked] c
      obligations_same_but_accounts [OF same]
    by (simp add: obligations_def s' req_locked_def)
  have esc: "bal s1 moduleEscrowAddr + req_locked r \<ge> bal s moduleEscrowAddr"
    using paid_bal(1) [OF p] payouts_due [OF rdy shape locked_less(1) [OF inv r], of svc] by simp
  have "solvent s'"
    using obl esc inv_solvent [OF inv] by (simp add: solvent_def s')
  then show "chain_inv E D s'"
    using wf' acc by (simp add: chain_inv_def s')
  show "total_supply s' = total_supply s"
    using tot by (simp add: s')
  show "close_frame s s'"
    using same by (cases s; cases s1) (simp add: s' close_frame_def same_but_accounts_def)
  show "getRequest s' = (getRequest s)(req_id r := Inr (close r))"
    using c g by (auto simp: s' fun_eq_iff)
  show "\<exists>s1. paid (payouts svc r) s s1 \<and> cs_accounts s' = cs_accounts s1"
    using p by (auto simp: s')
qed

lemma step_bal:
  assumes inv: "chain_inv E D s" and r: "getRequest s (req_id r) = Inr r" and rdy: "ready r"
    and svc: "getService s (req_service_id r) = Inr svc" and run: "run s r = Inr (s', ev)"
  shows "bal s' a + (if a = moduleEscrowAddr then req_locked r else 0) = bal s a + received (payouts svc r) a"
proof -
  have "req_shape r"
    using wf_request [OF inv_wf [OF inv] r] by (simp add: req_ok_def)
  then have due: "due (payouts svc r) = req_locked r"
    using payouts_due [OF rdy _ locked_less(1) [OF inv r]] by simp
  obtain s1 where p: "paid (payouts svc r) s s1" and acc: "cs_accounts s' = cs_accounts s1"
    using step(5) [OF assms] by blast
  have "bal s' a = bal s1 a"
    by (simp add: bal_def loadAccount_def acc)
  moreover have "bal s1 a + (if a = moduleEscrowAddr then due (payouts svc r) else 0) = bal s a + received (payouts svc r) a"
    using p unfolding paid_def by blast
  ultimately show ?thesis
    using due by (cases "a = moduleEscrowAddr") simp_all
qed

lemma step_ok:
  assumes E: "put_accepts E" and inv: "chain_inv E D s" and r: "getRequest s (req_id r) = Inr r" and rdy: "ready r"
  shows "\<exists>s' ev. run s r = Inr (s', ev)"
proof -
  obtain svc where svc: "getService s (req_service_id r) = Inr svc" and v: "isValidAddress (svc_owner svc)"
    by (rule wf_request_service [OF inv_wf [OF inv] r])
  have "req_shape r"
    using wf_request [OF inv_wf [OF inv] r] by (simp add: req_ok_def)
  then show ?thesis
    using run_ok [OF E inv_accounts [OF inv] svc v rdy _ locked_less(2) [OF inv r]] by simp
qed

lemma loop:
  "chain_inv E D s \<Longrightarrow> distinct (map req_id rs) \<Longrightarrow>
   (\<And>r. r \<in> set rs \<Longrightarrow> getRequest s (req_id r) = Inr r \<and> ready r) \<Longrightarrow>
   settleLoop run rs s evs = Inr (s', evs') \<Longrightarrow>
   chain_inv E D s' \<and> close_frame s s' \<and> total_supply s' = total_supply s
   \<and> (\<forall>r \<in> set rs. getRequest s' (req_id r) = Inr (close r))
   \<and> (\<forall>k. k \<notin> req_id ` set rs \<longrightarrow> getRequest s' k = getRequest s k)
   \<and> length evs' = length evs + length rs"
proof (induction rs arbitrary: s evs)
  case Nil
  then show ?case by simp
next
  case (Cons r rs)
  from Cons.prems(4) obtain s1 ev where run: "run s r = Inr (s1, ev)"
    and rest: "settleLoop run rs s1 (evs @ [ev]) = Inr (s', evs')"
    by auto
  have r: "getRequest s (req_id r) = Inr r" and rdy: "ready r"
    using Cons.prems(3) [of r] by simp_all
  obtain svc where svc: "getService s (req_service_id r) = Inr svc"
    by (rule wf_request_service [OF inv_wf [OF Cons.prems(1)] r])
  note st = step [OF Cons.prems(1) r rdy svc run]
  have "getRequest s1 (req_id q) = Inr q \<and> ready q" if "q \<in> set rs" for q
  proof -
    have "req_id q \<noteq> req_id r"
      using Cons.prems(2) that by (auto simp: image_iff)
    then show ?thesis
      using Cons.prems(3) [of q] that by (simp add: st(4))
  qed
  with Cons.prems(2) have ih: "chain_inv E D s' \<and> close_frame s1 s' \<and> total_supply s' = total_supply s1
     \<and> (\<forall>r \<in> set rs. getRequest s' (req_id r) = Inr (close r))
     \<and> (\<forall>k. k \<notin> req_id ` set rs \<longrightarrow> getRequest s' k = getRequest s1 k)
     \<and> length evs' = length (evs @ [ev]) + length rs"
    by (intro Cons.IH [OF st(1) _ _ rest]) simp_all
  then have "getRequest s' (req_id r) = Inr (close r)"
    using Cons.prems(2) by (simp add: st(4))
  moreover have "close_frame s s'"
    using ih st(2) close_frame_trans by blast
  ultimately show ?case
    using ih st(3,4) by simp
qed

lemma loop_ok:
  "put_accepts E \<Longrightarrow> chain_inv E D s \<Longrightarrow> distinct (map req_id rs) \<Longrightarrow>
   (\<And>r. r \<in> set rs \<Longrightarrow> getRequest s (req_id r) = Inr r \<and> ready r) \<Longrightarrow>
   \<exists>s' evs'. settleLoop run rs s evs = Inr (s', evs')"
proof (induction rs arbitrary: s evs)
  case (Cons r rs)
  have r: "getRequest s (req_id r) = Inr r" and rdy: "ready r"
    using Cons.prems(4) [of r] by simp_all
  obtain s1 ev where run: "run s r = Inr (s1, ev)"
    using step_ok [OF Cons.prems(1,2) r rdy] by blast
  obtain svc where svc: "getService s (req_service_id r) = Inr svc"
    by (rule wf_request_service [OF inv_wf [OF Cons.prems(2)] r])
  note st = step [OF Cons.prems(2) r rdy svc run]
  have "getRequest s1 (req_id q) = Inr q \<and> ready q" if "q \<in> set rs" for q
  proof -
    have "req_id q \<noteq> req_id r"
      using Cons.prems(3) that by (auto simp: image_iff)
    then show ?thesis
      using Cons.prems(4) [of q] that by (simp add: st(4))
  qed
  with Cons.prems(3) have "\<exists>s' evs'. settleLoop run rs s1 (evs @ [ev]) = Inr (s', evs')"
    by (intro Cons.IH [OF Cons.prems(1) st(1)]) simp_all
  with run show ?case by simp
qed simp

text \<open>
  A stage of a sweep: of the requests stored in \<open>s\<close> those in \<open>X\<close> have become \<open>f r\<close> in \<open>s1\<close>; the loop
  closes the requests \<open>rs\<close>, none of them in \<open>X\<close>, the way \<open>f\<close> says.
\<close>

lemma stage_ready:
  assumes "swept f s s1 X" and "r \<notin> X" and "getRequest s (req_id r) = Inr r"
  shows "getRequest s1 (req_id r) = Inr r"
  using assms by (simp add: swept_def)

lemma stage:
  assumes wf: "tables_ok E D s" and inv: "chain_inv E D s1" and sw: "swept f s s1 X"
    and d: "distinct (map req_id rs)"
    and rs: "\<And>r. r \<in> set rs \<Longrightarrow> getRequest s (req_id r) = Inr r \<and> ready r \<and> r \<notin> X \<and> close r = f r"
    and run: "settleLoop run rs s1 evs = Inr (s2, evs')"
  shows "chain_inv E D s2" and "swept f s s2 (X \<union> set rs)" and "length evs' = length evs + length rs"
proof -
  have "getRequest s1 (req_id r) = Inr r \<and> ready r" if "r \<in> set rs" for r
    using rs [OF that] stage_ready [OF sw] by blast
  note l = loop [OF inv d this run]
  show "chain_inv E D s2" and "length evs' = length evs + length rs"
    using l by simp_all
  have "getRequest s2 k = (case getRequest s k of Inl e \<Rightarrow> Inl e | Inr r \<Rightarrow> Inr (if r \<in> X \<union> set rs then f r else r))" for k
  proof (cases "k \<in> req_id ` set rs")
    case True
    then obtain r where r: "r \<in> set rs" and k: "k = req_id r" by blast
    then show ?thesis using l rs [OF r] by simp
  next
    case False
    then have "getRequest s2 k = getRequest s1 k" using l by blast
    moreover have "r \<notin> set rs" if "getRequest s k = Inr r" for r
      using False wf_request [OF wf that] by (auto simp: req_ok_def)
    ultimately show ?thesis
      using sw by (auto simp: swept_def split: sum.splits)
  qed
  moreover have "close_frame s s2" and "total_supply s2 = total_supply s"
    using l sw close_frame_trans unfolding swept_def by (blast, simp)
  ultimately show "swept f s s2 (X \<union> set rs)"
    by (simp add: swept_def)
qed

lemma stage_ok:
  assumes "put_accepts E" and "chain_inv E D s1" and "swept f s s1 X" and "distinct (map req_id rs)"
    and "\<And>r. r \<in> set rs \<Longrightarrow> getRequest s (req_id r) = Inr r \<and> ready r \<and> r \<notin> X"
  shows "\<exists>s2 evs'. settleLoop run rs s1 evs = Inr (s2, evs')"
  using loop_ok [OF assms(1,2,4)] assms(5) stage_ready [OF assms(3)] by blast

end

end
