(* ===== verification/Resolution.thy ===== *)
theory Resolution
  imports Settlement
begin

text \<open>
  The three ways a request leaves the open statuses outside the ordinary block sweep
  (\<open>chain/internal/state/resolution.go\<close>): \<open>executeSlash\<close>, \<open>executeDismiss\<close> and
  \<open>executeVoidDueToDomain\<close>. Each is refined by a list of payments out of the module escrow
  (\<open>slashPayouts\<close>, \<open>dismissPayouts\<close>, \<open>voidPayouts\<close>) that adds up to exactly what the escrow holds
  for the request. The locale \<open>settlement\<close> is the contract they share with the two sweeps of
  \<open>block.go\<close>.
\<close>

subsection \<open>The code\<close>

text \<open>
  The pattern of every bond: pay it out of \<open>src\<close> if there is one and it is positive, and report
  the coin that moved (the zero coin otherwise).
\<close>

definition payBond ::
  "(chain_error \<Rightarrow> chain_error) \<Rightarrow> env \<Rightarrow> chain_state \<Rightarrow> string \<Rightarrow> string \<Rightarrow> coin option \<Rightarrow>
   chain_error + chain_state \<times> coin" where
  "payBond w E s src dst ob =
     (case ob of
        None \<Rightarrow> Inr (s, zero_coin)
      | Some b \<Rightarrow>
          if isPositive b then bind_r (move w E s src dst (amount b)) (\<lambda>s. Inr (s, b))
          else Inr (s, zero_coin))"

fun slashVouchers ::
  "env \<Rightarrow> chain_state \<Rightarrow> voucher list \<Rightarrow> int \<Rightarrow> int \<Rightarrow> chain_error + chain_state \<times> int \<times> int" where
  "slashVouchers E s [] forfeited returned = Inr (s, forfeited, returned)"
| "slashVouchers E s (v # vs) forfeited returned =
     (if \<not> isPositive (v_bond v) then slashVouchers E s vs forfeited returned
      else if v_supports_provider v then
        bind_r (move (Wrapped ''forfeit provider-side voucher bond to treasury'') E s
                  moduleEscrowAddr moduleTreasuryAddr (amount (v_bond v)))
          (\<lambda>s. slashVouchers E s vs (forfeited + 1) returned)
      else
        bind_r (move (Wrapped ''returning challenger-side voucher bond'') E s
                  moduleEscrowAddr (v_voucher v) (amount (v_bond v)))
          (\<lambda>s. slashVouchers E s vs forfeited (returned + 1)))"

definition executeSlash ::
  "env \<Rightarrow> i64 \<Rightarrow> chain_state \<Rightarrow> inference_request \<Rightarrow> chain_error + chain_state \<times> event" where
  "executeSlash E height s r =
     bind_r (getService s (req_service_id r)) (\<lambda>svc.
     case req_challenges r of
       [] \<Rightarrow> Inl (Panic ''index out of range [0] with length 0'')
     | ch # _ \<Rightarrow>
         let challenger = ch_challenger ch; challengerBond = ch_bond ch in
         bind_r (move id E s moduleEscrowAddr (req_requester r) (amount (req_escrow r))) (\<lambda>s.
         bind_r (payBond id E s moduleEscrowAddr challenger (req_provider_bond r)) (\<lambda>(s, providerBondSlashed).
         bind_r (payBond id E s moduleEscrowAddr challenger (Some challengerBond)) (\<lambda>(s, challengerBondReturned).
         bind_r (slashVouchers E s (req_vouchers r) 0 0) (\<lambda>(s, forfeited, returned).
         bind_r (putRequest E s (r\<lparr>req_status := StatusSlashed, req_finalized_at := height\<rparr>)) (\<lambda>s.
         Inr (s, mk_event height (RequestSlashed
           \<lparr>esl_request_id = req_id r, esl_provider = svc_owner svc, esl_challenger = challenger,
            esl_refunded = req_escrow r, esl_bond_slashed = providerBondSlashed,
            esl_challenger_bond_returned = challengerBondReturned,
            esl_forfeited_to_treasury = forfeited,
            esl_challenger_vouchers_returned = returned\<rparr>))))))))"

text \<open>\<open>executeDismiss\<close>: the vouchers on the provider's side, and the bonds of the others added up.\<close>

fun dismissSplit :: "voucher list \<Rightarrow> voucher list \<Rightarrow> u64 \<Rightarrow> voucher list \<times> u64" where
  "dismissSplit [] providerVouchers lost = (providerVouchers, lost)"
| "dismissSplit (v # vs) providerVouchers lost =
     (if v_supports_provider v then dismissSplit vs (providerVouchers @ [v]) lost
      else if isPositive (v_bond v) then dismissSplit vs providerVouchers (lost + amount (v_bond v))
      else dismissSplit vs providerVouchers lost)"

fun returnVoucherBonds :: "env \<Rightarrow> chain_state \<Rightarrow> voucher list \<Rightarrow> chain_error + chain_state" where
  "returnVoucherBonds E s [] = Inr s"
| "returnVoucherBonds E s (v # vs) =
     (if isPositive (v_bond v) then
        bind_r (move id E s moduleEscrowAddr (v_voucher v) (amount (v_bond v)))
          (\<lambda>s. returnVoucherBonds E s vs)
      else returnVoucherBonds E s vs)"

fun creditShares :: "env \<Rightarrow> chain_state \<Rightarrow> voucher list \<Rightarrow> u64 \<Rightarrow> chain_error + chain_state" where
  "creditShares E s [] share = Inr s"
| "creditShares E s (v # vs) share =
     bind_r (credit E s (v_voucher v) share) (\<lambda>s. creditShares E s vs share)"

definition distributePool ::
  "env \<Rightarrow> chain_state \<Rightarrow> string \<Rightarrow> voucher list \<Rightarrow> u64 \<Rightarrow> chain_error + chain_state" where
  "distributePool E s owner providerVouchers rewardPool =
     (let recipients = word_of_nat (1 + length providerVouchers) in
      if rewardPool > 0 then
        let share = rewardPool div recipients;
            remainder = rewardPool - share * recipients in
        bind_r (debit E s moduleEscrowAddr rewardPool) (\<lambda>s.
        bind_r (credit E s owner (share + remainder)) (\<lambda>s.
        creditShares E s providerVouchers share))
      else Inr s)"

definition executeDismiss ::
  "env \<Rightarrow> i64 \<Rightarrow> chain_state \<Rightarrow> inference_request \<Rightarrow> chain_error + chain_state \<times> event" where
  "executeDismiss E height s r =
     bind_r (getService s (req_service_id r)) (\<lambda>svc.
     case req_challenges r of
       [] \<Rightarrow> Inl (Panic ''index out of range [0] with length 0'')
     | ch # _ \<Rightarrow>
         let challenger = ch_challenger ch; challengerBond = ch_bond ch in
         bind_r (move id E s moduleEscrowAddr (svc_owner svc) (amount (req_escrow r))) (\<lambda>s.
         bind_r (payBond id E s moduleEscrowAddr (svc_owner svc) (req_provider_bond r)) (\<lambda>(s, providerBondReturned).
         case dismissSplit (req_vouchers r) [] 0 of (providerVouchers, lost) \<Rightarrow>
         let rewardPool = (if isPositive challengerBond then amount challengerBond else 0) + lost in
         bind_r (returnVoucherBonds E s providerVouchers) (\<lambda>s.
         bind_r (distributePool E s (svc_owner svc) providerVouchers rewardPool) (\<lambda>s.
         bind_r (putRequest E s (r\<lparr>req_status := StatusFinalized, req_finalized_at := height,
                                   req_paid := Some (req_escrow r)\<rparr>)) (\<lambda>s.
         Inr (s, mk_event height (RequestDismissed
           \<lparr>edi_request_id = req_id r, edi_provider = svc_owner svc, edi_challenger = challenger,
            edi_paid = req_escrow r, edi_bond_returned = providerBondReturned,
            edi_challenger_bond_forfeit = challengerBond,
            edi_voucher_count = int (length providerVouchers)\<rparr>))))))))"

fun voidVouchers ::
  "env \<Rightarrow> chain_state \<Rightarrow> voucher list \<Rightarrow> int \<Rightarrow> chain_error + chain_state \<times> int" where
  "voidVouchers E s [] returned = Inr (s, returned)"
| "voidVouchers E s (v # vs) returned =
     (if \<not> isPositive (v_bond v) then voidVouchers E s vs returned
      else
        bind_r (move (Wrapped ''returning voucher bond on void'') E s
                  moduleEscrowAddr (v_voucher v) (amount (v_bond v)))
          (\<lambda>s. voidVouchers E s vs (returned + 1)))"

definition executeVoidDueToDomain ::
  "env \<Rightarrow> i64 \<Rightarrow> chain_state \<Rightarrow> inference_request \<Rightarrow> chain_error + chain_state \<times> event" where
  "executeVoidDueToDomain E height s r =
     bind_r (getService s (req_service_id r)) (\<lambda>svc.
     bind_r (move (Wrapped ''refunding escrow on void'') E s moduleEscrowAddr
               (req_requester r) (amount (req_escrow r))) (\<lambda>s.
     bind_r (if req_status r = StatusSubmitted \<or> req_status r = StatusChallenged then
               bind_r (payBond (Wrapped ''returning provider bond on void'') E s moduleEscrowAddr
                         (svc_owner svc) (req_provider_bond r))
                 (\<lambda>(s, c). Inr (s, svc_owner svc, c))
             else Inr (s, '''', zero_coin)) (\<lambda>(s, provider, providerBondReturned).
     bind_r (case req_challenges r of
               [] \<Rightarrow> Inr (s, '''', zero_coin)
             | ch # _ \<Rightarrow>
                 if req_status r = StatusChallenged then
                   bind_r (payBond (Wrapped ''returning challenger bond on void'') E s moduleEscrowAddr
                             (ch_challenger ch) (Some (ch_bond ch)))
                     (\<lambda>(s, c). Inr (s, ch_challenger ch, c))
                 else Inr (s, '''', zero_coin)) (\<lambda>(s, challenger, challengerBondReturned).
     bind_r (voidVouchers E s (req_vouchers r) 0) (\<lambda>(s, voucherBondsReturned).
     bind_r (putRequest E s (r\<lparr>req_status := StatusRefunded, req_finalized_at := height\<rparr>)) (\<lambda>s.
     Inr (s, mk_event height (RequestVoided
       \<lparr>evd_request_id = req_id r, evd_service_id = req_service_id r,
        evd_domain_id = svc_domain_id svc, evd_prior_status = req_status r,
        evd_requester = req_requester r, evd_escrow_refunded = req_escrow r,
        evd_provider = provider, evd_provider_bond_returned = providerBondReturned,
        evd_challenger = challenger, evd_challenger_bond_returned = challengerBondReturned,
        evd_voucher_bonds_returned = voucherBondsReturned\<rparr>))))))))"

subsection \<open>What is paid, as a list\<close>

definition slashPayouts :: "service \<Rightarrow> inference_request \<Rightarrow> (string \<times> u64) list" where
  "slashPayouts svc r =
     (case req_challenges r of [] \<Rightarrow> []
      | ch # _ \<Rightarrow>
          [(req_requester r, amount (req_escrow r)),
           (ch_challenger ch, opt_amount (req_provider_bond r)),
           (ch_challenger ch, amount (ch_bond ch))]
          @ map (\<lambda>v. (if v_supports_provider v then moduleTreasuryAddr else v_voucher v, amount (v_bond v)))
              (req_vouchers r))"

definition supporters :: "inference_request \<Rightarrow> voucher list" where
  "supporters r = filter v_supports_provider (req_vouchers r)"

definition opponents :: "inference_request \<Rightarrow> voucher list" where
  "opponents r = filter (Not \<circ> v_supports_provider) (req_vouchers r)"

definition rewardPool :: "inference_request \<Rightarrow> u64" where
  "rewardPool r =
     (case req_challenges r of [] \<Rightarrow> 0 | ch # _ \<Rightarrow> amount (ch_bond ch))
     + sum_list (map (amount \<circ> v_bond) (opponents r))"

definition poolShares :: "string \<Rightarrow> voucher list \<Rightarrow> u64 \<Rightarrow> (string \<times> u64) list" where
  "poolShares owner ps pool =
     (let n = word_of_nat (1 + length ps); share = pool div n in
      (owner, share + (pool - share * n)) # map (\<lambda>v. (v_voucher v, share)) ps)"

definition returnPayouts :: "service \<Rightarrow> inference_request \<Rightarrow> (string \<times> u64) list" where
  "returnPayouts svc r =
     [(svc_owner svc, amount (req_escrow r)), (svc_owner svc, opt_amount (req_provider_bond r))]
     @ map (\<lambda>v. (v_voucher v, amount (v_bond v))) (supporters r)"

definition dismissPayouts :: "service \<Rightarrow> inference_request \<Rightarrow> (string \<times> u64) list" where
  "dismissPayouts svc r =
     returnPayouts svc r @ poolShares (svc_owner svc) (supporters r) (rewardPool r)"

definition voidPayouts :: "service \<Rightarrow> inference_request \<Rightarrow> (string \<times> u64) list" where
  "voidPayouts svc r =
     [(req_requester r, amount (req_escrow r))]
     @ (if req_status r = StatusSubmitted \<or> req_status r = StatusChallenged
        then [(svc_owner svc, opt_amount (req_provider_bond r))] else [])
     @ (case req_challenges r of [] \<Rightarrow> []
        | ch # _ \<Rightarrow> if req_status r = StatusChallenged then [(ch_challenger ch, amount (ch_bond ch))] else [])
     @ map (\<lambda>v. (v_voucher v, amount (v_bond v))) (req_vouchers r)"

definition bond_coin :: "coin option \<Rightarrow> coin" where
  "bond_coin ob = (case ob of None \<Rightarrow> zero_coin | Some b \<Rightarrow> if isPositive b then b else zero_coin)"

definition bonded :: "bool \<Rightarrow> voucher list \<Rightarrow> int" where
  "bonded side vs = int (length (filter (\<lambda>v. isPositive (v_bond v) \<and> v_supports_provider v = side) vs))"

lemma payBond_pays:
  "payBond w E s moduleEscrowAddr a ob = Inr (s', c) \<longleftrightarrow>
   pays E [(a, opt_amount ob)] s = Inr s' \<and> c = bond_coin ob"
proof (cases ob)
  case (Some b)
  then show ?thesis
    by (cases "amount b = 0") (auto simp: payBond_def bond_coin_def isPositive_iff move_Inr_iff)
qed (auto simp: payBond_def bond_coin_def)

lemma slashVouchers_pays:
  "slashVouchers E s vs a b = Inr (s', a', b') \<longleftrightarrow>
   pays E (map (\<lambda>v. (if v_supports_provider v then moduleTreasuryAddr else v_voucher v, amount (v_bond v))) vs) s = Inr s'
   \<and> a' = a + bonded True vs \<and> b' = b + bonded False vs"
proof (induction vs arbitrary: s a b)
  case (Cons v vs)
  show ?case
    by (cases "amount (v_bond v) = 0"; cases "v_supports_provider v")
      (auto simp: Cons move_Inr_iff bonded_def isPositive_iff)
qed (auto simp: bonded_def)

lemma returnVoucherBonds_pays:
  "returnVoucherBonds E s vs = Inr s' \<longleftrightarrow>
   pays E (map (\<lambda>v. (v_voucher v, amount (v_bond v))) vs) s = Inr s'"
proof (induction vs arbitrary: s)
  case (Cons v vs)
  show ?case
    by (cases "amount (v_bond v) = 0")
      (auto simp: Cons move_Inr_iff isPositive_iff)
qed auto

lemma voidVouchers_pays:
  "voidVouchers E s vs n = Inr (s', n') \<longleftrightarrow>
   pays E (map (\<lambda>v. (v_voucher v, amount (v_bond v))) vs) s = Inr s'
   \<and> n' = n + bonded True vs + bonded False vs"
proof (induction vs arbitrary: s n)
  case (Cons v vs)
  show ?case
    by (cases "amount (v_bond v) = 0"; cases "v_supports_provider v")
      (auto simp: Cons move_Inr_iff bonded_def isPositive_iff)
qed (auto simp: bonded_def)

lemma creditShares_creditAll:
  "creditShares E s vs share = creditAll (credit E) (map (\<lambda>v. (v_voucher v, share)) vs) s"
proof (induction vs arbitrary: s)
  case (Cons v vs)
  then have "(\<lambda>s. creditShares E s vs share) = creditAll (credit E) (map (\<lambda>v. (v_voucher v, share)) vs)"
    by (simp add: fun_eq_iff)
  then show ?case by simp
qed simp

lemma dismissSplit_filter:
  "dismissSplit vs ps n =
   (ps @ filter v_supports_provider vs,
    n + sum_list (map (amount \<circ> v_bond) (filter (Not \<circ> v_supports_provider) vs)))"
  by (induction vs arbitrary: ps n) (auto simp: algebra_simps)

lemma creditAll_zero: "(\<And>p. p \<in> set ps \<Longrightarrow> snd p = 0) \<Longrightarrow> creditAll (credit E) ps s = Inr s"
  by (induction ps) (auto simp: credit_def)

lemma distributePool_payPool:
  "distributePool E s owner vs pool =
   payPool (debit E) (credit E) moduleEscrowAddr pool (poolShares owner vs pool) s"
proof (cases "pool = 0")
  case True
  then have "creditAll (credit E) (poolShares owner vs pool) s = Inr s"
    by (intro creditAll_zero) (auto simp: poolShares_def Let_def)
  then show ?thesis
    using True by (simp add: distributePool_def payPool_def debit_def)
next
  case False
  then have "pool > 0" by (simp add: word_gt_0)
  moreover have "(\<lambda>s. bind_r (credit E s owner n) (\<lambda>s. creditShares E s vs sh)) =
      creditAll (credit E) ((owner, n) # map (\<lambda>v. (v_voucher v, sh)) vs)" for n sh
  proof
    show "bind_r (credit E s owner n) (\<lambda>s. creditShares E s vs sh) =
        creditAll (credit E) ((owner, n) # map (\<lambda>v. (v_voucher v, sh)) vs) s" for s
      by (cases "credit E s owner n") (simp_all add: creditShares_creditAll)
  qed
  ultimately show ?thesis
    by (simp add: distributePool_def payPool_def poolShares_def Let_def)
qed

subsection \<open>The code pays the lists\<close>

definition slashed :: "i64 \<Rightarrow> inference_request \<Rightarrow> inference_request" where
  "slashed h r = r\<lparr>req_status := StatusSlashed, req_finalized_at := h\<rparr>"

definition dismissed :: "i64 \<Rightarrow> inference_request \<Rightarrow> inference_request" where
  "dismissed h r =
     r\<lparr>req_status := StatusFinalized, req_finalized_at := h, req_paid := Some (req_escrow r)\<rparr>"

definition refunded :: "i64 \<Rightarrow> inference_request \<Rightarrow> inference_request" where
  "refunded h r = r\<lparr>req_status := StatusRefunded, req_finalized_at := h\<rparr>"

lemmas closed_defs = slashed_def dismissed_def refunded_def

lemma executeSlash_Inr:
  assumes "getService s (req_service_id r) = Inr svc" and "req_challenges r = ch # chs"
  shows "executeSlash E h s r = Inr (s', ev) \<longleftrightarrow>
    (\<exists>s1. pays E (slashPayouts svc r) s = Inr s1 \<and> putRequest E s1 (slashed h r) = Inr s'
      \<and> ev = mk_event h (RequestSlashed
           \<lparr>esl_request_id = req_id r, esl_provider = svc_owner svc, esl_challenger = ch_challenger ch,
            esl_refunded = req_escrow r, esl_bond_slashed = bond_coin (req_provider_bond r),
            esl_challenger_bond_returned = bond_coin (Some (ch_bond ch)),
            esl_forfeited_to_treasury = bonded True (req_vouchers r),
            esl_challenger_vouchers_returned = bonded False (req_vouchers r)\<rparr>))"
  using assms
  by (auto simp: executeSlash_def slashPayouts_def slashed_def Let_def payBond_pays slashVouchers_pays
      move_Inr_iff)

lemma executeDismiss_Inr:
  assumes "getService s (req_service_id r) = Inr svc" and "req_challenges r = ch # chs"
  shows "executeDismiss E h s r = Inr (s', ev) \<longleftrightarrow>
    (\<exists>s1 s2. pays E (returnPayouts svc r) s = Inr s1
      \<and> payPool (debit E) (credit E) moduleEscrowAddr (rewardPool r)
          (poolShares (svc_owner svc) (supporters r) (rewardPool r)) s1 = Inr s2
      \<and> putRequest E s2 (dismissed h r) = Inr s'
      \<and> ev = mk_event h (RequestDismissed
           \<lparr>edi_request_id = req_id r, edi_provider = svc_owner svc, edi_challenger = ch_challenger ch,
            edi_paid = req_escrow r, edi_bond_returned = bond_coin (req_provider_bond r),
            edi_challenger_bond_forfeit = ch_bond ch,
            edi_voucher_count = int (length (supporters r))\<rparr>))"
proof -
  have pool: "(if isPositive (ch_bond ch) then amount (ch_bond ch) else 0)
      + (0 + sum_list (map (amount \<circ> v_bond) (filter (Not \<circ> v_supports_provider) (req_vouchers r))))
      = rewardPool r"
    using assms(2) by (simp add: rewardPool_def opponents_def isPositive_iff)
  show ?thesis
    using assms
    by (simp add: executeDismiss_def returnPayouts_def dismissed_def Let_def dismissSplit_filter
        payBond_pays returnVoucherBonds_pays distributePool_payPool move_Inr_iff
        pool [simplified] split_paired_Ex flip: supporters_def) blast
qed

lemma executeVoid_Inr:
  assumes "getService s (req_service_id r) = Inr svc"
  shows "executeVoidDueToDomain E h s r = Inr (s', ev) \<longleftrightarrow>
    (\<exists>s1. pays E (voidPayouts svc r) s = Inr s1 \<and> putRequest E s1 (refunded h r) = Inr s'
      \<and> ev = mk_event h (RequestVoided
       \<lparr>evd_request_id = req_id r, evd_service_id = req_service_id r,
        evd_domain_id = svc_domain_id svc, evd_prior_status = req_status r,
        evd_requester = req_requester r, evd_escrow_refunded = req_escrow r,
        evd_provider =
          (if req_status r = StatusSubmitted \<or> req_status r = StatusChallenged then svc_owner svc else ''''),
        evd_provider_bond_returned =
          (if req_status r = StatusSubmitted \<or> req_status r = StatusChallenged
           then bond_coin (req_provider_bond r) else zero_coin),
        evd_challenger =
          (case req_challenges r of [] \<Rightarrow> '''' | ch # _ \<Rightarrow>
             if req_status r = StatusChallenged then ch_challenger ch else ''''),
        evd_challenger_bond_returned =
          (case req_challenges r of [] \<Rightarrow> zero_coin | ch # _ \<Rightarrow>
             if req_status r = StatusChallenged then bond_coin (Some (ch_bond ch)) else zero_coin),
        evd_voucher_bonds_returned = bonded True (req_vouchers r) + bonded False (req_vouchers r)\<rparr>))"
  using assms
  by (cases "req_challenges r"; cases "req_status r")
    (auto simp: executeVoidDueToDomain_def voidPayouts_def refunded_def payBond_pays voidVouchers_pays
      move_Inr_iff)

subsection \<open>The lists add up to what is locked\<close>

lemma due_vouchers: "due (map (\<lambda>v. (f v, amount (v_bond v))) vs) = voucher_locked vs"
  by (induction vs) (auto simp: voucher_locked_def)

lemma voucher_locked_split:
  "voucher_locked (filter P vs) + voucher_locked (filter (Not \<circ> P) vs) = voucher_locked vs"
  by (induction vs) (auto simp: voucher_locked_def)

lemma unat_bond_sum:
  "voucher_locked vs < 2 ^ 64 \<Longrightarrow> unat (sum_list (map (amount \<circ> v_bond) vs)) = voucher_locked vs"
proof (induction vs)
  case (Cons v vs)
  have le: "unat (amount (v_bond v)) + voucher_locked vs < 2 ^ 64"
    using Cons.prems by (simp add: voucher_locked_def)
  then have "unat (sum_list (map (amount \<circ> v_bond) vs)) = voucher_locked vs"
    by (intro Cons.IH) simp
  with le have "unat (amount (v_bond v) + sum_list (map (amount \<circ> v_bond) vs))
      = unat (amount (v_bond v)) + voucher_locked vs"
    by (subst unat_add_fits) simp_all
  then show ?case
    by (simp add: voucher_locked_def comp_def)
qed (simp add: voucher_locked_def)

lemma unat_rewardPool:
  assumes "req_challenges r = [ch]" and "unat (amount (ch_bond ch)) + voucher_locked (opponents r) < 2 ^ 64"
  shows "unat (rewardPool r) = unat (amount (ch_bond ch)) + voucher_locked (opponents r)"
  using assms by (simp add: rewardPool_def unat_add_fits unat_bond_sum)

text \<open>
  The pool is split into equal shares; the owner's share takes the remainder, so nothing is lost and
  nothing is created.
\<close>

lemma due_replicate: "due (map (\<lambda>v. (f v, n)) vs) = length vs * unat n"
  by (induction vs) auto

lemma unat_recipients:
  "length ps < 2 ^ 63 \<Longrightarrow> unat (word_of_nat (1 + length ps) :: u64) = 1 + length ps"
  by (simp only: unat_of_nat take_bit_nat_eq_self_iff) simp

lemma pool_owner_share:
  fixes pool n :: u64
  assumes "n \<noteq> 0"
  shows "pool div n + (pool - pool div n * n) = pool div n + pool mod n"
  by (simp only: minus_div_mult_eq_mod)

lemma unat_owner_share:
  fixes pool n :: u64
  assumes "n \<noteq> 0"
  shows "unat (pool div n + (pool - pool div n * n)) = unat pool div unat n + unat pool mod unat n"
proof -
  have "unat pool div unat n + unat pool mod unat n \<le> unat pool div unat n * unat n + unat pool mod unat n"
    using assms by (intro add_right_mono) (simp add: Suc_le_eq unat_gt_0)
  also have "\<dots> = unat pool" by simp
  also have "\<dots> < 2 ^ 64" by (rule unat_64_less)
  finally show ?thesis
    unfolding pool_owner_share [OF assms] by (subst unat_add_fits) (simp_all add: unat_div unat_mod)
qed

lemma due_poolShares:
  assumes "length ps < 2 ^ 63"
  shows "due (poolShares owner ps pool) = unat pool"
proof -
  let ?n = "word_of_nat (1 + length ps) :: u64"
  have n: "unat ?n = 1 + length ps" by (rule unat_recipients [OF assms])
  then have "?n \<noteq> 0" by (metis add_is_0 one_neq_zero unat_0)
  note own = unat_owner_share [OF this, of pool]
  have "unat pool div (1 + length ps) + unat pool mod (1 + length ps)
      + length ps * (unat pool div (1 + length ps)) = unat pool"
    using div_mult_mod_eq [of "unat pool" "1 + length ps"] by (simp add: algebra_simps)
  then show ?thesis
    using own n by (simp add: poolShares_def Let_def due_replicate unat_div del: of_nat_Suc of_nat_add)
qed

lemma shape_challenged:
  assumes "req_shape r" and "req_status r = StatusChallenged"
  obtains ch where "req_challenges r = [ch]" and "isValidAddress (ch_challenger ch)"
  using assms by (cases "req_challenges r") (auto simp: req_shape_def)

lemma locked_challenged:
  assumes "req_status r = StatusChallenged" and "req_challenges r = [ch]"
  shows "req_locked r = unat (amount (req_escrow r)) + unat (opt_amount (req_provider_bond r))
    + unat (amount (ch_bond ch)) + voucher_locked (req_vouchers r)"
  using assms by (simp add: req_locked_def req_stakes_def challenge_locked_def)

lemma due_slash:
  assumes "req_status r = StatusChallenged" and "req_shape r"
  shows "due (slashPayouts svc r) = req_locked r"
proof -
  obtain ch where ch: "req_challenges r = [ch]"
    using shape_challenged [OF assms(2,1)] by blast
  show ?thesis
    by (simp add: locked_challenged [OF assms(1) ch] slashPayouts_def ch due_vouchers)
qed

lemma pool_of_challenged:
  assumes "req_status r = StatusChallenged" and "req_challenges r = [ch]" and "req_locked r < 2 ^ 64"
  shows "unat (rewardPool r) = unat (amount (ch_bond ch)) + voucher_locked (opponents r)"
proof -
  have "voucher_locked (supporters r) + voucher_locked (opponents r) = voucher_locked (req_vouchers r)"
    by (simp add: supporters_def opponents_def voucher_locked_split)
  then show ?thesis
    using assms(3) by (intro unat_rewardPool [OF assms(2)]) (simp add: locked_challenged [OF assms(1,2)])
qed

lemma supporters_length:
  assumes "req_shape r"
  shows "length (supporters r) < 2 ^ 63"
proof (rule le_less_trans)
  show "length (supporters r) \<le> length (req_vouchers r)"
    by (simp add: supporters_def)
  show "length (req_vouchers r) < 2 ^ 63"
    using assms by (simp add: req_shape_def)
qed

lemma due_dismiss:
  assumes "req_status r = StatusChallenged" and "req_shape r" and "req_locked r < 2 ^ 64"
  shows "due (returnPayouts svc r) + unat (rewardPool r) = req_locked r"
    and "due (poolShares owner (supporters r) (rewardPool r)) = unat (rewardPool r)"
proof -
  obtain ch where ch: "req_challenges r = [ch]"
    using shape_challenged [OF assms(2,1)] by blast
  have "voucher_locked (supporters r) + voucher_locked (opponents r) = voucher_locked (req_vouchers r)"
    by (simp add: supporters_def opponents_def voucher_locked_split)
  then show "due (returnPayouts svc r) + unat (rewardPool r) = req_locked r"
    using pool_of_challenged [OF assms(1) ch assms(3)]
    by (simp add: locked_challenged [OF assms(1) ch] returnPayouts_def due_vouchers)
  show "due (poolShares owner (supporters r) (rewardPool r)) = unat (rewardPool r)"
    by (rule due_poolShares [OF supporters_length [OF assms(2)]])
qed

text \<open>What one account receives from a dismissal, with the shares as numbers.\<close>

lemma received_map: "received (map (\<lambda>v. (f v, g v)) vs) a = (\<Sum>v\<leftarrow>vs. if f v = a then unat (g v) else 0)"
  by (induction vs) auto

lemma sum_list_if_add:
  fixes f g :: "'a \<Rightarrow> nat"
  shows "(\<Sum>v\<leftarrow>vs. if P v then f v else 0) + (\<Sum>v\<leftarrow>vs. if P v then g v else 0)
    = (\<Sum>v\<leftarrow>vs. if P v then f v + g v else 0)"
  by (induction vs) auto

lemma received_pool:
  assumes "length ps < 2 ^ 63"
  shows "received (poolShares owner ps pool) a =
    (if a = owner then unat pool div (1 + length ps) + unat pool mod (1 + length ps) else 0)
    + (\<Sum>v\<leftarrow>ps. if v_voucher v = a then unat pool div (1 + length ps) else 0)"
proof -
  define n :: u64 where "n = word_of_nat (1 + length ps)"
  have n: "unat n = 1 + length ps"
    unfolding n_def by (rule unat_recipients [OF assms])
  then have "n \<noteq> 0" by (metis add_is_0 one_neq_zero unat_0)
  from unat_owner_share [OF this, of pool] show ?thesis
    unfolding poolShares_def Let_def n_def [symmetric] by (auto simp: received_map unat_div n cong: if_cong)
qed

lemma received_dismiss:
  assumes "req_shape r"
  shows "received (dismissPayouts svc r) a =
    received [(svc_owner svc, amount (req_escrow r)), (svc_owner svc, opt_amount (req_provider_bond r))] a
    + (if a = svc_owner svc then unat (rewardPool r) div (1 + length (supporters r))
         + unat (rewardPool r) mod (1 + length (supporters r)) else 0)
    + (\<Sum>v\<leftarrow>supporters r. if v_voucher v = a
         then unat (amount (v_bond v)) + unat (rewardPool r) div (1 + length (supporters r)) else 0)"
  using received_pool [OF supporters_length [OF assms]]
  by (simp add: dismissPayouts_def returnPayouts_def received_map flip: sum_list_if_add)

definition isOpen :: "inference_request \<Rightarrow> bool" where
  "isOpen r \<longleftrightarrow> req_status r = StatusPending \<or> req_status r = StatusSubmitted \<or> req_status r = StatusChallenged"

lemma isOpen_iff: "isOpen r \<longleftrightarrow> \<not> terminal (req_status r)"
  by (cases "req_status r") (auto simp: isOpen_def)

lemma due_void:
  assumes "isOpen r" and "req_shape r"
  shows "due (voidPayouts svc r) = req_locked r"
  using assms
  by (cases "req_status r"; cases "req_challenges r")
    (auto simp: isOpen_def req_shape_def voidPayouts_def req_locked_def req_stakes_def challenge_locked_def
      due_vouchers voucher_locked_def)

lemma received_void:
  assumes "isOpen r" and "req_shape r"
  shows "received (voidPayouts svc r) a = received
      ([(req_requester r, amount (req_escrow r)), (svc_owner svc, opt_amount (req_provider_bond r))]
       @ map (\<lambda>ch. (ch_challenger ch, amount (ch_bond ch))) (req_challenges r)
       @ map (\<lambda>v. (v_voucher v, amount (v_bond v))) (req_vouchers r)) a"
  using assms
  by (cases "req_status r"; cases "req_challenges r") (auto simp: isOpen_def req_shape_def voidPayouts_def)

subsection \<open>Who is paid has an address\<close>

lemma addr_ok_parties:
  assumes "put_accepts E" and "req_shape r"
  shows "addr_ok E (req_requester r)" and "v \<in> set (req_vouchers r) \<Longrightarrow> addr_ok E (v_voucher v)"
    and "ch \<in> set (req_challenges r) \<Longrightarrow> addr_ok E (ch_challenger ch)"
  using assms by (auto simp: req_shape_def list_all_iff intro: addr_okI)

lemma slash_payees:
  assumes "put_accepts E" and "req_shape r"
  shows "list_all (\<lambda>p. addr_ok E (fst p)) (slashPayouts svc r)"
  using addr_ok_parties [OF assms] addr_ok_module [OF assms(1)]
  by (cases "req_challenges r") (auto simp: slashPayouts_def list_all_iff)

lemma return_payees:
  assumes "put_accepts E" and "req_shape r" and "isValidAddress (svc_owner svc)"
  shows "list_all (\<lambda>p. addr_ok E (fst p)) (returnPayouts svc r)"
    and "list_all (\<lambda>p. addr_ok E (fst p)) (poolShares (svc_owner svc) (supporters r) pool)"
  using addr_ok_parties [OF assms(1,2)] addr_okI [OF assms(1,3)]
  by (auto simp: returnPayouts_def poolShares_def supporters_def Let_def list_all_iff)

lemma void_payees:
  assumes "put_accepts E" and "req_shape r" and "isValidAddress (svc_owner svc)"
  shows "list_all (\<lambda>p. addr_ok E (fst p)) (voidPayouts svc r)"
  using addr_ok_parties [OF assms(1,2)] addr_okI [OF assms(1,3)]
  by (cases "req_challenges r") (auto simp: voidPayouts_def list_all_iff)

lemma closed_shape:
  "req_shape r \<Longrightarrow> req_status r = StatusChallenged \<Longrightarrow> req_shape (slashed h r)"
  "req_shape r \<Longrightarrow> req_status r = StatusChallenged \<or> req_status r = StatusSubmitted \<Longrightarrow> req_shape (dismissed h r)"
  "req_shape r \<Longrightarrow> isOpen r \<Longrightarrow> req_shape (refunded h r)"
  by (auto simp: req_shape_def closed_defs isOpen_def)

lemma closed_simps [simp]:
  "req_id (slashed h r) = req_id r" "req_id (dismissed h r) = req_id r" "req_id (refunded h r) = req_id r"
  "req_service_id (slashed h r) = req_service_id r" "req_service_id (dismissed h r) = req_service_id r"
  "req_service_id (refunded h r) = req_service_id r"
  "req_status (slashed h r) = StatusSlashed" "req_status (dismissed h r) = StatusFinalized"
  "req_status (refunded h r) = StatusRefunded"
  by (simp_all add: closed_defs)

subsection \<open>The three operations meet the contract\<close>

interpretation slash: settlement E "executeSlash E h" "\<lambda>r. req_status r = StatusChallenged" "slashed h" slashPayouts
  for E h
proof
  fix s r svc s' ev
  assume a: "accounts_ok s" "getService s (req_service_id r) = Inr svc" "req_status r = StatusChallenged" "req_shape r"
  obtain ch where ch: "req_challenges r = [ch]"
    using shape_challenged [OF a(4,3)] by blast
  show "\<exists>s1. paid (slashPayouts svc r) s s1 \<and> putRequest E s1 (slashed h r) = Inr s'"
    if "req_locked r < 2 ^ 64" "executeSlash E h s r = Inr (s', ev)"
    using that(2) pays_paid [OF a(1)] executeSlash_Inr [OF a(2) ch] by blast
  show "\<exists>s' ev. executeSlash E h s r = Inr (s', ev)"
    if "put_accepts E" "isValidAddress (svc_owner svc)" "req_locked r \<le> bal s moduleEscrowAddr"
  proof -
    have "\<exists>s1. pays E (slashPayouts svc r) s = Inr s1"
      using that due_slash [OF a(3,4)] by (intro pays_ok [OF a(1)]) (simp_all add: slash_payees a)
    then show ?thesis
      using executeSlash_Inr [OF a(2) ch] putRequest_ok [OF that(1)] by blast
  qed
qed (simp_all add: due_slash closed_shape)

interpretation dismiss: settlement E "executeDismiss E h" "\<lambda>r. req_status r = StatusChallenged" "dismissed h" dismissPayouts
  for E h
proof
  fix s r svc s' ev
  assume a: "accounts_ok s" "getService s (req_service_id r) = Inr svc" "req_status r = StatusChallenged" "req_shape r"
  obtain ch where ch: "req_challenges r = [ch]"
    using shape_challenged [OF a(4,3)] by blast
  show "\<exists>s1. paid (dismissPayouts svc r) s s1 \<and> putRequest E s1 (dismissed h r) = Inr s'"
    if "req_locked r < 2 ^ 64" and run: "executeDismiss E h s r = Inr (s', ev)"
  proof -
    obtain s1 s2 where "pays E (returnPayouts svc r) s = Inr s1"
      and pool: "payPool (debit E) (credit E) moduleEscrowAddr (rewardPool r)
          (poolShares (svc_owner svc) (supporters r) (rewardPool r)) s1 = Inr s2"
      and put: "putRequest E s2 (dismissed h r) = Inr s'"
      using run executeDismiss_Inr [OF a(2) ch] by blast
    then have p: "paid (returnPayouts svc r) s s1"
      using pays_paid [OF a(1)] by blast
    then have "paid (poolShares (svc_owner svc) (supporters r) (rewardPool r)) s1 s2"
      using payPool_paid [OF _ _ pool] due_dismiss(2) [OF a(3,4) that(1)] by (simp add: paid_def)
    then show ?thesis
      using paid_trans [OF p] put by (auto simp: dismissPayouts_def)
  qed
  show "\<exists>s' ev. executeDismiss E h s r = Inr (s', ev)"
    if E: "put_accepts E" and own: "isValidAddress (svc_owner svc)" and le: "req_locked r \<le> bal s moduleEscrowAddr"
  proof -
    have "req_locked r < 2 ^ 64"
      using le bal_le_total_supply [of s moduleEscrowAddr] a(1) by (simp add: accounts_ok_def)
    note due = due_dismiss [OF a(3,4) this]
    obtain s1 where s1: "pays E (returnPayouts svc r) s = Inr s1"
      using pays_ok [OF a(1) E return_payees(1) [OF E a(4) own]] le due(1) [of svc] by auto
    then have p: "paid (returnPayouts svc r) s s1"
      using pays_paid [OF a(1)] by blast
    have "unat (rewardPool r) \<le> bal s1 moduleEscrowAddr"
      using paid_bal(1) [OF p] le due(1) [of svc] by simp
    moreover have "accounts_ok s1" using p by (simp add: paid_def)
    ultimately obtain s2 where "payPool (debit E) (credit E) moduleEscrowAddr (rewardPool r)
          (poolShares (svc_owner svc) (supporters r) (rewardPool r)) s1 = Inr s2"
      using lg.payPool_ok [of s1 E moduleEscrowAddr "poolShares (svc_owner svc) (supporters r) (rewardPool r)"
          "rewardPool r"]
        return_payees(2) [OF E a(4) own, of "rewardPool r"] addr_ok_module [OF E] unfolding list_all_iff by blast
    then show ?thesis
      using executeDismiss_Inr [OF a(2) ch] putRequest_ok [OF E] s1 by blast
  qed
qed (use due_dismiss in \<open>auto simp: dismissPayouts_def closed_shape\<close>)

interpretation void: settlement E "executeVoidDueToDomain E h" isOpen "refunded h" voidPayouts for E h
proof
  fix s r svc s' ev
  assume a: "accounts_ok s" "getService s (req_service_id r) = Inr svc" "isOpen r" "req_shape r"
  show "\<exists>s1. paid (voidPayouts svc r) s s1 \<and> putRequest E s1 (refunded h r) = Inr s'"
    if "req_locked r < 2 ^ 64" "executeVoidDueToDomain E h s r = Inr (s', ev)"
    using that(2) pays_paid [OF a(1)] executeVoid_Inr [OF a(2)] by blast
  show "\<exists>s' ev. executeVoidDueToDomain E h s r = Inr (s', ev)"
    if "put_accepts E" "isValidAddress (svc_owner svc)" "req_locked r \<le> bal s moduleEscrowAddr"
  proof -
    have "\<exists>s1. pays E (voidPayouts svc r) s = Inr s1"
      using that due_void [OF a(3,4)] by (intro pays_ok [OF a(1)]) (simp_all add: void_payees a)
    then show ?thesis
      using executeVoid_Inr [OF a(2)] putRequest_ok [OF that(1)] by blast
  qed
qed (simp_all add: due_void closed_shape)

end
