(* ===== verification/TxMarket.thy ===== *)
theory TxMarket
  imports Resolution
begin

text \<open>
  The transactions of the inference market (\<open>chain/internal/state/tx.go\<close>): registering a service or a
  verification domain, requesting an inference, submitting its result, and plain transfers. Each
  handler is the Go function with its guards in their order; a handler that succeeds returns the new
  state, the new id where there is one, and its events. The lemmas say that every handler keeps the
  invariant and the supply, and what it requires.
\<close>

subsection \<open>Shared steps\<close>

definition decode :: "(string \<Rightarrow> 'm option) \<Rightarrow> string \<Rightarrow> chain_error + 'm" where
  "decode dec payload = (case dec payload of None \<Rightarrow> Inl (Wrapped ''payload'' (ErrText ''json'')) | Some m \<Rightarrow> Inr m)"

definition check :: "bool \<Rightarrow> chain_error \<Rightarrow> chain_error + unit" where
  "check c e = (if c then Inr () else Inl e)"

text \<open>Locking a bond: the signer's coins move into the module escrow if the bond is positive.\<close>

definition lockBond ::
  "(chain_error \<Rightarrow> chain_error) \<Rightarrow> env \<Rightarrow> chain_state \<Rightarrow> string \<Rightarrow> coin \<Rightarrow> chain_error + chain_state" where
  "lockBond w E s signer bond =
     (if isPositive bond then move w E s signer moduleEscrowAddr (amount bond) else Inr s)"

text \<open>
  The check that submissions, challenges and vouches make of an attestation when the service is bound
  to a verification domain: the tuple is the domain's, and the tokenizer too if the domain pins one.
\<close>

definition tuple_matches :: "verification_domain \<Rightarrow> attestation \<Rightarrow> bool" where
  "tuple_matches vd att \<longleftrightarrow>
     att_domain_id att = dom_id vd \<and> att_model_sha256 att = dom_model_sha256 vd \<and>
     att_runtime_id att = dom_runtime_id vd \<and> att_hardware_tag att = dom_hardware_tag vd \<and>
     att_precision att = dom_precision vd"

definition matchDomain ::
  "chain_state \<Rightarrow> string \<Rightarrow> string \<Rightarrow> string \<Rightarrow> u64 \<Rightarrow> attestation \<Rightarrow> chain_error + unit" where
  "matchDomain s loadMsg tupleMsg tokenMsg domainID att =
     (if domainID \<noteq> 0 then
        bind_r (map_err (Wrapped loadMsg) (getDomain s domainID)) (\<lambda>vd.
        if \<not> tuple_matches vd att then Inl (Wrapped tupleMsg ErrAttestationDomainMismatch)
        else if dom_tokenizer_id vd \<noteq> '''' \<and> att_tokenizer_id att \<noteq> dom_tokenizer_id vd
        then Inl (Wrapped tokenMsg ErrAttestationDomainMismatch)
        else Inr ())
      else Inr ())"

subsection \<open>Registering a service\<close>

definition requireActiveDomain :: "chain_state \<Rightarrow> u64 \<Rightarrow> chain_error + unit" where
  "requireActiveDomain s domainID =
     (if domainID \<noteq> 0 then bind_r (getDomain s domainID) (\<lambda>d. check (dom_active d) ErrDomainInactive)
      else Inr ())"

definition applyRegisterService ::
  "env \<Rightarrow> chain_state \<Rightarrow> string \<Rightarrow> string \<Rightarrow> i64 \<Rightarrow> chain_error + chain_state \<times> u64 \<times> event" where
  "applyRegisterService E s signer payload height =
     bind_r (decode (dec_register_service E) payload) (\<lambda>msg.
     bind_r (check (mrs_owner msg = signer) (ErrText ''owner != signer'')) (\<lambda>_.
     bind_r (check (mrs_name msg \<noteq> '''') ErrEmptyName) (\<lambda>_.
     bind_r (check (isPositive (mrs_price msg)) ErrZeroPrice) (\<lambda>_.
     bind_r (check (map_of (cs_svc_by_name s) (mrs_name msg) = None) ErrDuplicateName) (\<lambda>_.
     bind_r (requireActiveDomain s (mrs_domain_id msg)) (\<lambda>_.
     bind_r (paramsLocked s) (\<lambda>params.
     let bond = p_service_registration_bond params in
     bind_r (lockBond (Wrapped ''locking service registration bond'') E s signer bond) (\<lambda>s.
     let id = getMetaUint64 s keyNextSvcID in
     bind_r (putMeta E s keyNextSvcID (MetaU64 (id + 1))) (\<lambda>s.
     bind_r (putService E s
        \<lparr>svc_id = id, svc_owner = mrs_owner msg, svc_name = mrs_name msg,
         svc_description = mrs_description msg, svc_price = mrs_price msg,
         svc_domain_id = mrs_domain_id msg, svc_active = True, svc_created_at = height,
         svc_registration_bond = bond\<rparr>) (\<lambda>s.
     Inr (s, id, mk_event height (ServiceRegistered
        \<lparr>esr_service_id = id, esr_owner = mrs_owner msg, esr_name = mrs_name msg,
         esr_description = mrs_description msg, esr_price = mrs_price msg\<rparr>))))))))))))"

subsection \<open>Requesting an inference\<close>

definition applyRequestInference ::
  "env \<Rightarrow> chain_state \<Rightarrow> string \<Rightarrow> string \<Rightarrow> i64 \<Rightarrow> chain_error + chain_state \<times> u64 \<times> event" where
  "applyRequestInference E s signer payload height =
     bind_r (decode (dec_request_inference E) payload) (\<lambda>msg.
     bind_r (check (mri_requester msg = signer) (ErrText ''requester != signer'')) (\<lambda>_.
     bind_r (getService s (mri_service_id msg)) (\<lambda>svc.
     bind_r (check (svc_active svc) ErrServiceInactive) (\<lambda>_.
     bind_r (check (\<not> (denom (mri_max_price msg) \<noteq> denom (svc_price svc)
                      \<or> amount (mri_max_price msg) < amount (svc_price svc))) ErrInsufficientPrice) (\<lambda>_.
     bind_r (paramsLocked s) (\<lambda>params.
     let deadline = (if mri_deadline msg = 0 then height + p_max_deadline_blocks params
                     else mri_deadline msg) in
     bind_r (check (\<not> deadline <=s height) ErrInvalidDeadline) (\<lambda>_.
     bind_r (move id E s signer moduleEscrowAddr (amount (svc_price svc))) (\<lambda>s.
     let id = getMetaUint64 s keyNextReqID in
     bind_r (putMeta E s keyNextReqID (MetaU64 (id + 1))) (\<lambda>s.
     bind_r (putRequest E s
        \<lparr>req_id = id, req_service_id = mri_service_id msg, req_requester = signer,
         req_input_hash = mri_input_hash msg, req_input_uri = mri_input_uri msg,
         req_input_text = mri_input_text msg, req_escrow = svc_price svc, req_deadline = deadline,
         req_status = StatusPending, req_created_at = height, req_finalized_at = 0,
         req_result = None, req_paid = None, req_submitted_at = 0, req_challenges = [],
         req_provider_bond = None, req_vouchers = []\<rparr>) (\<lambda>s.
     Inr (s, id, mk_event height (InferenceRequested
        \<lparr>eir_request_id = id, eir_service_id = mri_service_id msg, eir_requester = signer,
         eir_input_hash = mri_input_hash msg, eir_input_uri = mri_input_uri msg,
         eir_input_text = mri_input_text msg, eir_escrow = svc_price svc,
         eir_deadline = deadline\<rparr>))))))))))))"

subsection \<open>Submitting a result\<close>

definition submitted :: "i64 \<Rightarrow> result \<Rightarrow> coin \<Rightarrow> inference_request \<Rightarrow> inference_request" where
  "submitted height res bond r =
     r\<lparr>req_provider_bond := (if isPositive bond then Some bond else req_provider_bond r),
       req_result := Some res, req_status := StatusSubmitted, req_submitted_at := height\<rparr>"

text \<open>
  The second half of the handler: with a challenge window the submitted request is stored; without
  one the provider is paid at once and the request is stored as finalized.
\<close>

definition finishSubmit ::
  "env \<Rightarrow> chain_state \<Rightarrow> string \<Rightarrow> i64 \<Rightarrow> params \<Rightarrow> inference_request \<Rightarrow> event list \<Rightarrow>
   chain_error + chain_state \<times> bool \<times> event list" where
  "finishSubmit E s signer height params req events =
     (if p_challenge_window params = 0 then
        bind_r (move id E s moduleEscrowAddr signer (amount (req_escrow req))) (\<lambda>s.
        bind_r (payBond id E s moduleEscrowAddr signer (req_provider_bond req)) (\<lambda>(s, bondReturned).
        bind_r (putRequest E s (req\<lparr>req_status := StatusFinalized, req_finalized_at := height,
                                    req_paid := Some (req_escrow req)\<rparr>)) (\<lambda>s.
        Inr (s, True, events @ [mk_event height (RequestFinalized
          \<lparr>erf_request_id = req_id req, erf_provider = signer, erf_paid = req_escrow req,
           erf_bond_returned = bondReturned\<rparr>)]))))
      else bind_r (putRequest E s req) (\<lambda>s. Inr (s, False, events)))"

definition applySubmitResult ::
  "env \<Rightarrow> chain_state \<Rightarrow> string \<Rightarrow> string \<Rightarrow> i64 \<Rightarrow> chain_error + chain_state \<times> bool \<times> event list" where
  "applySubmitResult E s signer payload height =
     bind_r (decode (dec_submit_result E) payload) (\<lambda>msg.
     bind_r (check (msr_provider msg = signer) (ErrText ''provider != signer'')) (\<lambda>_.
     bind_r (getRequest s (msr_request_id msg)) (\<lambda>req.
     bind_r (check (req_status req = StatusPending) ErrRequestNotPending) (\<lambda>_.
     bind_r (getService s (req_service_id req)) (\<lambda>svc.
     bind_r (check (signer = svc_owner svc) ErrWrongProvider) (\<lambda>_.
     bind_r (check (att_input_hash (res_attestation (msr_result msg)) = req_input_hash req) ErrInputHashMismatch) (\<lambda>_.
     bind_r (check (\<not> req_deadline req <s height) (Wrapped ''height > deadline'' ErrInvalidDeadline)) (\<lambda>_.
     bind_r (matchDomain s ''loading svc domain'' ''domain expects'' ''domain tokenizer''
               (svc_domain_id svc) (res_attestation (msr_result msg))) (\<lambda>_.
     bind_r (paramsLocked s) (\<lambda>params.
     bind_r (lockBond (Wrapped ''locking provider bond'') E s signer (p_provider_bond params)) (\<lambda>s.
     let req' = submitted height (msr_result msg) (p_provider_bond params) req in
     finishSubmit E s signer height params req'
       [mk_event height (ResultSubmitted
          \<lparr>ers_request_id = req_id req, ers_provider = signer,
           ers_output_hash = res_output_hash (msr_result msg),
           ers_output_uri = res_output_uri (msr_result msg)\<rparr>)])))))))))))"

subsection \<open>Registering a verification domain\<close>

definition applyRegisterDomain ::
  "env \<Rightarrow> chain_state \<Rightarrow> string \<Rightarrow> string \<Rightarrow> i64 \<Rightarrow> chain_error + chain_state \<times> u64 \<times> event" where
  "applyRegisterDomain E s signer payload height =
     bind_r (decode (dec_register_domain E) payload) (\<lambda>msg.
     bind_r (if authorityLocked s = ''''
             then bind_r (putMeta E s keyAuthority (MetaString signer)) (\<lambda>s. Inr (s, signer))
             else Inr (s, authorityLocked s)) (\<lambda>(s, auth).
     bind_r (check (signer = auth) (Wrapped ''signer != authority'' ErrUnauthorized)) (\<lambda>_.
     bind_r (check (mrd_authority msg = signer) (ErrText ''authority field != signer'')) (\<lambda>_.
     bind_r (check (\<not> (mrd_model_sha256 msg = '''' \<or> mrd_runtime_id msg = '''' \<or>
                       mrd_hardware_tag msg = '''' \<or> mrd_precision msg = ''''))
               (ErrText ''model_sha256, runtime_id, hardware_tag, precision all required'')) (\<lambda>_.
     bind_r (check (\<not> mrd_voucher_margin msg <s 0) (ErrText ''voucher_margin must be non-negative'')) (\<lambda>_.
     let id = getMetaUint64 s keyNextDomainID in
     bind_r (putMeta E s keyNextDomainID (MetaU64 (id + 1))) (\<lambda>s.
     bind_r (putDomain E s
        \<lparr>dom_id = id, dom_model_sha256 = mrd_model_sha256 msg, dom_runtime_id = mrd_runtime_id msg,
         dom_hardware_tag = mrd_hardware_tag msg, dom_precision = mrd_precision msg,
         dom_tokenizer_id = mrd_tokenizer_id msg, dom_description = mrd_description msg,
         dom_registered_at = height, dom_active = True,
         dom_voucher_margin = mrd_voucher_margin msg\<rparr>) (\<lambda>s.
     Inr (s, id, mk_event height (DomainRegistered
        \<lparr>edr_domain_id = id, edr_model_sha256 = mrd_model_sha256 msg,
         edr_runtime_id = mrd_runtime_id msg, edr_hardware_tag = mrd_hardware_tag msg,
         edr_precision = mrd_precision msg, edr_tokenizer_id = mrd_tokenizer_id msg,
         edr_description = mrd_description msg\<rparr>))))))))))"

subsection \<open>Transfers\<close>

definition applyTransfer ::
  "env \<Rightarrow> chain_state \<Rightarrow> string \<Rightarrow> string \<Rightarrow> chain_error + chain_state \<times> event" where
  "applyTransfer E s signer payload =
     (case dec_transfer E payload of
        None \<Rightarrow> Inl (ErrText ''json'')
      | Some msg \<Rightarrow>
          bind_r (check (mt_from msg = signer) (ErrText ''from != signer'')) (\<lambda>_.
          bind_r (check (amount (mt_amount msg) \<noteq> 0) ErrZeroPrice) (\<lambda>_.
          bind_r (move id E s (mt_from msg) (mt_to msg) (amount (mt_amount msg))) (\<lambda>s.
          Inr (s, no_event)))))"

subsection \<open>Locking funds\<close>

lemma decode_Inr [simp]: "decode d p = Inr m \<longleftrightarrow> d p = Some m"
  by (simp add: decode_def split: option.splits)

lemma check_Inr [simp]: "check c e = Inr u \<longleftrightarrow> c"
  by (simp add: check_def)

lemma lockBond_move: "lockBond w E s a b = move w E s a moduleEscrowAddr (amount b)"
  by (cases "amount b = 0") (simp_all add: lockBond_def isPositive_iff)

lemma lock_facts:
  assumes "accounts_ok s" and "isValidAddress a" and "move w E s a moduleEscrowAddr n = Inr s1"
  shows "accounts_ok s1" and "same_but_accounts s s1" and "total_supply s1 = total_supply s"
    and "bal s1 moduleEscrowAddr = bal s moduleEscrowAddr + unat n" and "unat n \<le> bal s a"
    and "bal s1 a + unat n = bal s a"
proof -
  have ne: "a \<noteq> moduleEscrowAddr"
    using assms(2) moduleAddr_invalid(1) by blast
  note m = move_facts [OF assms(1,3)]
  show "accounts_ok s1" and "same_but_accounts s s1" and "total_supply s1 = total_supply s"
    and "unat n \<le> bal s a"
    using m by simp_all
  show "bal s1 moduleEscrowAddr = bal s moduleEscrowAddr + unat n" and "bal s1 a + unat n = bal s a"
    using m(5) [of moduleEscrowAddr] m(5) [of a] ne by auto
qed

text \<open>
  Staking on a request: the signer locks \<open>n\<close> and the request is stored again, still with the same
  id and service, with at most \<open>n\<close> more locked in it.
\<close>

lemma stake:
  assumes inv: "chain_inv E D s" and r: "getRequest s (req_id r) = Inr r" and opn: "isOpen r"
    and a: "isValidAddress a" and lock: "move w E s a moduleEscrowAddr n = Inr s1"
    and put: "putRequest E s1 r' = Inr s'"
    and r': "req_id r' = req_id r" "req_service_id r' = req_service_id r" "req_shape r'"
      "req_locked r' \<le> req_locked r + unat n"
  shows "chain_inv E D s'" and "total_supply s' = total_supply s" and "close_frame s s'"
    and "getRequest s' = (getRequest s)(req_id r := Inr r')"
proof -
  note l = lock_facts [OF inv_accounts [OF inv] a lock]
  note g = gets_same_but_accounts [OF l(2)]
  have s': "s' = s1\<lparr>cs_requests := bput (req_id r') r' (cs_requests s1)\<rparr>"
    using put by (simp add: putRequest_Inr)
  have wf1: "tables_ok E D s1"
    using inv l(2) by (simp add: chain_inv_def wf_same_but_accounts)
  have live: "domain_live D s1 = domain_live D s"
    by (simp add: domain_live_def g fun_eq_iff)
  have "req_ok D s1 (req_id r') r'"
    using wf_request [OF inv_wf [OF inv] r] r' opn by (auto simp: req_ok_def g live isOpen_iff)
  then have wf': "tables_ok E D s'"
    unfolding s' using wf1 by (rule wf_put_request [rotated])
  have "getRequest s1 (req_id r') = Inr r"
    using r r' g by simp
  then have "obligations s' + req_locked r = obligations s + req_locked r'"
    using reqs.put_measure [OF put wf_buckets(2) [OF wf1], of r req_locked]
      obligations_same_but_accounts [OF l(2)] by (simp add: obligations_def s')
  then have "obligations s' \<le> bal s' moduleEscrowAddr"
    using r'(4) l(4) inv_solvent [OF inv] by (simp add: s')
  then show "chain_inv E D s'"
    using wf' l(1) by (simp add: chain_inv_def solvent_def s')
  show "total_supply s' = total_supply s"
    using l(3) by (simp add: s')
  show "close_frame s s'"
    using l(2) by (cases s; cases s1) (simp add: s' close_frame_def same_but_accounts_def)
  show "getRequest s' = (getRequest s)(req_id r := Inr r')"
    using r' g by (auto simp: s' fun_eq_iff)
qed

lemma matchDomain_Inr:
  "matchDomain s m1 m2 m3 d att = Inr () \<longleftrightarrow>
   d = 0 \<or> (\<exists>vd. getDomain s d = Inr vd \<and> tuple_matches vd att
             \<and> (dom_tokenizer_id vd = '''' \<or> att_tokenizer_id att = dom_tokenizer_id vd))"
  by (auto simp: matchDomain_def)

lemma requireActiveDomain_Inr:
  "requireActiveDomain s d = Inr () \<longleftrightarrow> d = 0 \<or> (\<exists>vd. getDomain s d = Inr vd \<and> dom_active vd)"
  by (auto simp: requireActiveDomain_def)

subsection \<open>Registering a service\<close>

lemma applyRegisterService_Inr:
  assumes "applyRegisterService E s signer p h = Inr (s', k, ev)"
  obtains msg ps s1 svc where
    "dec_register_service E p = Some msg" and "mrs_owner msg = signer" and "mrs_name msg \<noteq> ''''"
    and "amount (mrs_price msg) \<noteq> 0" and "map_of (cs_svc_by_name s) (mrs_name msg) = None"
    and "requireActiveDomain s (mrs_domain_id msg) = Inr ()" and "paramsLocked s = Inr ps"
    and "move (Wrapped ''locking service registration bond'') E s signer moduleEscrowAddr
           (amount (p_service_registration_bond ps)) = Inr s1"
    and "k = getMetaUint64 s1 keyNextSvcID"
    and "svc = \<lparr>svc_id = k, svc_owner = signer, svc_name = mrs_name msg,
         svc_description = mrs_description msg, svc_price = mrs_price msg,
         svc_domain_id = mrs_domain_id msg, svc_active = True, svc_created_at = h,
         svc_registration_bond = p_service_registration_bond ps\<rparr>"
    and "put_err E BktSvcByName (string_bytes (svc_name svc)) = None"
    and "s' = s1\<lparr>cs_meta := bput keyNextSvcID (MetaU64 (svc_id svc + 1)) (cs_meta s1),
                 cs_services := bput (svc_id svc) svc (cs_services s1),
                 cs_svc_by_name := bput (svc_name svc) (svc_id svc) (cs_svc_by_name s1)\<rparr>"
    and "ev = mk_event h (ServiceRegistered \<lparr>esr_service_id = k, esr_owner = signer, esr_name = mrs_name msg,
         esr_description = mrs_description msg, esr_price = mrs_price msg\<rparr>)"
  using assms
  by (auto simp: applyRegisterService_def Let_def lockBond_move putMeta_def putService_Inr isPositive_iff
      intro!: that)

lemma register_service_keeps [handler_keeps]:
  assumes inv: "chain_inv E {} s" and a: "isValidAddress signer"
    and room: "getMetaUint64 s keyNextSvcID < getMetaUint64 s keyNextSvcID + 1"
    and app: "applyRegisterService E s signer p h = Inr (s', k, ev)"
  shows "chain_inv E {} s' \<and> total_supply s' = total_supply s"
  using app
proof (rule applyRegisterService_Inr)
  fix msg ps s1 svc
  assume fresh: "map_of (cs_svc_by_name s) (mrs_name msg) = None"
    and dm: "requireActiveDomain s (mrs_domain_id msg) = Inr ()"
    and lock: "move (Wrapped ''locking service registration bond'') E s signer moduleEscrowAddr
           (amount (p_service_registration_bond ps)) = Inr s1"
    and k: "k = getMetaUint64 s1 keyNextSvcID"
    and svc: "svc = \<lparr>svc_id = k, svc_owner = signer, svc_name = mrs_name msg,
         svc_description = mrs_description msg, svc_price = mrs_price msg,
         svc_domain_id = mrs_domain_id msg, svc_active = True, svc_created_at = h,
         svc_registration_bond = p_service_registration_bond ps\<rparr>"
    and key: "put_err E BktSvcByName (string_bytes (svc_name svc)) = None"
    and s': "s' = s1\<lparr>cs_meta := bput keyNextSvcID (MetaU64 (svc_id svc + 1)) (cs_meta s1),
                 cs_services := bput (svc_id svc) svc (cs_services s1),
                 cs_svc_by_name := bput (svc_name svc) (svc_id svc) (cs_svc_by_name s1)\<rparr>"
  note l = lock_facts [OF inv_accounts [OF inv] a lock]
  note g = gets_same_but_accounts [OF l(2)] and f = same_but_accounts_fields [OF l(2)]
  have wf1: "tables_ok E {} s1"
    using inv l(2) by (simp add: chain_inv_def wf_same_but_accounts)
  have live: "domain_live {} s1 (svc_domain_id svc)"
    using dm by (auto simp: svc requireActiveDomain_Inr domain_live_def g)
  have wf': "tables_ok E {} s'"
    unfolding s'
    by (rule wf_put_service_new [OF wf1]) (use a key fresh live room in \<open>simp_all add: svc k g f\<close>)
  have none: "map_of (cs_services s1) k = None"
  proof (cases "map_of (cs_services s1) k")
    case (Some v)
    then have "getService s1 k = Inr v" by (simp add: getService_iff)
    with wf_service [OF wf1 this] k show ?thesis by (simp add: svc_ok_def)
  qed
  then have "bsum svc_locked (bput k svc (cs_services s1))
      = bsum svc_locked (cs_services s1) + svc_locked svc"
    by (intro bsum_bput_new) (simp_all add: wf_buckets(1) [OF wf1])
  then have "obligations s' = obligations s1 + unat (amount (p_service_registration_bond ps))"
    by (simp add: obligations_def s' svc svc_locked_def)
  then have "obligations s' \<le> bal s' moduleEscrowAddr"
    using l(4) inv_solvent [OF inv] obligations_same_but_accounts [OF l(2)] by (simp add: s')
  then show ?thesis
    using wf' l(1,3) by (simp add: chain_inv_def solvent_def s')
qed

subsection \<open>Requesting an inference\<close>

lemma applyRequestInference_Inr:
  assumes "applyRequestInference E s signer p h = Inr (s', k, ev)"
  obtains msg svc ps s1 deadline r where
    "dec_request_inference E p = Some msg" and "mri_requester msg = signer"
    and "getService s (mri_service_id msg) = Inr svc" and "svc_active svc"
    and "denom (mri_max_price msg) = denom (svc_price svc)"
    and "amount (svc_price svc) \<le> amount (mri_max_price msg)"
    and "paramsLocked s = Inr ps"
    and "deadline = (if mri_deadline msg = 0 then h + p_max_deadline_blocks ps else mri_deadline msg)"
    and "h <s deadline"
    and "move id E s signer moduleEscrowAddr (amount (svc_price svc)) = Inr s1"
    and "k = getMetaUint64 s1 keyNextReqID"
    and "r = \<lparr>req_id = k, req_service_id = mri_service_id msg, req_requester = signer,
         req_input_hash = mri_input_hash msg, req_input_uri = mri_input_uri msg,
         req_input_text = mri_input_text msg, req_escrow = svc_price svc, req_deadline = deadline,
         req_status = StatusPending, req_created_at = h, req_finalized_at = 0,
         req_result = None, req_paid = None, req_submitted_at = 0, req_challenges = [],
         req_provider_bond = None, req_vouchers = []\<rparr>"
    and "s' = s1\<lparr>cs_meta := bput keyNextReqID (MetaU64 (req_id r + 1)) (cs_meta s1),
                 cs_requests := bput (req_id r) r (cs_requests s1)\<rparr>"
proof -
  have "\<not> a <=s b \<longleftrightarrow> b <s a" for a b :: i64
    by (rule signed.not_le)
  with assms show ?thesis
    by (auto simp: applyRequestInference_def Let_def putMeta_def putRequest_Inr not_less intro!: that)
qed

lemma request_inference_keeps [handler_keeps]:
  assumes inv: "chain_inv E {} s" and a: "isValidAddress signer"
    and room: "getMetaUint64 s keyNextReqID < getMetaUint64 s keyNextReqID + 1"
    and app: "applyRequestInference E s signer p h = Inr (s', k, ev)"
  shows "chain_inv E {} s' \<and> total_supply s' = total_supply s"
  using app
proof (rule applyRequestInference_Inr)
  fix msg svc ps s1 deadline r
  assume svc: "getService s (mri_service_id msg) = Inr svc" and act: "svc_active svc"
    and lock: "move id E s signer moduleEscrowAddr (amount (svc_price svc)) = Inr s1"
    and k: "k = getMetaUint64 s1 keyNextReqID"
    and r: "r = \<lparr>req_id = k, req_service_id = mri_service_id msg, req_requester = signer,
         req_input_hash = mri_input_hash msg, req_input_uri = mri_input_uri msg,
         req_input_text = mri_input_text msg, req_escrow = svc_price svc, req_deadline = deadline,
         req_status = StatusPending, req_created_at = h, req_finalized_at = 0,
         req_result = None, req_paid = None, req_submitted_at = 0, req_challenges = [],
         req_provider_bond = None, req_vouchers = []\<rparr>"
    and s': "s' = s1\<lparr>cs_meta := bput keyNextReqID (MetaU64 (req_id r + 1)) (cs_meta s1),
                 cs_requests := bput (req_id r) r (cs_requests s1)\<rparr>"
  note l = lock_facts [OF inv_accounts [OF inv] a lock]
  note g = gets_same_but_accounts [OF l(2)]
  have wf1: "tables_ok E {} s1"
    using inv l(2) by (simp add: chain_inv_def wf_same_but_accounts)
  have live: "domain_live {} s1 (svc_domain_id svc)"
    using wf_service [OF inv_wf [OF inv] svc] act by (simp add: svc_ok_def domain_live_def g)
  have wf': "tables_ok E {} s'"
    unfolding s'
    by (rule wf_put_request_new [OF wf1 _ _ _ _ live])
      (use a room svc in \<open>simp_all add: r k g req_shape_def\<close>)
  have none: "map_of (cs_requests s1) k = None"
  proof (cases "map_of (cs_requests s1) k")
    case (Some q)
    then have "getRequest s1 k = Inr q" by (simp add: getRequest_iff)
    with wf_request [OF wf1 this] k show ?thesis by (simp add: req_ok_def)
  qed
  then have "bsum req_locked (bput k r (cs_requests s1))
      = bsum req_locked (cs_requests s1) + req_locked r"
    by (intro bsum_bput_new) (simp_all add: wf_buckets(2) [OF wf1])
  then have "obligations s' = obligations s1 + unat (amount (svc_price svc))"
    by (simp add: obligations_def s' r req_locked_def req_stakes_def challenge_locked_def voucher_locked_def)
  then have "obligations s' \<le> bal s' moduleEscrowAddr"
    using l(4) inv_solvent [OF inv] obligations_same_but_accounts [OF l(2)] by (simp add: s')
  then show ?thesis
    using wf' l(1,3) by (simp add: chain_inv_def solvent_def s')
qed

subsection \<open>Submitting a result\<close>

lemma applySubmitResult_Inr:
  assumes "applySubmitResult E s signer p h = Inr (s', fin, evs)"
  obtains msg req svc ps s1 evs1 where
    "dec_submit_result E p = Some msg" and "msr_provider msg = signer"
    and "getRequest s (msr_request_id msg) = Inr req" and "req_status req = StatusPending"
    and "getService s (req_service_id req) = Inr svc" and "signer = svc_owner svc"
    and "att_input_hash (res_attestation (msr_result msg)) = req_input_hash req"
    and "h <=s req_deadline req"
    and "matchDomain s ''loading svc domain'' ''domain expects'' ''domain tokenizer''
               (svc_domain_id svc) (res_attestation (msr_result msg)) = Inr ()"
    and "paramsLocked s = Inr ps"
    and "move (Wrapped ''locking provider bond'') E s signer moduleEscrowAddr (amount (p_provider_bond ps)) = Inr s1"
    and "finishSubmit E s1 signer h ps (submitted h (msr_result msg) (p_provider_bond ps) req) evs1 = Inr (s', fin, evs)"
    and "evs1 = [mk_event h (ResultSubmitted
          \<lparr>ers_request_id = req_id req, ers_provider = signer,
           ers_output_hash = res_output_hash (msr_result msg),
           ers_output_uri = res_output_uri (msr_result msg)\<rparr>)]"
proof -
  have "\<not> b <s a \<longleftrightarrow> a <=s b" for a b :: i64
    by (rule signed.not_less)
  with assms show ?thesis
    by (auto simp: applySubmitResult_def Let_def lockBond_move intro!: that)
qed

lemma finishSubmit_Inr:
  "finishSubmit E s signer h ps r evs = Inr (s', fin, evs') \<longleftrightarrow>
   (if p_challenge_window ps = 0
    then fin \<and> (\<exists>s1. pays E [(signer, amount (req_escrow r)), (signer, opt_amount (req_provider_bond r))] s = Inr s1
             \<and> putRequest E s1 (dismissed h r) = Inr s')
         \<and> evs' = evs @ [mk_event h (RequestFinalized
          \<lparr>erf_request_id = req_id r, erf_provider = signer, erf_paid = req_escrow r,
           erf_bond_returned = bond_coin (req_provider_bond r)\<rparr>)]
    else \<not> fin \<and> putRequest E s r = Inr s' \<and> evs' = evs)"
  by (auto simp: finishSubmit_def payBond_pays move_Inr_iff dismissed_def)

lemma finishSubmit_bal:
  assumes "accounts_ok s" and "isValidAddress signer" and "finishSubmit E s signer h ps r evs = Inr (s', fin, evs')"
  shows "bal s' signer = bal s signer
    + (if fin then unat (amount (req_escrow r)) + unat (opt_amount (req_provider_bond r)) else 0)"
proof (cases "p_challenge_window ps = 0")
  case True
  then obtain s1 where fin: "fin"
    and pay: "pays E [(signer, amount (req_escrow r)), (signer, opt_amount (req_provider_bond r))] s = Inr s1"
    and put: "putRequest E s1 (dismissed h r) = Inr s'"
    using assms(3) unfolding finishSubmit_Inr if_P [OF True] by blast
  have "signer \<noteq> moduleEscrowAddr"
    using assms(2) moduleAddr_invalid(1) by blast
  then have "bal s1 signer = bal s signer + unat (amount (req_escrow r)) + unat (opt_amount (req_provider_bond r))"
    using paid_bal(2) [OF pays_paid [OF assms(1) pay]] by simp
  then show ?thesis
    using fin put by (auto simp: putRequest_Inr)
qed (use assms(3) in \<open>auto simp: finishSubmit_Inr putRequest_Inr\<close>)

lemma submitted_simps [simp]:
  "req_id (submitted h res b r) = req_id r" "req_service_id (submitted h res b r) = req_service_id r"
  "req_status (submitted h res b r) = StatusSubmitted" "req_escrow (submitted h res b r) = req_escrow r"
  "req_result (submitted h res b r) = Some res" "req_submitted_at (submitted h res b r) = h"
  by (simp_all add: submitted_def)

lemma submitted_shape:
  assumes "req_shape r" and "req_status r = StatusPending"
  shows "req_shape (submitted h res b r)" and "opt_amount (req_provider_bond (submitted h res b r)) = amount b"
    and "req_locked (submitted h res b r) = req_locked r + unat (amount b)"
    and "req_locked r = unat (amount (req_escrow r))"
  using assms
  by (auto simp: req_shape_def submitted_def isPositive_iff req_locked_def req_stakes_def challenge_locked_def
      voucher_locked_def)

lemma submit_result_facts:
  assumes inv: "chain_inv E {} s" and a: "isValidAddress signer"
    and app: "applySubmitResult E s signer p h = Inr (s', fin, evs)"
    and msg: "dec_submit_result E p = Some msg" and r: "getRequest s (msr_request_id msg) = Inr r"
    and ps: "paramsLocked s = Inr ps"
  shows "chain_inv E {} s'" and "total_supply s' = total_supply s" and "close_frame s s'"
    and "req_status r = StatusPending" and "fin \<longleftrightarrow> p_challenge_window ps = 0"
    and "getRequest s' = (getRequest s)(req_id r := Inr (
           let r1 = submitted h (msr_result msg) (p_provider_bond ps) r in
           if p_challenge_window ps = 0 then dismissed h r1 else r1))"
proof -
  let ?r1 = "submitted h (msr_result msg) (p_provider_bond ps) r"
  obtain s1 evs1 where st: "req_status r = StatusPending"
    and lock: "move (Wrapped ''locking provider bond'') E s signer moduleEscrowAddr (amount (p_provider_bond ps)) = Inr s1"
    and fs: "finishSubmit E s1 signer h ps ?r1 evs1 = Inr (s', fin, evs)"
    using app msg r ps by (elim applySubmitResult_Inr) auto
  have rok: "req_ok {} s (msr_request_id msg) r"
    by (rule wf_request [OF inv_wf [OF inv] r])
  then have id: "getRequest s (req_id r) = Inr r" and shape: "req_shape r"
    using r by (simp_all add: req_ok_def)
  note sub = submitted_shape [OF shape st]
  note l = lock_facts [OF inv_accounts [OF inv] a lock]
  note g = gets_same_but_accounts [OF l(2)]
  show "req_status r = StatusPending" by (rule st)
  show "fin \<longleftrightarrow> p_challenge_window ps = 0"
    using fs by (auto simp: finishSubmit_Inr split: if_splits)
  have goal: "chain_inv E {} s' \<and> total_supply s' = total_supply s \<and> close_frame s s' \<and>
    getRequest s' = (getRequest s)(req_id r := Inr (if p_challenge_window ps = 0 then dismissed h ?r1 else ?r1))"
  proof (cases "p_challenge_window ps = 0")
    case False
    then have "putRequest E s1 ?r1 = Inr s'"
      using fs by (simp add: finishSubmit_Inr)
    from stake [OF inv id _ a lock this] show ?thesis
      using False st sub(1,3) by (simp add: isOpen_def)
  next
    case True
    then obtain s2 where pay: "pays E [(signer, amount (req_escrow r)), (signer, amount (p_provider_bond ps))] s1 = Inr s2"
      and put: "putRequest E s2 (dismissed h ?r1) = Inr s'"
      using fs unfolding finishSubmit_Inr sub(2) submitted_simps by auto
    note p = pays_paid [OF l(1) pay]
    then have same: "same_but_accounts s1 s2" and acc: "accounts_ok s2"
      and tot: "total_supply s2 = total_supply s1"
      by (simp_all add: paid_def)
    have same2: "same_but_accounts s s2"
      by (rule same_but_accounts_trans [OF l(2) same])
    note g2 = gets_same_but_accounts [OF same2]
    have wf2: "tables_ok E {} s2"
      using inv same2 by (simp add: chain_inv_def wf_same_but_accounts)
    have s': "s' = s2\<lparr>cs_requests := bput (req_id r) (dismissed h ?r1) (cs_requests s2)\<rparr>"
      using put by (simp add: putRequest_Inr)
    have "req_ok {} s2 (req_id (dismissed h ?r1)) (dismissed h ?r1)"
      using rok closed_shape(2) [OF sub(1)] by (auto simp: req_ok_def g2)
    then have wf': "tables_ok E {} s'"
      using wf_put_request [OF wf2] s' by fastforce
    have "obligations s' + req_locked r = obligations s"
      using reqs.put_measure [OF put wf_buckets(2) [OF wf2], of r req_locked] id g2
        obligations_same_but_accounts [OF same2]
      by (simp add: obligations_def s' req_locked_def)
    then have "solvent s'"
      using paid_bal(1) [OF p] l(4) sub(4) inv_solvent [OF inv] by (simp add: solvent_def s')
    then have "chain_inv E {} s'"
      using wf' acc by (simp add: chain_inv_def s')
    moreover have "close_frame s s'"
      using same2 by (cases s; cases s2) (simp add: s' close_frame_def same_but_accounts_def)
    ultimately show ?thesis
      using True tot l(3) g2 by (auto simp: s' fun_eq_iff)
  qed
  then show "chain_inv E {} s'" and "total_supply s' = total_supply s" and "close_frame s s'"
    by simp_all
  show "getRequest s' = (getRequest s)(req_id r := Inr (
           let r1 = submitted h (msr_result msg) (p_provider_bond ps) r in
           if p_challenge_window ps = 0 then dismissed h r1 else r1))"
    using goal by (simp add: Let_def)
qed

lemma submit_result_keeps [handler_keeps]:
  assumes "chain_inv E {} s" and "isValidAddress signer" and "applySubmitResult E s signer p h = Inr (s', fin, evs)"
  shows "chain_inv E {} s' \<and> total_supply s' = total_supply s"
proof -
  obtain msg r ps where "dec_submit_result E p = Some msg" "getRequest s (msr_request_id msg) = Inr r"
    "paramsLocked s = Inr ps"
    using assms(3) by (rule applySubmitResult_Inr)
  from submit_result_facts [OF assms this] show ?thesis by simp
qed

subsection \<open>Registering a domain\<close>

lemma applyRegisterDomain_Inr:
  assumes "applyRegisterDomain E s signer p h = Inr (s', k, ev)"
  obtains msg s1 d where
    "dec_register_domain E p = Some msg" and "mrd_authority msg = signer"
    and "authorityLocked s = '''' \<or> authorityLocked s = signer"
    and "s1 = (if authorityLocked s = '''' then s\<lparr>cs_meta := bput keyAuthority (MetaString signer) (cs_meta s)\<rparr> else s)"
    and "k = getMetaUint64 s1 keyNextDomainID"
    and "d = \<lparr>dom_id = k, dom_model_sha256 = mrd_model_sha256 msg, dom_runtime_id = mrd_runtime_id msg,
         dom_hardware_tag = mrd_hardware_tag msg, dom_precision = mrd_precision msg,
         dom_tokenizer_id = mrd_tokenizer_id msg, dom_description = mrd_description msg,
         dom_registered_at = h, dom_active = True,
         dom_voucher_margin = mrd_voucher_margin msg\<rparr>"
    and "0 <=s dom_voucher_margin d"
    and "'''' \<notin> {mrd_model_sha256 msg, mrd_runtime_id msg, mrd_hardware_tag msg, mrd_precision msg}"
    and "s' = s1\<lparr>cs_meta := bput keyNextDomainID (MetaU64 (dom_id d + 1)) (cs_meta s1),
                 cs_domains := bput (dom_id d) d (cs_domains s1)\<rparr>"
proof -
  let ?s1 = "if authorityLocked s = '''' then s\<lparr>cs_meta := bput keyAuthority (MetaString signer) (cs_meta s)\<rparr> else s"
  let ?d = "\<lambda>msg. \<lparr>dom_id = k, dom_model_sha256 = mrd_model_sha256 msg, dom_runtime_id = mrd_runtime_id msg,
         dom_hardware_tag = mrd_hardware_tag msg, dom_precision = mrd_precision msg,
         dom_tokenizer_id = mrd_tokenizer_id msg, dom_description = mrd_description msg,
         dom_registered_at = h, dom_active = True, dom_voucher_margin = mrd_voucher_margin msg\<rparr>"
  obtain msg where "dec_register_domain E p = Some msg" and "mrd_authority msg = signer"
    and "authorityLocked s = '''' \<or> authorityLocked s = signer" and "k = getMetaUint64 ?s1 keyNextDomainID"
    and "0 <=s mrd_voucher_margin msg"
    and "'''' \<notin> {mrd_model_sha256 msg, mrd_runtime_id msg, mrd_hardware_tag msg, mrd_precision msg}"
    and "s' = ?s1\<lparr>cs_meta := bput keyNextDomainID (MetaU64 (k + 1)) (cs_meta ?s1),
                 cs_domains := bput k (?d msg) (cs_domains ?s1)\<rparr>"
    using assms
    by (cases "authorityLocked s = ''''")
      (clarsimp simp: applyRegisterDomain_def Let_def putMeta_def putDomain_Inr signed.not_less)+
  then show ?thesis
    by (intro that [of msg ?s1 "?d msg"]) simp_all
qed

lemma register_domain_keeps [handler_keeps]:
  assumes inv: "chain_inv E {} s"
    and room: "getMetaUint64 s keyNextDomainID < getMetaUint64 s keyNextDomainID + 1"
    and app: "applyRegisterDomain E s signer p h = Inr (s', k, ev)"
  shows "chain_inv E {} s' \<and> total_supply s' = total_supply s"
  using app
proof (rule applyRegisterDomain_Inr)
  fix msg s1 d
  assume s1: "s1 = (if authorityLocked s = '''' then s\<lparr>cs_meta := bput keyAuthority (MetaString signer) (cs_meta s)\<rparr> else s)"
    and k: "k = getMetaUint64 s1 keyNextDomainID"
    and d: "d = \<lparr>dom_id = k, dom_model_sha256 = mrd_model_sha256 msg, dom_runtime_id = mrd_runtime_id msg,
         dom_hardware_tag = mrd_hardware_tag msg, dom_precision = mrd_precision msg,
         dom_tokenizer_id = mrd_tokenizer_id msg, dom_description = mrd_description msg,
         dom_registered_at = h, dom_active = True,
         dom_voucher_margin = mrd_voucher_margin msg\<rparr>"
    and pos: "0 <=s dom_voucher_margin d"
    and s': "s' = s1\<lparr>cs_meta := bput keyNextDomainID (MetaU64 (dom_id d + 1)) (cs_meta s1),
                 cs_domains := bput (dom_id d) d (cs_domains s1)\<rparr>"
  have i1: "chain_inv E {} s1"
    using inv wf_meta_other [of E "{}" s keyAuthority] by (simp add: s1 chain_inv_def solvent_def meta_keys)
  have kk: "getMetaUint64 s1 keyNextDomainID = getMetaUint64 s keyNextDomainID"
    by (simp add: s1)
  have "tables_ok E {} s'"
    unfolding s'
    by (rule wf_put_domain_new [OF inv_wf [OF i1] _ _ pos]) (use room kk in \<open>simp_all add: d k\<close>)
  moreover have "total_supply s1 = total_supply s"
    by (simp add: s1)
  ultimately show ?thesis
    using i1 by (simp add: s' chain_inv_def solvent_def)
qed

subsection \<open>Transfers\<close>

lemma applyTransfer_Inr:
  assumes "applyTransfer E s signer p = Inr (s', ev)"
  obtains msg where "dec_transfer E p = Some msg" and "mt_from msg = signer"
    and "amount (mt_amount msg) \<noteq> 0" and "ev = no_event"
    and "move id E s signer (mt_to msg) (amount (mt_amount msg)) = Inr s'"
  using assms by (auto simp: applyTransfer_def split: option.splits intro!: that)

lemma transfer_keeps [handler_keeps]:
  assumes inv: "chain_inv E D s" and a: "isValidAddress signer" and app: "applyTransfer E s signer p = Inr (s', ev)"
  shows "chain_inv E D s' \<and> total_supply s' = total_supply s"
  using app
proof (rule applyTransfer_Inr)
  fix msg
  assume mv: "move id E s signer (mt_to msg) (amount (mt_amount msg)) = Inr s'"
  note m = move_facts [OF inv_accounts [OF inv] mv]
  have "signer \<noteq> moduleEscrowAddr"
    using a moduleAddr_invalid(1) by blast
  then have "bal s moduleEscrowAddr \<le> bal s' moduleEscrowAddr"
    using m(5) [of moduleEscrowAddr] by (auto split: if_splits)
  then show ?thesis
    using inv m by (simp add: chain_inv_def solvent_def wf_same_but_accounts obligations_same_but_accounts)
qed

end
