(* ===== verification/TxDispute.thy ===== *)
theory TxDispute
  imports TxMarket
begin

text \<open>
  The dispute game (\<open>chain/internal/state/tx.go\<close>): challenging a submitted result, vouching for one of
  the two sides, and the authority's explicit resolution. A challenge and a vouch stake a bond on the
  request (the lemma \<open>stake\<close>); a resolution is one of the two settlements.
\<close>

text \<open>
  \<open>append\<close> on a Go slice: the length of a slice is an \<open>int\<close>, so growing past its largest value panics.
\<close>

definition appendSlice :: "'a list \<Rightarrow> 'a \<Rightarrow> chain_error + 'a list" where
  "appendSlice xs x =
     (if length xs + 1 < 2 ^ 63 then Inr (xs @ [x]) else Inl (Panic ''growslice: len out of range''))"

subsection \<open>Challenges\<close>

definition applyChallenge ::
  "env \<Rightarrow> chain_state \<Rightarrow> string \<Rightarrow> string \<Rightarrow> i64 \<Rightarrow> chain_error + chain_state \<times> event" where
  "applyChallenge E s signer payload height =
     bind_r (decode (dec_challenge E) payload) (\<lambda>msg.
     bind_r (check (mc_challenger msg = signer) (ErrText ''challenger != signer'')) (\<lambda>_.
     bind_r (getRequest s (mc_request_id msg)) (\<lambda>req.
     bind_r (check (req_status req = StatusSubmitted) (Wrapped ''status'' ErrChallengeNotApplicable)) (\<lambda>_.
     bind_r (paramsLocked s) (\<lambda>params.
     bind_r (check (\<not> req_submitted_at req + p_challenge_window params <s height)
               (Wrapped ''now > submitted + window'' ErrChallengeWindowClosed)) (\<lambda>_.
     bind_r (check (att_input_hash (mc_attestation msg) = req_input_hash req) ErrInputHashMismatch) (\<lambda>_.
     case req_result req of
       None \<Rightarrow> Inl (ErrText ''invariant: SUBMITTED request without a result'')
     | Some res \<Rightarrow>
     bind_r (check (att_output_hash (mc_attestation msg) \<noteq> res_output_hash res) ErrChallengeOutputMatches) (\<lambda>_.
     bind_r (getService s (req_service_id req)) (\<lambda>svc.
     bind_r (matchDomain s ''load domain'' ''challenger tuple != service domain''
               ''challenger tokenizer != domain tokenizer'' (svc_domain_id svc) (mc_attestation msg)) (\<lambda>_.
     bind_r (lockBond (Wrapped ''locking challenger bond'') E s signer (p_challenger_bond params)) (\<lambda>s.
     bind_r (appendSlice (req_challenges req)
               \<lparr>ch_challenger = signer, ch_posted_at = height, ch_attestation = mc_attestation msg,
                ch_bond = p_challenger_bond params\<rparr>) (\<lambda>challenges.
     bind_r (putRequest E s (req\<lparr>req_challenges := challenges, req_status := StatusChallenged\<rparr>)) (\<lambda>s.
     Inr (s, mk_event height (Challenged
       \<lparr>ech_request_id = req_id req, ech_challenger = signer,
        ech_challenger_hash = att_output_hash (mc_attestation msg),
        ech_provider_hash = res_output_hash res,
        ech_bond = p_challenger_bond params\<rparr>)))))))))))))))"

subsection \<open>Vouches\<close>

definition challengeResolutionWindowBlocks :: i64 where
  "challengeResolutionWindowBlocks = 20"

definition voucherSide :: "string \<Rightarrow> string \<Rightarrow> string \<Rightarrow> chain_error + bool" where
  "voucherSide providerHash challengerHash outputHash =
     (if outputHash = providerHash then Inr True
      else if outputHash = challengerHash then Inr False
      else Inl (Wrapped ''voucher hash'' ErrVouchHashMismatch))"

definition voucherBond :: "params \<Rightarrow> coin option \<Rightarrow> coin" where
  "voucherBond params providerBond =
     (case providerBond of
        None \<Rightarrow> p_voucher_bond params
      | Some b \<Rightarrow>
          if 0 <s p_voucher_bond_scale_bp params \<and> isPositive b
          then \<lparr>denom = denom b, amount = amount b * p_voucher_bond_scale_bp params div 10000\<rparr>
          else p_voucher_bond params)"

fun hasVouched :: "voucher list \<Rightarrow> string \<Rightarrow> bool" where
  "hasVouched [] signer = False"
| "hasVouched (v # vs) signer = (if v_voucher v = signer then True else hasVouched vs signer)"

definition applyVouch ::
  "env \<Rightarrow> chain_state \<Rightarrow> string \<Rightarrow> string \<Rightarrow> i64 \<Rightarrow> chain_error + chain_state \<times> event" where
  "applyVouch E s signer payload height =
     bind_r (decode (dec_vouch E) payload) (\<lambda>msg.
     bind_r (check (mv_voucher msg = signer) (ErrText ''voucher != signer'')) (\<lambda>_.
     bind_r (getRequest s (mv_request_id msg)) (\<lambda>req.
     bind_r (check (req_status req = StatusChallenged) (Wrapped ''status'' ErrVouchNotApplicable)) (\<lambda>_.
     case (req_challenges req, req_result req) of
       (ch # _, Some res) \<Rightarrow>
     bind_r (check (att_input_hash (mv_attestation msg) = req_input_hash req) ErrInputHashMismatch) (\<lambda>_.
     bind_r (getService s (req_service_id req)) (\<lambda>svc.
     bind_r (matchDomain s ''load domain'' ''voucher tuple != service domain''
               ''voucher tokenizer != domain tokenizer'' (svc_domain_id svc) (mv_attestation msg)) (\<lambda>_.
     bind_r (check (svc_domain_id svc = 0 \<or> voucherEligible s signer (svc_domain_id svc)) ErrVouchNotEligible) (\<lambda>_.
     bind_r (voucherSide (res_output_hash res) (att_output_hash (ch_attestation ch))
               (att_output_hash (mv_attestation msg))) (\<lambda>supportsProvider.
     bind_r (check (\<not> hasVouched (req_vouchers req) signer) ErrVouchDuplicate) (\<lambda>_.
     bind_r (check (\<not> ch_posted_at ch + challengeResolutionWindowBlocks <s height)
               (Wrapped ''resolution window closed'' ErrVouchNotApplicable)) (\<lambda>_.
     bind_r (paramsLocked s) (\<lambda>params.
     let bond = voucherBond params (req_provider_bond req) in
     bind_r (lockBond (Wrapped ''locking voucher bond'') E s signer bond) (\<lambda>s.
     bind_r (appendSlice (req_vouchers req)
               \<lparr>v_voucher = signer, v_posted_at = height, v_attestation = mv_attestation msg,
                v_bond = bond, v_supports_provider = supportsProvider\<rparr>) (\<lambda>vouchers.
     bind_r (putRequest E s (req\<lparr>req_vouchers := vouchers\<rparr>)) (\<lambda>s.
     Inr (s, mk_event height (Vouched
       \<lparr>evo_request_id = req_id req, evo_voucher = signer,
        evo_output_hash = att_output_hash (mv_attestation msg),
        evo_supports_provider = supportsProvider, evo_bond = bond\<rparr>)))))))))))))
     | _ \<Rightarrow> Inl (ErrText ''invariant: CHALLENGED without challenges or result'')))))"

subsection \<open>Resolution by the authority\<close>

definition requireAuthority :: "chain_state \<Rightarrow> string \<Rightarrow> chain_error + unit" where
  "requireAuthority s signer =
     check (\<not> (authorityLocked s = '''' \<or> signer \<noteq> authorityLocked s))
       (Wrapped ''signer != authority'' ErrUnauthorized)"

definition applyResolveChallenge ::
  "env \<Rightarrow> chain_state \<Rightarrow> string \<Rightarrow> string \<Rightarrow> i64 \<Rightarrow> chain_error + chain_state \<times> event list" where
  "applyResolveChallenge E s signer payload height =
     bind_r (decode (dec_resolve_challenge E) payload) (\<lambda>msg.
     bind_r (requireAuthority s signer) (\<lambda>_.
     bind_r (check (mrc_authority msg = signer) (ErrText ''authority field != signer'')) (\<lambda>_.
     bind_r (getRequest s (mrc_request_id msg)) (\<lambda>r.
     bind_r (check (req_status r = StatusChallenged) (Wrapped ''status'' ErrChallengeNotApplicable)) (\<lambda>_.
     if mrc_decision msg = ''dismiss'' then
       bind_r (executeDismiss E height s r) (\<lambda>(s, ev). Inr (s, [ev]))
     else if mrc_decision msg = ''slash'' then
       bind_r (executeSlash E height s r) (\<lambda>(s, ev). Inr (s, [ev]))
     else Inl (Wrapped ''got'' ErrInvalidDecision))))))"

subsection \<open>What a challenge does\<close>

lemma appendSlice_Inr [simp]: "appendSlice xs x = Inr ys \<longleftrightarrow> length xs + 1 < 2 ^ 63 \<and> ys = xs @ [x]"
  by (auto simp: appendSlice_def)

definition challenged :: "challenge \<Rightarrow> inference_request \<Rightarrow> inference_request" where
  "challenged ch r = r\<lparr>req_challenges := req_challenges r @ [ch], req_status := StatusChallenged\<rparr>"

lemma applyChallenge_Inr:
  assumes "applyChallenge E s signer p h = Inr (s', ev)"
  obtains msg req res svc ps s1 ch where
    "dec_challenge E p = Some msg" and "mc_challenger msg = signer"
    and "getRequest s (mc_request_id msg) = Inr req" and "req_status req = StatusSubmitted"
    and "req_result req = Some res" and "getService s (req_service_id req) = Inr svc"
    and "paramsLocked s = Inr ps" and "h <=s req_submitted_at req + p_challenge_window ps"
    and "att_input_hash (mc_attestation msg) = req_input_hash req"
    and "att_output_hash (mc_attestation msg) \<noteq> res_output_hash res"
    and "matchDomain s ''load domain'' ''challenger tuple != service domain''
               ''challenger tokenizer != domain tokenizer'' (svc_domain_id svc) (mc_attestation msg) = Inr ()"
    and "move (Wrapped ''locking challenger bond'') E s signer moduleEscrowAddr (amount (p_challenger_bond ps)) = Inr s1"
    and "ch = \<lparr>ch_challenger = signer, ch_posted_at = h, ch_attestation = mc_attestation msg,
               ch_bond = p_challenger_bond ps\<rparr>"
    and "putRequest E s1 (challenged ch req) = Inr s'"
    and "ev = mk_event h (Challenged
       \<lparr>ech_request_id = req_id req, ech_challenger = signer,
        ech_challenger_hash = att_output_hash (mc_attestation msg),
        ech_provider_hash = res_output_hash res, ech_bond = p_challenger_bond ps\<rparr>)"
  using assms
  by (clarsimp simp: applyChallenge_def Let_def lockBond_move signed.not_less split: option.splits)
    (rule that, (assumption | rule refl | simp add: challenged_def)+)

lemma challenged_shape:
  assumes "req_shape r" and "req_status r = StatusSubmitted" and "isValidAddress (ch_challenger ch)"
  shows "req_shape (challenged ch r)" and "req_locked (challenged ch r) = req_locked r + unat (amount (ch_bond ch))"
  using assms by (auto simp: req_shape_def challenged_def req_locked_def req_stakes_def challenge_locked_def)

lemma challenge_facts:
  assumes inv: "chain_inv E {} s" and a: "isValidAddress signer"
    and app: "applyChallenge E s signer p h = Inr (s', ev)"
    and msg: "dec_challenge E p = Some msg" and r: "getRequest s (mc_request_id msg) = Inr r"
    and ps: "paramsLocked s = Inr ps"
  shows "chain_inv E {} s'" and "total_supply s' = total_supply s" and "close_frame s s'"
    and "getRequest s' = (getRequest s)(req_id r := Inr (challenged
           \<lparr>ch_challenger = signer, ch_posted_at = h, ch_attestation = mc_attestation msg,
            ch_bond = p_challenger_bond ps\<rparr> r))"
    and "req_status r = StatusSubmitted"
proof -
  let ?ch = "\<lparr>ch_challenger = signer, ch_posted_at = h, ch_attestation = mc_attestation msg,
              ch_bond = p_challenger_bond ps\<rparr>"
  obtain s1 where st: "req_status r = StatusSubmitted"
    and lock: "move (Wrapped ''locking challenger bond'') E s signer moduleEscrowAddr (amount (p_challenger_bond ps)) = Inr s1"
    and put: "putRequest E s1 (challenged ?ch r) = Inr s'"
    using app msg r ps by (elim applyChallenge_Inr) auto
  have rok: "req_ok {} s (mc_request_id msg) r"
    by (rule wf_request [OF inv_wf [OF inv] r])
  then have id: "getRequest s (req_id r) = Inr r" and shape: "req_shape r"
    using r by (simp_all add: req_ok_def)
  have new: "req_shape (challenged ?ch r)" "req_locked (challenged ?ch r) = req_locked r + unat (amount (p_challenger_bond ps))"
    using challenged_shape [OF shape st, of ?ch] a by simp_all
  have "isOpen r" using st by (simp add: isOpen_def)
  note st4 = stake [OF inv id this a lock put _ _ new(1)]
  show "chain_inv E {} s'" and "total_supply s' = total_supply s" and "close_frame s s'"
    and "getRequest s' = (getRequest s)(req_id r := Inr (challenged ?ch r))"
    using st4 new(2) by (simp_all add: challenged_def)
  show "req_status r = StatusSubmitted" by (rule st)
qed

lemma challenge_keeps [handler_keeps]:
  assumes "chain_inv E {} s" and "isValidAddress signer" and "applyChallenge E s signer p h = Inr (s', ev)"
  shows "chain_inv E {} s' \<and> total_supply s' = total_supply s"
proof -
  obtain msg r ps where "dec_challenge E p = Some msg" "getRequest s (mc_request_id msg) = Inr r"
    "paramsLocked s = Inr ps"
    using assms(3) by (rule applyChallenge_Inr)
  from challenge_facts [OF assms this] show ?thesis by simp
qed

subsection \<open>What a vouch does\<close>

lemma hasVouched_iff: "hasVouched vs a \<longleftrightarrow> a \<in> set (map v_voucher vs)"
  by (induction vs) auto

definition vouched :: "voucher \<Rightarrow> inference_request \<Rightarrow> inference_request" where
  "vouched v r = r\<lparr>req_vouchers := req_vouchers r @ [v]\<rparr>"

lemma applyVouch_Inr:
  assumes "applyVouch E s signer p h = Inr (s', ev)"
  obtains msg req ch chs res svc ps s1 side v where
    "dec_vouch E p = Some msg" and "mv_voucher msg = signer"
    and "getRequest s (mv_request_id msg) = Inr req" and "req_status req = StatusChallenged"
    and "req_challenges req = ch # chs" and "req_result req = Some res"
    and "att_input_hash (mv_attestation msg) = req_input_hash req"
    and "getService s (req_service_id req) = Inr svc"
    and "matchDomain s ''load domain'' ''voucher tuple != service domain''
               ''voucher tokenizer != domain tokenizer'' (svc_domain_id svc) (mv_attestation msg) = Inr ()"
    and "svc_domain_id svc = 0 \<or> voucherEligible s signer (svc_domain_id svc)"
    and "voucherSide (res_output_hash res) (att_output_hash (ch_attestation ch))
           (att_output_hash (mv_attestation msg)) = Inr side"
    and "signer \<notin> set (map v_voucher (req_vouchers req))"
    and "h <=s ch_posted_at ch + challengeResolutionWindowBlocks"
    and "paramsLocked s = Inr ps"
    and "move (Wrapped ''locking voucher bond'') E s signer moduleEscrowAddr
           (amount (voucherBond ps (req_provider_bond req))) = Inr s1"
    and "length (req_vouchers req) + 1 < 2 ^ 63"
    and "v = \<lparr>v_voucher = signer, v_posted_at = h, v_attestation = mv_attestation msg,
              v_bond = voucherBond ps (req_provider_bond req), v_supports_provider = side\<rparr>"
    and "putRequest E s1 (vouched v req) = Inr s'"
  using assms
  by (clarsimp simp: applyVouch_def,
      clarsimp simp: Let_def lockBond_move signed.not_less hasVouched_iff split: option.split_asm list.split_asm)
    (rule that, (assumption | rule refl | simp add: vouched_def)+)

lemma vouched_shape:
  assumes "req_shape r" and "req_status r = StatusChallenged" and "isValidAddress (v_voucher v)"
    and "v_voucher v \<notin> set (map v_voucher (req_vouchers r))" and "length (req_vouchers r) + 1 < 2 ^ 63"
  shows "req_shape (vouched v r)" and "req_locked (vouched v r) = req_locked r + unat (amount (v_bond v))"
  using assms by (auto simp: req_shape_def vouched_def req_locked_def req_stakes_def voucher_locked_def)

lemma vouch_facts:
  assumes inv: "chain_inv E {} s" and a: "isValidAddress signer"
    and app: "applyVouch E s signer p h = Inr (s', ev)"
    and msg: "dec_vouch E p = Some msg" and r: "getRequest s (mv_request_id msg) = Inr r"
    and ps: "paramsLocked s = Inr ps"
  shows "chain_inv E {} s'" and "total_supply s' = total_supply s" and "close_frame s s'"
    and "req_status r = StatusChallenged" and "signer \<notin> set (map v_voucher (req_vouchers r))"
    and "\<exists>side. getRequest s' = (getRequest s)(req_id r := Inr (vouched
           \<lparr>v_voucher = signer, v_posted_at = h, v_attestation = mv_attestation msg,
            v_bond = voucherBond ps (req_provider_bond r), v_supports_provider = side\<rparr> r))"
proof -
  obtain s1 side where st: "req_status r = StatusChallenged"
    and fresh: "signer \<notin> set (map v_voucher (req_vouchers r))"
    and lock: "move (Wrapped ''locking voucher bond'') E s signer moduleEscrowAddr
           (amount (voucherBond ps (req_provider_bond r))) = Inr s1"
    and len: "length (req_vouchers r) + 1 < 2 ^ 63"
    and put: "putRequest E s1 (vouched \<lparr>v_voucher = signer, v_posted_at = h, v_attestation = mv_attestation msg,
              v_bond = voucherBond ps (req_provider_bond r), v_supports_provider = side\<rparr> r) = Inr s'"
    using app msg r ps by (elim applyVouch_Inr) auto
  let ?v = "\<lparr>v_voucher = signer, v_posted_at = h, v_attestation = mv_attestation msg,
              v_bond = voucherBond ps (req_provider_bond r), v_supports_provider = side\<rparr>"
  have rok: "req_ok {} s (mv_request_id msg) r"
    by (rule wf_request [OF inv_wf [OF inv] r])
  then have id: "getRequest s (req_id r) = Inr r" and shape: "req_shape r"
    using r by (simp_all add: req_ok_def)
  have new: "req_shape (vouched ?v r)"
    "req_locked (vouched ?v r) = req_locked r + unat (amount (voucherBond ps (req_provider_bond r)))"
    using vouched_shape [OF shape st, of ?v] a fresh len by simp_all
  have "isOpen r" using st by (simp add: isOpen_def)
  note st4 = stake [OF inv id this a lock put _ _ new(1)]
  show "chain_inv E {} s'" and "total_supply s' = total_supply s" and "close_frame s s'"
    using st4 new(2) by (simp_all add: vouched_def)
  have "getRequest s' = (getRequest s)(req_id r := Inr (vouched ?v r))"
    using st4(4) new(2) by (simp add: vouched_def)
  then show "\<exists>side. getRequest s' = (getRequest s)(req_id r := Inr (vouched
           \<lparr>v_voucher = signer, v_posted_at = h, v_attestation = mv_attestation msg,
            v_bond = voucherBond ps (req_provider_bond r), v_supports_provider = side\<rparr> r))"
    by blast
qed (use assms in \<open>auto elim!: applyVouch_Inr\<close>)

lemma vouch_keeps [handler_keeps]:
  assumes "chain_inv E {} s" and "isValidAddress signer" and "applyVouch E s signer p h = Inr (s', ev)"
  shows "chain_inv E {} s' \<and> total_supply s' = total_supply s"
proof -
  obtain msg r ps where "dec_vouch E p = Some msg" "getRequest s (mv_request_id msg) = Inr r"
    "paramsLocked s = Inr ps"
    using assms(3) by (rule applyVouch_Inr)
  from vouch_facts [OF assms this] show ?thesis by simp
qed

subsection \<open>What a resolution does\<close>

lemma requireAuthority_Inr:
  "requireAuthority s signer = Inr () \<longleftrightarrow> signer \<noteq> '''' \<and> authorityLocked s = signer"
  by (auto simp: requireAuthority_def)

lemma applyResolveChallenge_Inr:
  assumes "applyResolveChallenge E s signer p h = Inr (s', evs)"
  obtains msg r ev where
    "dec_resolve_challenge E p = Some msg" and "requireAuthority s signer = Inr ()"
    and "mrc_authority msg = signer" and "getRequest s (mrc_request_id msg) = Inr r"
    and "req_status r = StatusChallenged" and "evs = [ev]"
    and "mrc_decision msg = ''dismiss'' \<and> executeDismiss E h s r = Inr (s', ev)
       \<or> mrc_decision msg = ''slash'' \<and> executeSlash E h s r = Inr (s', ev)"
  using assms by (auto simp: applyResolveChallenge_def split: if_splits intro!: that)

lemma resolve_keeps [handler_keeps]:
  assumes inv: "chain_inv E {} s" and app: "applyResolveChallenge E s signer p h = Inr (s', evs)"
  shows "chain_inv E {} s' \<and> total_supply s' = total_supply s"
  using app
proof (rule applyResolveChallenge_Inr)
  fix msg r ev
  assume r: "getRequest s (mrc_request_id msg) = Inr r" and st: "req_status r = StatusChallenged"
    and run: "mrc_decision msg = ''dismiss'' \<and> executeDismiss E h s r = Inr (s', ev)
       \<or> mrc_decision msg = ''slash'' \<and> executeSlash E h s r = Inr (s', ev)"
  have id: "getRequest s (req_id r) = Inr r"
    using r wf_request [OF inv_wf [OF inv] r] by (simp add: req_ok_def)
  obtain svc where svc: "getService s (req_service_id r) = Inr svc"
    by (rule wf_request_service [OF inv_wf [OF inv] r])
  show ?thesis
    using run dismiss.step(1,3) [OF inv id st svc] slash.step(1,3) [OF inv id st svc] by blast
qed

end
