(* ===== verification/TxLifecycle.thy ===== *)
theory TxLifecycle
  imports TxDispute
begin

text \<open>
  The end of services and domains (\<open>chain/internal/state/tx.go\<close>): updating a service, taking it offline
  with the refund or the forfeit of its registration bond, and the authority's deactivation of a
  verification domain, which cascades: every active service of the domain is retired with its bond
  refunded and every open request on those services is voided.
\<close>

subsection \<open>Updating and deactivating a service\<close>

definition applyUpdateService ::
  "env \<Rightarrow> chain_state \<Rightarrow> string \<Rightarrow> string \<Rightarrow> i64 \<Rightarrow> chain_error + chain_state \<times> event" where
  "applyUpdateService E s signer payload height =
     bind_r (decode (dec_update_service E) payload) (\<lambda>msg.
     bind_r (check (mus_owner msg = signer) (ErrText ''owner field != signer'')) (\<lambda>_.
     bind_r (getService s (mus_service_id msg)) (\<lambda>svc.
     bind_r (check (svc_owner svc = signer) ErrNotOwner) (\<lambda>_.
     bind_r (check (svc_active svc) ErrServiceInactive) (\<lambda>_.
     bind_r (check (\<not> (\<not> isValid (mus_price msg) \<or> \<not> isPositive (mus_price msg))) ErrZeroPrice) (\<lambda>_.
     bind_r (paramsLocked s) (\<lambda>params.
     bind_r (check (\<not> isLT (mus_price msg) (p_min_service_price params)) (Wrapped ''below min'' ErrZeroPrice)) (\<lambda>_.
     let svc' = svc\<lparr>svc_description := mus_description msg, svc_price := mus_price msg\<rparr> in
     bind_r (putService E s svc') (\<lambda>s.
     Inr (s, mk_event height (ServiceUpdated
       \<lparr>esu_service_id = svc_id svc', esu_owner = svc_owner svc',
        esu_description = svc_description svc', esu_price = svc_price svc'\<rparr>)))))))))))"

definition retired :: "service \<Rightarrow> service" where
  "retired svc = svc\<lparr>svc_active := False, svc_registration_bond := zero_coin\<rparr>"

text \<open>The registration bond is refunded after the minimal lifetime and swept to the treasury before.\<close>

definition settleServiceBond ::
  "env \<Rightarrow> chain_state \<Rightarrow> params \<Rightarrow> service \<Rightarrow> i64 \<Rightarrow> chain_error + chain_state \<times> coin" where
  "settleServiceBond E s params svc height =
     (if isPositive (svc_registration_bond svc) then
        if p_min_service_lifetime params <=s height - svc_created_at svc then
          bind_r (move (Wrapped ''releasing registration bond'') E s moduleEscrowAddr (svc_owner svc)
                    (amount (svc_registration_bond svc))) (\<lambda>s. Inr (s, svc_registration_bond svc))
        else
          bind_r (move (Wrapped ''sweeping forfeit bond to treasury'') E s moduleEscrowAddr moduleTreasuryAddr
                    (amount (svc_registration_bond svc))) (\<lambda>s. Inr (s, zero_coin))
      else Inr (s, zero_coin))"

definition applyDeactivateService ::
  "env \<Rightarrow> chain_state \<Rightarrow> string \<Rightarrow> string \<Rightarrow> i64 \<Rightarrow> chain_error + chain_state \<times> event" where
  "applyDeactivateService E s signer payload height =
     bind_r (decode (dec_deactivate_service E) payload) (\<lambda>msg.
     bind_r (check (mds_owner msg = signer) (ErrText ''owner field != signer'')) (\<lambda>_.
     bind_r (getService s (mds_service_id msg)) (\<lambda>svc.
     bind_r (check (svc_owner svc = signer) ErrNotOwner) (\<lambda>_.
     bind_r (check (svc_active svc) ErrServiceAlreadyInactive) (\<lambda>_.
     bind_r (paramsLocked s) (\<lambda>params.
     bind_r (settleServiceBond E s params svc height) (\<lambda>(s, bondRefunded).
     bind_r (putService E s (retired svc)) (\<lambda>s.
     Inr (s, mk_event height (ServiceDeactivated
       \<lparr>esd_service_id = svc_id svc, esd_owner = svc_owner svc,
        esd_bond_refunded = bondRefunded\<rparr>))))))))))"

subsection \<open>Deactivating a domain\<close>

fun affectedServiceIDs :: "(u64 \<times> service) list \<Rightarrow> u64 \<Rightarrow> u64 list" where
  "affectedServiceIDs [] domainID = []"
| "affectedServiceIDs (kv # cur) domainID =
     (if svc_domain_id (snd kv) = domainID then svc_id (snd kv) # affectedServiceIDs cur domainID
      else affectedServiceIDs cur domainID)"

fun deactivateServices ::
  "env \<Rightarrow> i64 \<Rightarrow> u64 list \<Rightarrow> chain_state \<Rightarrow> event list \<Rightarrow> chain_error + chain_state \<times> event list" where
  "deactivateServices E height [] s events = Inr (s, events)"
| "deactivateServices E height (sid # sids) s events =
     bind_r (getService s sid) (\<lambda>svc.
     if \<not> svc_active svc then deactivateServices E height sids s events
     else
       bind_r (payBond (Wrapped ''refunding service bond on domain void'') E s moduleEscrowAddr
                 (svc_owner svc) (Some (svc_registration_bond svc))) (\<lambda>(s, bondRefunded).
       bind_r (putService E s (retired svc)) (\<lambda>s.
       deactivateServices E height sids s (events @ [mk_event height (ServiceDeactivated
         \<lparr>esd_service_id = svc_id svc, esd_owner = svc_owner svc,
          esd_bond_refunded = bondRefunded\<rparr>)]))))"

fun requestsToVoid :: "(u64 \<times> inference_request) list \<Rightarrow> u64 list \<Rightarrow> inference_request list" where
  "requestsToVoid [] affected = []"
| "requestsToVoid (kv # cur) affected =
     (let r = snd kv in
      if req_service_id r \<notin> set affected then requestsToVoid cur affected
      else if isOpen r then r # requestsToVoid cur affected
      else requestsToVoid cur affected)"

definition applyDeactivateDomain ::
  "env \<Rightarrow> chain_state \<Rightarrow> string \<Rightarrow> string \<Rightarrow> i64 \<Rightarrow> chain_error + chain_state \<times> event list" where
  "applyDeactivateDomain E s signer payload height =
     bind_r (decode (dec_deactivate_domain E) payload) (\<lambda>msg.
     bind_r (requireAuthority s signer) (\<lambda>_.
     bind_r (check (mdd_authority msg = signer) (ErrText ''authority field != signer'')) (\<lambda>_.
     bind_r (getDomain s (mdd_domain_id msg)) (\<lambda>d.
     bind_r (check (dom_active d) ErrDomainInactive) (\<lambda>_.
     bind_r (putDomain E s (d\<lparr>dom_active := False\<rparr>)) (\<lambda>s.
     let affected = affectedServiceIDs (cs_services s) (dom_id d) in
     bind_r (deactivateServices E height affected s []) (\<lambda>(s, serviceEvents).
     bind_r (settleLoop (executeVoidDueToDomain E height) (requestsToVoid (cs_requests s) affected) s [])
       (\<lambda>(s, voidEvents).
     Inr (s, [mk_event height (DomainDeactivated
                \<lparr>edd_domain_id = dom_id d, edd_authority = signer,
                 edd_services_deactivated = int (length serviceEvents),
                 edd_requests_voided = int (length voidEvents)\<rparr>)]
             @ serviceEvents @ voidEvents)))))))))"

subsection \<open>What an update does\<close>

lemma applyUpdateService_Inr:
  assumes "applyUpdateService E s signer p h = Inr (s', ev)"
  obtains msg svc where "dec_update_service E p = Some msg" and "mus_owner msg = signer"
    and "getService s (mus_service_id msg) = Inr svc" and "svc_owner svc = signer" and "svc_active svc"
    and "denom (mus_price msg) \<noteq> ''''" and "amount (mus_price msg) \<noteq> 0"
    and "putService E s (svc\<lparr>svc_description := mus_description msg, svc_price := mus_price msg\<rparr>) = Inr s'"
  using assms by (clarsimp simp: applyUpdateService_def Let_def isPositive_iff isValid_def)

lemma service_id:
  "chain_inv E D s \<Longrightarrow> getService s k = Inr svc \<Longrightarrow> svc_id svc = k"
  using wf_service [OF inv_wf] by (simp add: svc_ok_def)

lemma update_service_keeps [handler_keeps]:
  assumes inv: "chain_inv E D s" and app: "applyUpdateService E s signer p h = Inr (s', ev)"
  shows "chain_inv E D s' \<and> total_supply s' = total_supply s"
  using app
proof (rule applyUpdateService_Inr)
  fix msg and svc :: service
  let ?svc = "svc\<lparr>svc_description := mus_description msg, svc_price := mus_price msg\<rparr>"
  assume svc: "getService s (mus_service_id msg) = Inr svc" and act: "svc_active svc"
    and put: "putService E s ?svc = Inr s'"
  have id: "getService s (svc_id ?svc) = Inr svc"
    using svc service_id [OF inv svc] by simp
  have s': "s' = s\<lparr>cs_services := bput (svc_id ?svc) ?svc (cs_services s),
                 cs_svc_by_name := bput (svc_name ?svc) (svc_id ?svc) (cs_svc_by_name s)\<rparr>"
    using put by (simp add: putService_Inr)
  have "tables_ok E D s'"
    unfolding s' by (rule wf_put_service_upd [OF inv_wf [OF inv] id]) (simp_all add: act)
  moreover have "bsum svc_locked (cs_services s') + svc_locked svc = bsum svc_locked (cs_services s) + svc_locked ?svc"
    by (rule svcs.put_measure [OF put wf_buckets(1) [OF inv_wf [OF inv]] id])
  then have "obligations s' = obligations s"
    by (simp add: obligations_def s' svc_locked_def)
  ultimately show ?thesis
    using inv by (simp add: chain_inv_def solvent_def s')
qed

subsection \<open>Retiring a service\<close>

lemma retired_simps [simp]:
  "svc_id (retired v) = svc_id v" "svc_name (retired v) = svc_name v" "svc_owner (retired v) = svc_owner v"
  "svc_domain_id (retired v) = svc_domain_id v" "\<not> svc_active (retired v)"
  "svc_registration_bond (retired v) = zero_coin"
  by (simp_all add: retired_def)

lemma retire:
  assumes inv: "chain_inv E D s" and svc: "getService s (svc_id v) = Inr v"
    and pay: "pays E [(a, amount (svc_registration_bond v))] s = Inr s1"
    and put: "putService E s1 (retired v) = Inr s'"
  shows "chain_inv E D s'" and "total_supply s' = total_supply s"
    and "getService s' = (getService s)(svc_id v := Inr (retired v))"
    and "cs_requests s' = cs_requests s" and "cs_domains s' = cs_domains s" and "cs_meta s' = cs_meta s"
    and "cs_nonces s' = cs_nonces s"
    and "paid [(a, amount (svc_registration_bond v))] s s1 \<and> cs_accounts s' = cs_accounts s1"
proof -
  note p = pays_paid [OF inv_accounts [OF inv] pay]
  then have same: "same_but_accounts s s1" and acc: "accounts_ok s1" and tot: "total_supply s1 = total_supply s"
    by (simp_all add: paid_def)
  note g = gets_same_but_accounts [OF same] and f = same_but_accounts_fields [OF same]
  have wf1: "tables_ok E D s1"
    using inv same by (simp add: chain_inv_def wf_same_but_accounts)
  have svc1: "getService s1 (svc_id (retired v)) = Inr v"
    using svc g by simp
  have s': "s' = s1\<lparr>cs_services := bput (svc_id (retired v)) (retired v) (cs_services s1),
                 cs_svc_by_name := bput (svc_name (retired v)) (svc_id (retired v)) (cs_svc_by_name s1)\<rparr>"
    using put by (simp add: putService_Inr)
  have wf': "tables_ok E D s'"
    unfolding s' by (rule wf_put_service_upd [OF wf1 svc1]) simp_all
  have "obligations s' + svc_locked v = obligations s"
    using svcs.put_measure [OF put wf_buckets(1) [OF wf1] svc1, of svc_locked]
      obligations_same_but_accounts [OF same]
    by (simp add: obligations_def s' svc_locked_def zero_coin_def)
  then have "obligations s' \<le> bal s' moduleEscrowAddr"
    using paid_bal(1) [OF p] inv_solvent [OF inv] by (simp add: s' svc_locked_def)
  then show "chain_inv E D s'"
    using wf' acc by (simp add: chain_inv_def solvent_def s')
  show "getService s' = (getService s)(svc_id v := Inr (retired v))"
    using g by (auto simp: s' fun_eq_iff)
qed (use pays_paid [OF inv_accounts [OF inv] pay] put in
      \<open>auto simp: putService_Inr paid_def dest: same_but_accounts_fields\<close>)

lemma settleServiceBond_Inr:
  "settleServiceBond E s ps svc h = Inr (s', c) \<longleftrightarrow>
   pays E [(if p_min_service_lifetime ps <=s h - svc_created_at svc then svc_owner svc else moduleTreasuryAddr,
            amount (svc_registration_bond svc))] s = Inr s'
   \<and> c = (if p_min_service_lifetime ps <=s h - svc_created_at svc
          then bond_coin (Some (svc_registration_bond svc)) else zero_coin)"
  by (cases "amount (svc_registration_bond svc) = 0")
    (auto simp: settleServiceBond_def isPositive_iff bond_coin_def move_Inr_iff)

lemma applyDeactivateService_Inr:
  assumes "applyDeactivateService E s signer p h = Inr (s', ev)"
  obtains msg svc ps s1 c where "dec_deactivate_service E p = Some msg" and "mds_owner msg = signer"
    and "getService s (mds_service_id msg) = Inr svc" and "svc_owner svc = signer" and "svc_active svc"
    and "paramsLocked s = Inr ps" and "settleServiceBond E s ps svc h = Inr (s1, c)"
    and "putService E s1 (retired svc) = Inr s'"
    and "ev = mk_event h (ServiceDeactivated
       \<lparr>esd_service_id = svc_id svc, esd_owner = svc_owner svc, esd_bond_refunded = c\<rparr>)"
  using assms by (clarsimp simp: applyDeactivateService_def)

lemma deactivate_service_keeps [handler_keeps]:
  assumes inv: "chain_inv E D s" and app: "applyDeactivateService E s signer p h = Inr (s', ev)"
  shows "chain_inv E D s' \<and> total_supply s' = total_supply s"
  using app
proof (rule applyDeactivateService_Inr)
  fix msg svc ps s1 c
  assume svc: "getService s (mds_service_id msg) = Inr svc"
    and pay: "settleServiceBond E s ps svc h = Inr (s1, c)" and put: "putService E s1 (retired svc) = Inr s'"
  have id: "getService s (svc_id svc) = Inr svc"
    using svc service_id [OF inv svc] by simp
  from pay have "pays E [(if p_min_service_lifetime ps <=s h - svc_created_at svc then svc_owner svc
        else moduleTreasuryAddr, amount (svc_registration_bond svc))] s = Inr s1"
    by (simp only: settleServiceBond_Inr)
  from retire [OF inv id this put] show ?thesis by simp
qed

subsection \<open>The cascade, pass by pass\<close>

lemma affectedServiceIDs_eq:
  "(\<And>k v. (k, v) \<in> set cur \<Longrightarrow> svc_id v = k) \<Longrightarrow>
   affectedServiceIDs cur d = map fst (filter (\<lambda>kv. svc_domain_id (snd kv) = d) cur)"
proof (induction cur)
  case (Cons kv cur)
  have "svc_id (snd kv) = fst kv"
    using Cons.prems [of "fst kv" "snd kv"] by simp
  moreover have "affectedServiceIDs cur d = map fst (filter (\<lambda>kv. svc_domain_id (snd kv) = d) cur)"
    using Cons.prems by (intro Cons.IH) simp
  ultimately show ?case by simp
qed simp

lemma affected_facts:
  assumes "tables_ok E D s"
  shows "distinct (affectedServiceIDs (cs_services s) d)"
    and "k \<in> set (affectedServiceIDs (cs_services s) d) \<longleftrightarrow> (\<exists>v. getService s k = Inr v \<and> svc_domain_id v = d)"
proof -
  note b = wf_buckets(1) [OF assms]
  have "svc_id v = k" if "(k, v) \<in> set (cs_services s)" for k v
    using wf_service [OF assms] that svcs.get_listed [OF b] by (simp add: svc_ok_def)
  then have eq: "affectedServiceIDs (cs_services s) d
      = map fst (filter (\<lambda>kv. svc_domain_id (snd kv) = d) (cs_services s))"
    by (rule affectedServiceIDs_eq)
  show "distinct (affectedServiceIDs (cs_services s) d)"
    unfolding eq using bucket_ok_distinct [OF b] by (rule distinct_map_filter)
  show "k \<in> set (affectedServiceIDs (cs_services s) d) \<longleftrightarrow> (\<exists>v. getService s k = Inr v \<and> svc_domain_id v = d)"
    unfolding eq using svcs.get_listed [OF b] by (force simp: image_iff)
qed

lemma requestsToVoid_eq:
  "requestsToVoid cur ids = filter (\<lambda>r. req_service_id r \<in> set ids \<and> isOpen r) (map snd cur)"
  by (induction cur) (auto simp: Let_def)

lemma toVoid_facts:
  assumes "tables_ok E D s"
  shows "distinct (map req_id (requestsToVoid (cs_requests s) ids))"
    and "r \<in> set (requestsToVoid (cs_requests s) ids) \<longleftrightarrow>
         getRequest s (req_id r) = Inr r \<and> req_service_id r \<in> set ids \<and> isOpen r"
  unfolding requestsToVoid_eq by (rule stored_sublist [OF assms])+

lemma retired_inactive:
  assumes "chain_inv E D s" and "getService s k = Inr v" and "\<not> svc_active v"
  shows "retired v = v"
  using wf_service [OF inv_wf [OF assms(1)] assms(2)] assms(3) by (simp add: svc_ok_def retired_def)

lemma deactivateServices_facts:
  assumes "chain_inv E D s" and "deactivateServices E h ids s evs = Inr (s', evs')"
  shows "chain_inv E D s' \<and> total_supply s' = total_supply s \<and> cs_requests s' = cs_requests s
    \<and> cs_domains s' = cs_domains s \<and> cs_meta s' = cs_meta s \<and> cs_nonces s' = cs_nonces s
    \<and> (\<forall>k v. getService s k = Inr v \<longrightarrow> getService s' k = Inr (if k \<in> set ids then retired v else v))
    \<and> (\<forall>k v. getService s' k = Inr v \<longrightarrow> (\<exists>w. getService s k = Inr w))"
  using assms
proof (induction ids arbitrary: s evs)
  case Nil
  then show ?case by simp
next
  case (Cons k ids)
  from Cons.prems(2) obtain v where v: "getService s k = Inr v"
    by (auto split: if_splits)
  have id: "svc_id v = k" by (rule service_id [OF Cons.prems(1) v])
  show ?case
  proof (cases "svc_active v")
    case False
    then have "deactivateServices E h ids s evs = Inr (s', evs')"
      using Cons.prems(2) v by simp
    note ih = Cons.IH [OF Cons.prems(1) this]
    have "retired v = v" by (rule retired_inactive [OF Cons.prems(1) v False])
    then show ?thesis
      using ih v by auto
  next
    case True
    then obtain s1 s2 c where pay: "pays E [(svc_owner v, amount (svc_registration_bond v))] s = Inr s1"
      and put: "putService E s1 (retired v) = Inr s2"
      and rest: "deactivateServices E h ids s2 (evs @ [mk_event h (ServiceDeactivated
         \<lparr>esd_service_id = svc_id v, esd_owner = svc_owner v, esd_bond_refunded = c\<rparr>)]) = Inr (s', evs')"
      using Cons.prems(2) v by (auto simp: payBond_pays simp del: payAll.simps)
    note st = retire [OF Cons.prems(1) _ pay put, unfolded id, OF v]
    note ih = Cons.IH [OF st(1) rest]
    have "getService s' j = Inr (if j \<in> set (k # ids) then retired w else w)" if "getService s j = Inr w" for j w
    proof -
      have "getService s2 j = Inr (if j = k then retired w else w)"
        using that v by (cases "j = k") (simp_all add: st(3))
      then have "getService s' j = Inr (if j \<in> set ids then retired (if j = k then retired w else w)
          else if j = k then retired w else w)"
        using ih by blast
      then show ?thesis by (auto simp: retired_def)
    qed
    moreover have "\<exists>w. getService s j = Inr w" if asm: "getService s' j = Inr w" for j w
    proof -
      obtain w' where "getService s2 j = Inr w'" using ih asm by blast
      then show ?thesis using v by (cases "j = k") (auto simp: st(3))
    qed
    ultimately show ?thesis
      using ih st(2,4,5,6,7) by simp
  qed
qed

lemma deactivateServices_ok:
  assumes "put_accepts E" and "chain_inv E D s" and "\<And>k. k \<in> set ids \<Longrightarrow> \<exists>v. getService s k = Inr v"
  shows "\<exists>s' evs'. deactivateServices E h ids s evs = Inr (s', evs')"
  using assms(2,3)
proof (induction ids arbitrary: s evs)
  case (Cons k ids)
  obtain v where v: "getService s k = Inr v"
    using Cons.prems(2) [of k] by auto
  have vok: "svc_ok E D s k v"
    by (rule wf_service [OF inv_wf [OF Cons.prems(1)] v])
  then have id: "svc_id v = k" by (simp add: svc_ok_def)
  show ?case
  proof (cases "svc_active v")
    case False
    then show ?thesis
      using v Cons.IH [OF Cons.prems(1)] Cons.prems(2) by simp
  next
    case True
    have "unat (amount (svc_registration_bond v)) \<le> bal s moduleEscrowAddr"
      using svc_locked_le [OF v] inv_solvent [OF Cons.prems(1)] by (simp add: svc_locked_def)
    then obtain s1 where pay: "pays E [(svc_owner v, amount (svc_registration_bond v))] s = Inr s1"
      using pays_ok [OF inv_accounts [OF Cons.prems(1)] assms(1),
          of "[(svc_owner v, amount (svc_registration_bond v))]"] vok
      by (auto simp: svc_ok_def addr_okI [OF assms(1)] simp del: payAll.simps)
    obtain s2 where put: "putService E s1 (retired v) = Inr s2"
      using vok assms(1) by (simp add: putService_def bucket_put_def svc_ok_def put_accepts_None)
    note st = retire [OF Cons.prems(1) _ pay put, unfolded id, OF v]
    have "\<exists>v. getService s2 j = Inr v" if "j \<in> set ids" for j
      using Cons.prems(2) [of j] that by (auto simp: st(3))
    then obtain s' evs' where "deactivateServices E h ids s2 (evs @ [mk_event h (ServiceDeactivated
         \<lparr>esd_service_id = svc_id v, esd_owner = svc_owner v,
          esd_bond_refunded = bond_coin (Some (svc_registration_bond v))\<rparr>)]) = Inr (s', evs')"
      using Cons.IH [OF st(1)] by blast
    moreover have "payBond (Wrapped ''refunding service bond on domain void'') E s moduleEscrowAddr
        (svc_owner v) (Some (svc_registration_bond v)) = Inr (s1, bond_coin (Some (svc_registration_bond v)))"
      using pay by (simp only: payBond_pays opt_amount_simps)
    ultimately show ?thesis
      using v True put by simp
  qed
qed simp

lemma wf_domain_off:
  assumes wf: "tables_ok E {} s" and d: "getDomain s (dom_id d) = Inr d"
  shows "tables_ok E {dom_id d} (s\<lparr>cs_domains := bput (dom_id d) (d\<lparr>dom_active := False\<rparr>) (cs_domains s)\<rparr>)"
proof -
  let ?t = "s\<lparr>cs_domains := bput (dom_id d) (d\<lparr>dom_active := False\<rparr>) (cs_domains s)\<rparr>"
  have get: "getDomain ?t k = (if k = dom_id d then Inr (d\<lparr>dom_active := False\<rparr>) else getDomain s k)" for k
    by simp
  have "domain_live {} s j \<Longrightarrow> domain_live {dom_id d} ?t j" for j
    by (auto simp: domain_live_def)
  then have "svc_ok E {} s k v \<Longrightarrow> svc_ok E {dom_id d} ?t k v"
    and "req_ok {} s k r \<Longrightarrow> req_ok {dom_id d} ?t k r" for k v r
    by (fastforce simp: svc_ok_def req_ok_def)+
  moreover have "dom_ok s k d' \<Longrightarrow> dom_ok ?t k d'" and "dom_ok s (dom_id d) d \<Longrightarrow> dom_ok ?t (dom_id d) (d\<lparr>dom_active := False\<rparr>)"
    for k d'
    by (simp_all add: dom_ok_def)
  moreover have "dom_ok s (dom_id d) d"
    by (rule wf_domain [OF wf d])
  moreover have "counters_ok ?t" and "names_ok ?t"
    using wf by (simp_all add: tables_ok_def counters_ok_def names_ok_def)
  ultimately show ?thesis
    using wf unfolding tables_ok_def get by auto
qed

lemma wf_domain_closed:
  assumes wf: "tables_ok E {k} s"
    and "\<And>j v. getService s j = Inr v \<Longrightarrow> svc_domain_id v = k \<Longrightarrow> \<not> svc_active v"
    and "\<And>j r v. getRequest s j = Inr r \<Longrightarrow> getService s (req_service_id r) = Inr v \<Longrightarrow> svc_domain_id v = k \<Longrightarrow>
           terminal (req_status r)"
  shows "tables_ok E {} s"
proof -
  have live: "domain_live {k} s j \<Longrightarrow> j \<noteq> k \<Longrightarrow> domain_live {} s j" for j
    by (auto simp: domain_live_def)
  have "svc_ok E {} s j v" if "getService s j = Inr v" for j v
    using wf_service [OF wf that] assms(2) [OF that] live by (auto simp: svc_ok_def)
  moreover have "req_ok {} s j r" if "getRequest s j = Inr r" for j r
    using wf_request [OF wf that] assms(3) [OF that] live by (auto simp: req_ok_def)
  ultimately show ?thesis
    using wf by (simp add: tables_ok_def)
qed

subsection \<open>The cascade as a whole\<close>

lemma applyDeactivateDomain_Inr:
  assumes "applyDeactivateDomain E s signer p h = Inr (s', evs)"
  obtains msg d s1 s2 sevs vevs where
    "dec_deactivate_domain E p = Some msg" and "requireAuthority s signer = Inr ()"
    and "mdd_authority msg = signer" and "getDomain s (mdd_domain_id msg) = Inr d" and "dom_active d"
    and "putDomain E s (d\<lparr>dom_active := False\<rparr>) = Inr s1"
    and "deactivateServices E h (affectedServiceIDs (cs_services s1) (dom_id d)) s1 [] = Inr (s2, sevs)"
    and "settleLoop (executeVoidDueToDomain E h)
           (requestsToVoid (cs_requests s2) (affectedServiceIDs (cs_services s1) (dom_id d))) s2 [] = Inr (s', vevs)"
  using assms
  by (simp only: applyDeactivateDomain_def Let_def bind_r_Inr_iff decode_Inr check_Inr split_paired_Ex prod.case)
    (elim exE conjE, rule that, (assumption | simp)+)

lemma domain_off_inv:
  assumes inv: "chain_inv E {} s" and d: "getDomain s (dom_id d) = Inr d"
    and put: "putDomain E s (d\<lparr>dom_active := False\<rparr>) = Inr s1"
  shows "chain_inv E {dom_id d} s1" and "total_supply s1 = total_supply s"
    and "getService s1 = getService s" and "getRequest s1 = getRequest s"
    and "getDomain s1 = (getDomain s)(dom_id d := Inr (d\<lparr>dom_active := False\<rparr>))"
    and "cs_meta s1 = cs_meta s" and "cs_nonces s1 = cs_nonces s"
proof -
  have s1: "s1 = s\<lparr>cs_domains := bput (dom_id d) (d\<lparr>dom_active := False\<rparr>) (cs_domains s)\<rparr>"
    using put by (simp add: putDomain_Inr)
  show "chain_inv E {dom_id d} s1"
    using inv wf_domain_off [OF inv_wf [OF inv] d] by (simp add: s1 chain_inv_def solvent_def)
  show "getDomain s1 = (getDomain s)(dom_id d := Inr (d\<lparr>dom_active := False\<rparr>))"
    by (auto simp: s1 fun_eq_iff)
qed (use put in \<open>simp_all add: putDomain_Inr\<close>)

lemma deactivate_domain_facts:
  assumes inv: "chain_inv E {} s" and app: "applyDeactivateDomain E s signer p h = Inr (s', evs)"
    and msg: "dec_deactivate_domain E p = Some msg"
  shows "chain_inv E {} s'" and "total_supply s' = total_supply s"
    and "\<exists>d. getDomain s (mdd_domain_id msg) = Inr d \<and> dom_active d
           \<and> getDomain s' = (getDomain s)(mdd_domain_id msg := Inr (d\<lparr>dom_active := False\<rparr>))"
    and "getService s k = Inr v \<Longrightarrow>
           getService s' k = Inr (if svc_domain_id v = mdd_domain_id msg then retired v else v)"
    and "getRequest s j = Inr r \<Longrightarrow> getService s (req_service_id r) = Inr v \<Longrightarrow>
           getRequest s' j = Inr (if svc_domain_id v = mdd_domain_id msg \<and> isOpen r then refunded h r else r)"
    and "cs_meta s' = cs_meta s" and "cs_nonces s' = cs_nonces s"
    and "getRequest s' j = Inr r \<Longrightarrow> \<exists>q. getRequest s j = Inr q"
proof -
  obtain d s1 s2 sevs vevs where gd: "getDomain s (mdd_domain_id msg) = Inr d" and act: "dom_active d"
    and put: "putDomain E s (d\<lparr>dom_active := False\<rparr>) = Inr s1"
    and p2: "deactivateServices E h (affectedServiceIDs (cs_services s1) (dom_id d)) s1 [] = Inr (s2, sevs)"
    and p3: "settleLoop (executeVoidDueToDomain E h)
           (requestsToVoid (cs_requests s2) (affectedServiceIDs (cs_services s1) (dom_id d))) s2 [] = Inr (s', vevs)"
    using app msg by (elim applyDeactivateDomain_Inr) auto
  let ?ids = "affectedServiceIDs (cs_services s1) (dom_id d)"
  have idd: "dom_id d = mdd_domain_id msg"
    using wf_domain [OF inv_wf [OF inv] gd] by (simp add: dom_ok_def)
  note s1 = domain_off_inv [OF inv gd [folded idd] put]
  note s2 = deactivateServices_facts [OF s1(1) p2]
  then have i2: "chain_inv E {dom_id d} s2" and rq2: "getRequest s2 = getRequest s1"
    and dm2: "getDomain s2 = getDomain s1"
    by (auto simp: getRequest_def getDomain_def fun_eq_iff)
  have ids: "k \<in> set ?ids \<longleftrightarrow> (\<exists>v. getService s k = Inr v \<and> svc_domain_id v = dom_id d)" for k
    by (simp add: affected_facts(2) [OF inv_wf [OF s1(1)]] s1(3))
  note v = toVoid_facts [OF inv_wf [OF i2], where ids = ?ids]
  note s3 = void.loop [OF i2 v(1) _ p3]
  have s3': "chain_inv E {dom_id d} s'" "close_frame s2 s'" "total_supply s' = total_supply s2"
    "\<forall>r \<in> set (requestsToVoid (cs_requests s2) ?ids). getRequest s' (req_id r) = Inr (refunded h r)"
    "\<forall>k. k \<notin> req_id ` set (requestsToVoid (cs_requests s2) ?ids) \<longrightarrow> getRequest s' k = getRequest s2 k"
    using s3 v(2) by blast+
  note g = close_frame_gets [OF s3'(2)] and f = close_frame_fields [OF s3'(2)]
  have svc: "getService s' k = Inr (if svc_domain_id v = dom_id d then retired v else v)"
    if "getService s k = Inr v" for k v
    using s2 that ids [of k] by (simp add: g s1(3))
  have req: "getRequest s' j = Inr (if svc_domain_id v = dom_id d \<and> isOpen r then refunded h r else r)"
    if r: "getRequest s j = Inr r" and sv: "getService s (req_service_id r) = Inr v" for j r v
  proof -
    have id: "req_id r = j"
      using wf_request [OF inv_wf [OF inv] r] by (simp add: req_ok_def)
    have r2: "getRequest s2 j = Inr r"
      using r by (simp add: rq2 s1(4))
    have mem: "r \<in> set (requestsToVoid (cs_requests s2) ?ids) \<longleftrightarrow> svc_domain_id v = dom_id d \<and> isOpen r"
      unfolding v(2) ids using r2 id sv by auto
    show ?thesis
    proof (cases "svc_domain_id v = dom_id d \<and> isOpen r")
      case True
      then show ?thesis using mem s3'(4) id by auto
    next
      case False
      have "j \<notin> req_id ` set (requestsToVoid (cs_requests s2) ?ids)"
      proof
        assume "j \<in> req_id ` set (requestsToVoid (cs_requests s2) ?ids)"
        then obtain q where q: "q \<in> set (requestsToVoid (cs_requests s2) ?ids)" and "j = req_id q"
          by blast
        with r2 have "q = r" unfolding v(2) by simp
        with q mem False show False by simp
      qed
      then show ?thesis using s3'(5) r2 False by auto
    qed
  qed
  have old: "\<exists>w. getService s k = Inr w" if "getService s' k = Inr v" for k v
    using s2 that by (simp add: g s1(3))
  have "tables_ok E {} s'"
  proof (rule wf_domain_closed [OF inv_wf [OF s3'(1)]])
    fix j v assume a: "getService s' j = Inr v" and dv: "svc_domain_id v = dom_id d"
    obtain w where w: "getService s j = Inr w" using old [OF a] by blast
    with svc [OF w] a dv show "\<not> svc_active v" by (auto split: if_splits)
  next
    fix j r v assume a: "getRequest s' j = Inr r" and b: "getService s' (req_service_id r) = Inr v"
      and dv: "svc_domain_id v = dom_id d"
    obtain w where w: "getService s (req_service_id r) = Inr w" using old [OF b] by blast
    have dw: "svc_domain_id w = dom_id d"
      using svc [OF w] b dv by (auto split: if_splits)
    show "terminal (req_status r)"
    proof (cases "j \<in> req_id ` set (requestsToVoid (cs_requests s2) ?ids)")
      case True
      then show ?thesis using s3'(4) a by auto
    next
      case False
      then have r: "getRequest s j = Inr r"
        using s3'(5) a by (simp add: rq2 s1(4))
      then have "getRequest s' j = Inr (if isOpen r then refunded h r else r)"
        using req [OF r w] dw by simp
      then have "isOpen r \<Longrightarrow> r = refunded h r" using a by simp
      then have "isOpen r \<Longrightarrow> req_status r = StatusRefunded" by (metis closed_simps(9))
      then show ?thesis by (cases "terminal (req_status r)") (auto simp: isOpen_iff)
    qed
  qed
  then show "chain_inv E {} s'"
    using s3'(1) by (simp add: chain_inv_def)
  show "total_supply s' = total_supply s" and "cs_meta s' = cs_meta s" and "cs_nonces s' = cs_nonces s"
    using s3'(3) s2 s1 f by simp_all
  show "\<exists>d. getDomain s (mdd_domain_id msg) = Inr d \<and> dom_active d
           \<and> getDomain s' = (getDomain s)(mdd_domain_id msg := Inr (d\<lparr>dom_active := False\<rparr>))"
    using gd act by (simp add: g dm2 s1(5) idd)
  show "getService s k = Inr v \<Longrightarrow>
      getService s' k = Inr (if svc_domain_id v = mdd_domain_id msg then retired v else v)"
    using svc idd by simp
  show "getRequest s j = Inr r \<Longrightarrow> getService s (req_service_id r) = Inr v \<Longrightarrow>
      getRequest s' j = Inr (if svc_domain_id v = mdd_domain_id msg \<and> isOpen r then refunded h r else r)"
    using req idd by simp
  show "\<exists>q. getRequest s j = Inr q" if "getRequest s' j = Inr r"
  proof (cases "j \<in> req_id ` set (requestsToVoid (cs_requests s2) ?ids)")
    case True
    then show ?thesis using v(2) by (auto simp: rq2 s1(4))
  next
    case False
    then show ?thesis using s3'(5) that by (auto simp: rq2 s1(4))
  qed
qed

lemma deactivate_domain_ok:
  assumes E: "put_accepts E" and inv: "chain_inv E {} s"
    and msg: "dec_deactivate_domain E p = Some msg" and auth: "requireAuthority s signer = Inr ()"
    and "mdd_authority msg = signer" and gd: "getDomain s (mdd_domain_id msg) = Inr d" and "dom_active d"
  shows "\<exists>s' evs. applyDeactivateDomain E s signer p h = Inr (s', evs)"
proof -
  have idd: "dom_id d = mdd_domain_id msg"
    using wf_domain [OF inv_wf [OF inv] gd] by (simp add: dom_ok_def)
  obtain s1 where put: "putDomain E s (d\<lparr>dom_active := False\<rparr>) = Inr s1"
    using putDomain_ok [OF E] by blast
  let ?ids = "affectedServiceIDs (cs_services s1) (dom_id d)"
  note s1 = domain_off_inv [OF inv gd [folded idd] put]
  have "\<exists>v. getService s1 k = Inr v" if "k \<in> set ?ids" for k
    using that affected_facts(2) [OF inv_wf [OF s1(1)]] by blast
  then obtain s2 sevs where p2: "deactivateServices E h ?ids s1 [] = Inr (s2, sevs)"
    using deactivateServices_ok [OF E s1(1)] by blast
  have i2: "chain_inv E {dom_id d} s2"
    using deactivateServices_facts [OF s1(1) p2] by simp
  note v = toVoid_facts [OF inv_wf [OF i2], where ids = ?ids]
  obtain s3 vevs where "settleLoop (executeVoidDueToDomain E h) (requestsToVoid (cs_requests s2) ?ids) s2 [] = Inr (s3, vevs)"
    using void.loop_ok [OF E i2 v(1)] v(2) by blast
  then show ?thesis
    using assms put p2 by (simp add: applyDeactivateDomain_def Let_def)
qed

end
