(* ===== verification/EventBus.thy ===== *)
theory EventBus
  imports Types
begin

text \<open>
  The in-memory event bus of the state (\<open>Subscribe\<close> and \<open>emit\<close> in
  \<open>chain/internal/state/state.go\<close>): a replay log bounded to the last 1024 events and a buffered channel
  of 64 events per subscriber. The operations are those of the code, each run without interruption; how
  they interleave is the subject of the theory \<open>BusRace\<close>. The locale \<open>bounded_log\<close> is the contract of
  a log that keeps only its most recent entries.
\<close>

record channel =
  ch_buf :: "event list"
  ch_closed :: bool

text \<open>
  Channels are numbered in the order they were made; \<open>bus_subs\<close> are the registered ones.
  \<open>bus_panic\<close> records that a goroutine has sent on a closed channel or closed one twice, which panics
  in Go: it ends the process, or, in a handler of the HTTP server, the connection.
\<close>

record bus =
  bus_log :: "event list"
  bus_subs :: "nat list"
  bus_chans :: "channel list"
  bus_panic :: bool

definition eventLogLimit :: nat where "eventLogLimit = 1024"
definition channelCapacity :: nat where "channelCapacity = 64"

definition empty_bus :: bus where
  "empty_bus = \<lparr>bus_log = [], bus_subs = [], bus_chans = [], bus_panic = False\<rparr>"

definition logEvent :: "event \<Rightarrow> bus \<Rightarrow> bus" where
  "logEvent e b =
     (let l = bus_log b @ [e] in
      b\<lparr>bus_log := (if length l > eventLogLimit then drop (length l - eventLogLimit) l else l)\<rparr>)"

text \<open>\<open>select { case ch <- e: default: warn }\<close>: never blocks, drops the event if the buffer is full.\<close>

definition trySend :: "event \<Rightarrow> nat \<Rightarrow> bus \<Rightarrow> bus" where
  "trySend e i b =
     (if bus_panic b then b
      else if ch_closed (bus_chans b ! i) then b\<lparr>bus_panic := True\<rparr>
      else if length (ch_buf (bus_chans b ! i)) < channelCapacity
      then b\<lparr>bus_chans := (bus_chans b)[i := (bus_chans b ! i)\<lparr>ch_buf := ch_buf (bus_chans b ! i) @ [e]\<rparr>]\<rparr>
      else b)"

definition emit :: "event \<Rightarrow> bus \<Rightarrow> bus" where
  "emit e b = (let b' = logEvent e b in fold (trySend e) (bus_subs b') b')"

definition emitAll :: "event list \<Rightarrow> bus \<Rightarrow> bus" where
  "emitAll es b = fold emit es b"

definition subscribe :: "bus \<Rightarrow> bus \<times> nat" where
  "subscribe b =
     (b\<lparr>bus_chans := bus_chans b @ [\<lparr>ch_buf = [], ch_closed = False\<rparr>],
        bus_subs := bus_subs b @ [length (bus_chans b)]\<rparr>, length (bus_chans b))"

definition cancel :: "nat \<Rightarrow> bus \<Rightarrow> bus" where
  "cancel i b =
     (if bus_panic b then b
      else if ch_closed (bus_chans b ! i)
      then b\<lparr>bus_subs := filter (\<lambda>j. j \<noteq> i) (bus_subs b), bus_panic := True\<rparr>
      else b\<lparr>bus_subs := filter (\<lambda>j. j \<noteq> i) (bus_subs b),
             bus_chans := (bus_chans b)[i := (bus_chans b ! i)\<lparr>ch_closed := True\<rparr>]\<rparr>)"

definition receive :: "nat \<Rightarrow> bus \<Rightarrow> bus" where
  "receive i b =
     b\<lparr>bus_chans := (bus_chans b)[i := (bus_chans b ! i)\<lparr>ch_buf := tl (ch_buf (bus_chans b ! i))\<rparr>]\<rparr>"

subsection \<open>A log that keeps its most recent entries\<close>

definition lastN :: "nat \<Rightarrow> 'a list \<Rightarrow> 'a list" where
  "lastN n xs = drop (length xs - n) xs"

lemma length_lastN [simp]: "length (lastN n xs) = min n (length xs)"
  by (simp add: lastN_def)

lemma lastN_short: "length xs \<le> n \<Longrightarrow> lastN n xs = xs"
  by (simp add: lastN_def)

lemma lastN_append: "lastN n (lastN n xs @ ys) = lastN n (xs @ ys)"
proof (cases "length xs \<le> n")
  case False
  then have "drop (min n (length xs) + length ys - n) (drop (length xs - n) xs)
      = drop (length xs + length ys - n) xs"
    by (simp add: add.commute)
  with False show ?thesis
    by (simp add: lastN_def)
qed (simp add: lastN_short)

locale bounded_log =
  fixes push :: "'e \<Rightarrow> 'b \<Rightarrow> 'b"
    and log :: "'b \<Rightarrow> 'e list"
    and limit :: nat
  assumes push_log: "log (push e b) = lastN limit (log b @ [e])"
begin

lemma fold_push: "length (log b) \<le> limit \<Longrightarrow> log (fold push es b) = lastN limit (log b @ es)"
proof (induction es arbitrary: b)
  case Nil
  then show ?case by (simp add: lastN_short)
next
  case (Cons e es)
  then show ?case by (simp add: push_log lastN_append)
qed

lemma fold_bounded: "length (log b) \<le> limit \<Longrightarrow> length (log (fold push es b)) \<le> limit"
  by (simp add: fold_push)

end

lemma logEvent_log: "bus_log (logEvent e b) = lastN eventLogLimit (bus_log b @ [e])"
  by (auto simp: logEvent_def lastN_def Let_def)

lemma trySend_frame [simp]:
  "bus_log (trySend e i b) = bus_log b" "bus_subs (trySend e i b) = bus_subs b"
  "length (bus_chans (trySend e i b)) = length (bus_chans b)"
  by (simp_all add: trySend_def)

lemma fold_trySend_frame [simp]:
  "bus_log (fold (trySend e) is b) = bus_log b" "bus_subs (fold (trySend e) is b) = bus_subs b"
  by (induction "is" arbitrary: b) simp_all

interpretation ev: bounded_log emit bus_log eventLogLimit
  by unfold_locales (simp add: emit_def Let_def logEvent_log)

subsection \<open>Sequential use\<close>

definition bus_ok :: "bus \<Rightarrow> bool" where
  "bus_ok b \<longleftrightarrow>
     \<not> bus_panic b \<and> length (bus_log b) \<le> eventLogLimit \<and> distinct (bus_subs b) \<and>
     (\<forall>i \<in> set (bus_subs b). i < length (bus_chans b) \<and> \<not> ch_closed (bus_chans b ! i)) \<and>
     (\<forall>c \<in> set (bus_chans b). length (ch_buf c) \<le> channelCapacity)"

lemma trySend_ok:
  assumes "bus_ok b" and "i \<in> set (bus_subs b)"
  shows "bus_ok (trySend e i b)"
proof -
  have i: "i < length (bus_chans b)" "\<not> ch_closed (bus_chans b ! i)" and "\<not> bus_panic b"
    using assms by (auto simp: bus_ok_def)
  then show ?thesis
    using assms by (auto simp: bus_ok_def trySend_def nth_list_update dest!: set_update_subset_insert [THEN subsetD])
qed

lemma fold_trySend_ok:
  "bus_ok b \<Longrightarrow> set is \<subseteq> set (bus_subs b) \<Longrightarrow> bus_ok (fold (trySend e) is b)"
  by (induction "is" arbitrary: b) (simp_all add: trySend_ok)

lemma emit_ok: "bus_ok b \<Longrightarrow> bus_ok (emit e b)"
proof -
  assume "bus_ok b"
  then have "bus_ok (logEvent e b)"
    using logEvent_log [of e b] by (auto simp: bus_ok_def logEvent_def Let_def)
  then show "bus_ok (emit e b)"
    by (simp add: emit_def Let_def fold_trySend_ok)
qed

lemma emitAll_ok: "bus_ok b \<Longrightarrow> bus_ok (emitAll es b)"
  unfolding emitAll_def by (induction es arbitrary: b) (simp_all add: emit_ok)

end
