(* ===== verification/Submit.thy ===== *)
theory Submit
  imports TxLifecycle EventBus
begin

text \<open>
  Submitting a transaction (\<open>SubmitTx\<close> in \<open>chain/internal/state/tx.go\<close>): the stateless checks of the
  envelope, the nonce, the dispatch to the handler, the nonce increment, all inside one database
  transaction that is rolled back on any error, and the emission of the events afterwards.
\<close>

record receipt =
  rc_type :: string
  rc_new_id :: u64
  rc_finalized :: bool
  rc_pending_event :: event
  rc_pending_events :: "event list"

text \<open>The process: its database and its event bus.\<close>

record node =
  nd_db :: chain_state
  nd_bus :: bus

text \<open>\<open>db.Update\<close>: the new contents are kept only if the function returns no error.\<close>

definition dbUpdate ::
  "(chain_state \<Rightarrow> chain_error + chain_state \<times> 'a) \<Rightarrow> chain_state \<Rightarrow> (chain_error + 'a) \<times> chain_state" where
  "dbUpdate f s = (case f s of Inl e \<Rightarrow> (Inl e, s) | Inr (s', x) \<Rightarrow> (Inr x, s'))"

definition checkEnvelope :: "env \<Rightarrow> signed_tx \<Rightarrow> chain_error + string" where
  "checkEnvelope E t =
     bind_r (map_err (Wrapped ''validate'') (validateBasic t)) (\<lambda>_.
     case hexDecode (tx_pub_key_hex t) of
       None \<Rightarrow> Inl (Wrapped ''pubkey'' ErrInvalidSignature)
     | Some pub \<Rightarrow>
         if length pub \<noteq> 32 then Inl (Wrapped ''pubkey'' ErrInvalidSignature)
         else (case hexDecode (tx_signature_hex t) of
           None \<Rightarrow> Inl (Wrapped ''signature'' ErrInvalidSignature)
         | Some sig \<Rightarrow>
             if length sig \<noteq> 64 then Inl (Wrapped ''signature'' ErrInvalidSignature)
             else (case txCanonicalBytes (encode_tx E) t of
               None \<Rightarrow> Inl (Wrapped ''canonical'' (ErrText ''json''))
             | Some canonical \<Rightarrow>
                 if \<not> ed25519_verify E pub canonical sig then Inl ErrInvalidSignature
                 else Inr (addressFromPubKey (sha256 E) pub))))"

definition one_event :: "string \<Rightarrow> u64 \<Rightarrow> event \<Rightarrow> receipt" where
  "one_event ty k ev =
     \<lparr>rc_type = ty, rc_new_id = k, rc_finalized = False, rc_pending_event = ev, rc_pending_events = []\<rparr>"

definition many_events :: "string \<Rightarrow> bool \<Rightarrow> event list \<Rightarrow> receipt" where
  "many_events ty fin evs =
     \<lparr>rc_type = ty, rc_new_id = 0, rc_finalized = fin, rc_pending_event = no_event, rc_pending_events = evs\<rparr>"

definition dispatch ::
  "env \<Rightarrow> chain_state \<Rightarrow> string \<Rightarrow> signed_tx \<Rightarrow> i64 \<Rightarrow> chain_error + chain_state \<times> receipt" where
  "dispatch E s signer t h =
     (let ty = tx_type t; p = tx_payload t in
      if ty = txRegisterService then
        bind_r (applyRegisterService E s signer p h) (\<lambda>(s, k, ev). Inr (s, one_event ty k ev))
      else if ty = txRequestInference then
        bind_r (applyRequestInference E s signer p h) (\<lambda>(s, k, ev). Inr (s, one_event ty k ev))
      else if ty = txSubmitResult then
        bind_r (applySubmitResult E s signer p h) (\<lambda>(s, fin, evs). Inr (s, many_events ty fin evs))
      else if ty = txTransfer then
        bind_r (applyTransfer E s signer p) (\<lambda>(s, ev). Inr (s, one_event ty 0 ev))
      else if ty = txRegisterDomain then
        bind_r (applyRegisterDomain E s signer p h) (\<lambda>(s, k, ev). Inr (s, one_event ty k ev))
      else if ty = txChallenge then
        bind_r (applyChallenge E s signer p h) (\<lambda>(s, ev). Inr (s, one_event ty 0 ev))
      else if ty = txVouch then
        bind_r (applyVouch E s signer p h) (\<lambda>(s, ev). Inr (s, one_event ty 0 ev))
      else if ty = txUpdateService then
        bind_r (applyUpdateService E s signer p h) (\<lambda>(s, ev). Inr (s, one_event ty 0 ev))
      else if ty = txDeactivateService then
        bind_r (applyDeactivateService E s signer p h) (\<lambda>(s, ev). Inr (s, one_event ty 0 ev))
      else if ty = txDeactivateDomain then
        bind_r (applyDeactivateDomain E s signer p h) (\<lambda>(s, evs). Inr (s, many_events ty False evs))
      else if ty = txResolveChallenge then
        bind_r (applyResolveChallenge E s signer p h) (\<lambda>(s, evs). Inr (s, many_events ty False evs))
      else Inl (ErrText ''unknown tx type''))"

definition runTx :: "env \<Rightarrow> string \<Rightarrow> signed_tx \<Rightarrow> chain_state \<Rightarrow> chain_error + chain_state \<times> receipt" where
  "runTx E signer t s =
     (if tx_nonce t \<noteq> nextNonce s signer then Inl (Wrapped ''expected'' ErrInvalidNonce)
      else bind_r (dispatch E s signer t (heightLocked s)) (\<lambda>(s, rc).
           bind_r (incNonce E s signer) (\<lambda>s. Inr (s, rc))))"

definition pendingOf :: "receipt \<Rightarrow> event list" where
  "pendingOf rc =
     (if ev_type (rc_pending_event rc) \<noteq> '''' then [rc_pending_event rc] else []) @ rc_pending_events rc"

definition submitTx :: "env \<Rightarrow> signed_tx \<Rightarrow> node \<Rightarrow> (chain_error + receipt) \<times> node" where
  "submitTx E t nd =
     (case checkEnvelope E t of
        Inl e \<Rightarrow> (Inl e, nd)
      | Inr signer \<Rightarrow>
          (case dbUpdate (runTx E signer t) (nd_db nd) of
             (Inl e, db) \<Rightarrow> (Inl e, nd\<lparr>nd_db := db\<rparr>)
           | (Inr rc, db) \<Rightarrow> (Inr rc, nd\<lparr>nd_db := db, nd_bus := emitAll (pendingOf rc) (nd_bus nd)\<rparr>)))"

definition accountNonce :: "chain_state \<Rightarrow> string \<Rightarrow> u64" where
  "accountNonce s addr = nextNonce s addr"

subsection \<open>The envelope\<close>

lemma checkEnvelope_Inr:
  "checkEnvelope E t = Inr signer \<longleftrightarrow>
   (\<exists>pub sig canonical. validateBasic t = Inr () \<and> hexDecode (tx_pub_key_hex t) = Some pub \<and> length pub = 32
     \<and> hexDecode (tx_signature_hex t) = Some sig \<and> length sig = 64
     \<and> txCanonicalBytes (encode_tx E) t = Some canonical \<and> ed25519_verify E pub canonical sig
     \<and> signer = addressFromPubKey (sha256 E) pub)"
  by (auto simp: checkEnvelope_def split: option.splits)

definition sha_ok :: "env \<Rightarrow> bool" where
  "sha_ok E \<longleftrightarrow> (\<forall>b. length (sha256 E b) = 32)"

lemma signer_valid: "sha_ok E \<Longrightarrow> checkEnvelope E t = Inr signer \<Longrightarrow> isValidAddress signer"
  by (auto simp: checkEnvelope_Inr sha_ok_def isValidAddress_derived)

subsection \<open>Dispatch\<close>

text \<open>
  What each handler needs in order to keep the invariant: the counters have ids left. An id is 64
  bits wide and is never reused, so this fails only after \<open>2 ^ 64\<close> registrations or requests.
\<close>

definition ids_left :: "chain_state \<Rightarrow> bool" where
  "ids_left s \<longleftrightarrow>
     getMetaUint64 s keyNextSvcID < getMetaUint64 s keyNextSvcID + 1 \<and>
     getMetaUint64 s keyNextReqID < getMetaUint64 s keyNextReqID + 1 \<and>
     getMetaUint64 s keyNextDomainID < getMetaUint64 s keyNextDomainID + 1"

lemma dispatch_keeps:
  assumes "chain_inv E {} s" and "isValidAddress signer" and "ids_left s"
    and "dispatch E s signer t h = Inr (s', rc)"
  shows "chain_inv E {} s' \<and> total_supply s' = total_supply s"
proof -
  have d: "applyDeactivateDomain E s signer p h = Inr (s', evs) \<Longrightarrow>
      chain_inv E {} s' \<and> total_supply s' = total_supply s" for p evs
    using deactivate_domain_facts(1,2) [OF assms(1)] by (meson applyDeactivateDomain_Inr)
  show ?thesis
    using assms d
    by (simp only: dispatch_def Let_def ids_left_def split: if_split_asm)
      (auto dest: handler_keeps)
qed

lemma incNonce_Inr:
  "incNonce E s a = Inr s' \<longleftrightarrow>
   put_err E BktNonces (string_bytes a) = None \<and>
   s' = s\<lparr>cs_nonces := bput a (nextNonce s a + 1) (cs_nonces s)\<rparr>"
  by (auto simp: incNonce_def)

lemma incNonce_keeps: "chain_inv E D s \<Longrightarrow> incNonce E s a = Inr s' \<Longrightarrow> chain_inv E D s' \<and> total_supply s' = total_supply s"
  by (auto simp: incNonce_Inr chain_inv_def solvent_def)

lemma runTx_keeps:
  assumes "chain_inv E {} s" and "isValidAddress signer" and "ids_left s"
    and "runTx E signer t s = Inr (s', rc)"
  shows "chain_inv E {} s' \<and> total_supply s' = total_supply s"
proof -
  obtain s1 where "dispatch E s signer t (heightLocked s) = Inr (s1, rc)" and inc: "incNonce E s1 signer = Inr s'"
    using assms(4) by (auto simp: runTx_def split: if_splits)
  then have "chain_inv E {} s1 \<and> total_supply s1 = total_supply s"
    using dispatch_keeps [OF assms(1-3)] by blast
  then show ?thesis
    using incNonce_keeps inc by metis
qed

end
