(* ===== verification/Block.thy ===== *)
theory Block
  imports Submit
begin

text \<open>
  The block producer's step (\<open>commitBlock\<close> in \<open>chain/internal/state/block.go\<close>, also \<open>Tick\<close>): the height
  goes up by one, one cursor pass sorts the requests whose time has come into four lists, and the lists
  are settled in the order refund, finalize, slash, dismiss, all in one database transaction. The
  wall-clock text of the block event is the argument \<open>now\<close>.

  \<open>sweepRequest\<close> says what a block does to one request. The lemmas show that the block applies it to
  every stored request, that the four settlement loops cannot fail, and that the invariant and the
  supply are kept.
\<close>

subsection \<open>The two sweeps\<close>

definition refundRequest ::
  "env \<Rightarrow> i64 \<Rightarrow> chain_state \<Rightarrow> inference_request \<Rightarrow> chain_error + chain_state \<times> event" where
  "refundRequest E height s r =
     bind_r (move id E s moduleEscrowAddr (req_requester r) (amount (req_escrow r))) (\<lambda>s.
     bind_r (putRequest E s (r\<lparr>req_status := StatusRefunded, req_finalized_at := height\<rparr>)) (\<lambda>s.
     Inr (s, mk_event height (RequestRefunded
       \<lparr>err_request_id = req_id r, err_requester = req_requester r, err_refunded = req_escrow r\<rparr>))))"

definition finalizeRequest ::
  "env \<Rightarrow> i64 \<Rightarrow> chain_state \<Rightarrow> inference_request \<Rightarrow> chain_error + chain_state \<times> event" where
  "finalizeRequest E height s r =
     bind_r (getService s (req_service_id r)) (\<lambda>svc.
     bind_r (move id E s moduleEscrowAddr (svc_owner svc) (amount (req_escrow r))) (\<lambda>s.
     bind_r (payBond id E s moduleEscrowAddr (svc_owner svc) (req_provider_bond r)) (\<lambda>(s, bondReturned).
     bind_r (putRequest E s (r\<lparr>req_status := StatusFinalized, req_finalized_at := height,
                               req_paid := Some (req_escrow r)\<rparr>)) (\<lambda>s.
     Inr (s, mk_event height (RequestFinalized
       \<lparr>erf_request_id = req_id r, erf_provider = svc_owner svc, erf_paid = req_escrow r,
        erf_bond_returned = bondReturned\<rparr>))))))"

definition refundPayouts :: "service \<Rightarrow> inference_request \<Rightarrow> (string \<times> u64) list" where
  "refundPayouts svc r = [(req_requester r, amount (req_escrow r))]"

definition finalizePayouts :: "service \<Rightarrow> inference_request \<Rightarrow> (string \<times> u64) list" where
  "finalizePayouts svc r =
     [(svc_owner svc, amount (req_escrow r)), (svc_owner svc, opt_amount (req_provider_bond r))]"

subsection \<open>Sorting the requests\<close>

record sweep =
  toRefund :: "inference_request list"
  toFinalize :: "inference_request list"
  toSlash :: "inference_request list"
  toDismiss :: "inference_request list"

fun countVouchers :: "voucher list \<Rightarrow> int \<Rightarrow> int \<Rightarrow> int \<times> int" where
  "countVouchers [] pv cv = (pv, cv)"
| "countVouchers (v # vs) pv cv =
     (if v_supports_provider v then countVouchers vs (pv + 1) cv else countVouchers vs pv (cv + 1))"

definition effectiveMargin :: "chain_state \<Rightarrow> params \<Rightarrow> inference_request \<Rightarrow> i64" where
  "effectiveMargin s params r =
     (case getService s (req_service_id r) of
        Inl _ \<Rightarrow> p_voucher_margin params
      | Inr svc \<Rightarrow>
          if svc_domain_id svc \<noteq> 0 then
            (case getDomain s (svc_domain_id svc) of
               Inl _ \<Rightarrow> p_voucher_margin params
             | Inr vd \<Rightarrow> if 0 <s dom_voucher_margin vd then dom_voucher_margin vd else p_voucher_margin params)
          else p_voucher_margin params)"

definition providerPrevails :: "chain_state \<Rightarrow> params \<Rightarrow> inference_request \<Rightarrow> bool" where
  "providerPrevails s params r =
     (case countVouchers (req_vouchers r) 0 0 of (pv, cv) \<Rightarrow>
        pv > 0 \<and> effectiveMargin s params r <=s (word_of_int (pv - cv) :: i64))"

definition sortRequest ::
  "chain_state \<Rightarrow> params \<Rightarrow> i64 \<Rightarrow> inference_request \<Rightarrow> sweep \<Rightarrow> sweep" where
  "sortRequest s params height r w =
     (case req_status r of
        StatusPending \<Rightarrow>
          if req_deadline r <s height then w\<lparr>toRefund := toRefund w @ [r]\<rparr> else w
      | StatusSubmitted \<Rightarrow>
          if req_submitted_at r + p_challenge_window params <s height
          then w\<lparr>toFinalize := toFinalize w @ [r]\<rparr> else w
      | StatusChallenged \<Rightarrow>
          (case req_challenges r of
             [] \<Rightarrow> w
           | ch # _ \<Rightarrow>
               if height <=s ch_posted_at ch + challengeResolutionWindowBlocks then w
               else if providerPrevails s params r then w\<lparr>toDismiss := toDismiss w @ [r]\<rparr>
               else w\<lparr>toSlash := toSlash w @ [r]\<rparr>)
      | _ \<Rightarrow> w)"

fun sortRequests ::
  "chain_state \<Rightarrow> params \<Rightarrow> i64 \<Rightarrow> (u64 \<times> inference_request) list \<Rightarrow> sweep \<Rightarrow> sweep" where
  "sortRequests s params height [] w = w"
| "sortRequests s params height (kv # cur) w =
     sortRequests s params height cur (sortRequest s params height (snd kv) w)"

definition empty_sweep :: sweep where
  "empty_sweep = \<lparr>toRefund = [], toFinalize = [], toSlash = [], toDismiss = []\<rparr>"

subsection \<open>The block\<close>

definition commitDb :: "env \<Rightarrow> chain_state \<Rightarrow> chain_error + chain_state \<times> i64 \<times> event list" where
  "commitDb E s =
     (let height = getMetaUint64 s keyHeight + 1 in
      bind_r (putMeta E s keyHeight (MetaU64 height)) (\<lambda>s.
      bind_r (paramsLocked s) (\<lambda>params.
      let w = sortRequests s params height (cs_requests s) empty_sweep in
      bind_r (settleLoop (refundRequest E height) (toRefund w) s []) (\<lambda>(s, emitted).
      bind_r (settleLoop (finalizeRequest E height) (toFinalize w) s emitted) (\<lambda>(s, emitted).
      bind_r (settleLoop (executeSlash E height) (toSlash w) s emitted) (\<lambda>(s, emitted).
      bind_r (settleLoop (executeDismiss E height) (toDismiss w) s emitted) (\<lambda>(s, emitted).
      Inr (s, height, emitted))))))))"

definition commitBlock :: "env \<Rightarrow> string \<Rightarrow> node \<Rightarrow> (chain_error + unit) \<times> node" where
  "commitBlock E now nd =
     (case dbUpdate (commitDb E) (nd_db nd) of
        (Inl e, db) \<Rightarrow> (Inl e, nd\<lparr>nd_db := db\<rparr>)
      | (Inr (height, emitted), db) \<Rightarrow>
          (Inr (), nd\<lparr>nd_db := db,
             nd_bus := emit (mk_event height (BlockCommitted \<lparr>ebc_height = height, ebc_time = now\<rparr>))
                         (emitAll emitted (nd_bus nd))\<rparr>))"

text \<open>What one block does to one request.\<close>

definition sweepRequest :: "chain_state \<Rightarrow> params \<Rightarrow> i64 \<Rightarrow> inference_request \<Rightarrow> inference_request" where
  "sweepRequest s params height r =
     (case req_status r of
        StatusPending \<Rightarrow> if req_deadline r <s height then refunded height r else r
      | StatusSubmitted \<Rightarrow>
          if req_submitted_at r + p_challenge_window params <s height then dismissed height r else r
      | StatusChallenged \<Rightarrow>
          (case req_challenges r of
             [] \<Rightarrow> r
           | ch # _ \<Rightarrow>
               if height <=s ch_posted_at ch + challengeResolutionWindowBlocks then r
               else if providerPrevails s params r then dismissed height r
               else slashed height r)
      | _ \<Rightarrow> r)"

subsection \<open>The sweeps meet the contract of a settlement\<close>

lemma refundRequest_Inr:
  "refundRequest E h s r = Inr (s', ev) \<longleftrightarrow>
   (\<exists>s1. pays E (refundPayouts svc r) s = Inr s1 \<and> putRequest E s1 (refunded h r) = Inr s')
   \<and> ev = mk_event h (RequestRefunded
       \<lparr>err_request_id = req_id r, err_requester = req_requester r, err_refunded = req_escrow r\<rparr>)"
  by (auto simp: refundRequest_def refundPayouts_def refunded_def move_Inr_iff)

lemma finalizeRequest_Inr:
  assumes "getService s (req_service_id r) = Inr svc"
  shows "finalizeRequest E h s r = Inr (s', ev) \<longleftrightarrow>
   (\<exists>s1. pays E (finalizePayouts svc r) s = Inr s1 \<and> putRequest E s1 (dismissed h r) = Inr s')
   \<and> ev = mk_event h (RequestFinalized
       \<lparr>erf_request_id = req_id r, erf_provider = svc_owner svc, erf_paid = req_escrow r,
        erf_bond_returned = bond_coin (req_provider_bond r)\<rparr>)"
  using assms by (auto simp: finalizeRequest_def finalizePayouts_def dismissed_def move_Inr_iff payBond_pays)

lemma due_sweeps:
  "req_shape r \<Longrightarrow> req_status r = StatusPending \<Longrightarrow> due (refundPayouts svc r) = req_locked r"
  "req_shape r \<Longrightarrow> req_status r = StatusSubmitted \<Longrightarrow> due (finalizePayouts svc r) = req_locked r"
  by (auto simp: req_shape_def refundPayouts_def finalizePayouts_def req_locked_def req_stakes_def
      challenge_locked_def voucher_locked_def)

interpretation refund: settlement E "refundRequest E h" "\<lambda>r. req_status r = StatusPending" "refunded h" refundPayouts
  for E h
proof
  fix s r svc s' ev
  assume a: "accounts_ok s" "getService s (req_service_id r) = Inr svc" "req_status r = StatusPending" "req_shape r"
  show "\<exists>s1. paid (refundPayouts svc r) s s1 \<and> putRequest E s1 (refunded h r) = Inr s'"
    if "req_locked r < 2 ^ 64" "refundRequest E h s r = Inr (s', ev)"
    using that(2) pays_paid [OF a(1)] refundRequest_Inr [of E h s r s' ev svc] by blast
  show "\<exists>s' ev. refundRequest E h s r = Inr (s', ev)"
    if "put_accepts E" "isValidAddress (svc_owner svc)" "req_locked r \<le> bal s moduleEscrowAddr"
  proof -
    have "\<exists>s1. pays E (refundPayouts svc r) s = Inr s1"
      using that due_sweeps(1) [OF a(4,3)] addr_ok_parties(1) [OF that(1) a(4)]
      by (intro pays_ok [OF a(1)]) (simp_all add: refundPayouts_def)
    then show ?thesis
      using refundRequest_Inr [of E h s r _ _ svc] putRequest_ok [OF that(1)] by blast
  qed
qed (simp_all add: due_sweeps closed_shape isOpen_def)

interpretation finalize: settlement E "finalizeRequest E h" "\<lambda>r. req_status r = StatusSubmitted" "dismissed h" finalizePayouts
  for E h
proof
  fix s r svc s' ev
  assume a: "accounts_ok s" "getService s (req_service_id r) = Inr svc" "req_status r = StatusSubmitted" "req_shape r"
  show "\<exists>s1. paid (finalizePayouts svc r) s s1 \<and> putRequest E s1 (dismissed h r) = Inr s'"
    if "req_locked r < 2 ^ 64" "finalizeRequest E h s r = Inr (s', ev)"
    using that(2) pays_paid [OF a(1)] finalizeRequest_Inr [OF a(2)] by blast
  show "\<exists>s' ev. finalizeRequest E h s r = Inr (s', ev)"
    if "put_accepts E" "isValidAddress (svc_owner svc)" "req_locked r \<le> bal s moduleEscrowAddr"
  proof -
    have "\<exists>s1. pays E (finalizePayouts svc r) s = Inr s1"
      using that due_sweeps(2) [OF a(4,3)] addr_okI [OF that(1,2)]
      by (intro pays_ok [OF a(1)]) (simp_all add: finalizePayouts_def)
    then show ?thesis
      using finalizeRequest_Inr [OF a(2)] putRequest_ok [OF that(1)] by blast
  qed
qed (simp_all add: due_sweeps closed_shape)

subsection \<open>The four lists\<close>

definition isOverdue :: "params \<Rightarrow> i64 \<Rightarrow> inference_request \<Rightarrow> bool" where
  "isOverdue params height r =
     (case req_status r of
        StatusPending \<Rightarrow> req_deadline r <s height
      | StatusSubmitted \<Rightarrow> req_submitted_at r + p_challenge_window params <s height
      | StatusChallenged \<Rightarrow>
          (case req_challenges r of [] \<Rightarrow> False
           | ch # _ \<Rightarrow> ch_posted_at ch + challengeResolutionWindowBlocks <s height)
      | _ \<Rightarrow> False)"

lemma sortRequests_filter:
  "sortRequests s ps h cur w =
   \<lparr>toRefund = toRefund w @ filter (\<lambda>r. isOverdue ps h r \<and> req_status r = StatusPending) (map snd cur),
    toFinalize = toFinalize w @ filter (\<lambda>r. isOverdue ps h r \<and> req_status r = StatusSubmitted) (map snd cur),
    toSlash = toSlash w @ filter (\<lambda>r. isOverdue ps h r \<and> req_status r = StatusChallenged
                                    \<and> \<not> providerPrevails s ps r) (map snd cur),
    toDismiss = toDismiss w @ filter (\<lambda>r. isOverdue ps h r \<and> req_status r = StatusChallenged
                                    \<and> providerPrevails s ps r) (map snd cur)\<rparr>"
proof (induction cur arbitrary: w)
  case (Cons kv cur)
  show ?case
    by (cases "req_status (snd kv)"; cases "req_challenges (snd kv)")
      (simp_all add: Cons sortRequest_def isOverdue_def signed.not_le [symmetric])
qed simp

lemma countVouchers_eq:
  "countVouchers vs a b = (a + int (length (filter v_supports_provider vs)),
                           b + int (length (filter (Not \<circ> v_supports_provider) vs)))"
  by (induction vs arbitrary: a b) auto

text \<open>The comparison of \<open>providerPrevails\<close> on integers.\<close>

lemma providerPrevails_iff:
  assumes "req_shape r"
  shows "providerPrevails s ps r \<longleftrightarrow> supporters r \<noteq> []
    \<and> sint (effectiveMargin s ps r) \<le> int (length (supporters r)) - int (length (opponents r))"
proof -
  let ?p = "int (length (supporters r))" and ?c = "int (length (opponents r))"
  have "length (supporters r) + length (opponents r) = length (req_vouchers r)"
    unfolding supporters_def opponents_def comp_def by (rule sum_length_filter_compl)
  moreover have "length (req_vouchers r) < 2 ^ 63"
    using assms by (simp add: req_shape_def)
  ultimately have "sint (word_of_int (?p - ?c) :: i64) = ?p - ?c"
    by (intro sint_fits) simp_all
  then show ?thesis
    unfolding providerPrevails_def countVouchers_eq supporters_def [symmetric] opponents_def [symmetric]
    by (simp add: word_sle_eq)
qed

subsection \<open>The whole block\<close>

lemma sweepRequest_overdue:
  "sweepRequest s ps h r =
   (if isOverdue ps h r then
      (if req_status r = StatusPending then refunded h r
       else if req_status r = StatusSubmitted \<or> providerPrevails s ps r then dismissed h r
       else slashed h r)
    else r)"
  by (cases "req_status r"; cases "req_challenges r")
    (simp_all add: sweepRequest_def isOverdue_def signed.not_le [symmetric])

lemma isOverdue_open: "isOverdue ps h r \<Longrightarrow> isOpen r"
  by (cases "req_status r") (auto simp: isOverdue_def isOpen_def)

lemma height_inv:
  assumes inv: "chain_inv E {} s" and put: "putMeta E s keyHeight (MetaU64 h) = Inr s1"
  shows "chain_inv E {} s1" and "total_supply s1 = total_supply s" and "getMetaUint64 s1 keyHeight = h"
    and "getRequest s1 = getRequest s" and "getService s1 = getService s" and "getDomain s1 = getDomain s"
    and "paramsLocked s1 = paramsLocked s" and "cs_nonces s1 = cs_nonces s"
    and "sweepRequest s1 = sweepRequest s"
proof -
  have s1: "s1 = s\<lparr>cs_meta := bput keyHeight (MetaU64 h) (cs_meta s)\<rparr>"
    using put by (simp add: putMeta_def)
  show "chain_inv E {} s1"
    using inv wf_meta_other [of E "{}" s keyHeight] by (simp add: s1 chain_inv_def solvent_def meta_keys)
  show "total_supply s1 = total_supply s" and "getMetaUint64 s1 keyHeight = h"
    and "getRequest s1 = getRequest s" and "getService s1 = getService s" and "getDomain s1 = getDomain s"
    and "paramsLocked s1 = paramsLocked s" and "cs_nonces s1 = cs_nonces s"
    by (simp_all add: s1)
  have "getService s1 = getService s" and "getDomain s1 = getDomain s"
    by (simp_all add: s1)
  then have "effectiveMargin s1 = effectiveMargin s"
    by (intro ext) (simp add: effectiveMargin_def split: sum.splits)
  then have "providerPrevails s1 = providerPrevails s"
    by (intro ext) (simp add: providerPrevails_def split: prod.splits)
  then show "sweepRequest s1 = sweepRequest s"
    by (intro ext) (simp add: sweepRequest_def split: request_status.splits list.splits)
qed

text \<open>The four loops, as four stages of one sweep.\<close>

abbreviation due_in :: "chain_state \<Rightarrow> params \<Rightarrow> i64 \<Rightarrow> request_status \<Rightarrow> (inference_request \<Rightarrow> bool) \<Rightarrow> inference_request list" where
  "due_in s ps h st P \<equiv> filter (\<lambda>r. isOverdue ps h r \<and> req_status r = st \<and> P r) (map snd (cs_requests s))"

lemma sorted_due:
  "sortRequests s ps h (cs_requests s) empty_sweep =
   \<lparr>toRefund = due_in s ps h StatusPending (\<lambda>_. True),
    toFinalize = due_in s ps h StatusSubmitted (\<lambda>_. True),
    toSlash = due_in s ps h StatusChallenged (\<lambda>r. \<not> providerPrevails s ps r),
    toDismiss = due_in s ps h StatusChallenged (providerPrevails s ps)\<rparr>"
  by (simp add: sortRequests_filter empty_sweep_def)

lemma due_in_facts:
  assumes "chain_inv E D s"
  shows "distinct (map req_id (due_in s ps h st P))"
    and "r \<in> set (due_in s ps h st P) \<longleftrightarrow>
         getRequest s (req_id r) = Inr r \<and> isOverdue ps h r \<and> req_status r = st \<and> P r"
  by (rule stored_sublist [OF inv_wf [OF assms]])+

lemma swept_refl: "swept f s s {}"
  by (simp add: swept_def split: sum.splits)

lemma four_stages:
  fixes s ps h
  defines "f \<equiv> sweepRequest s ps h"
  defines "A \<equiv> due_in s ps h StatusPending (\<lambda>_. True)" and "B \<equiv> due_in s ps h StatusSubmitted (\<lambda>_. True)"
    and "C \<equiv> due_in s ps h StatusChallenged (\<lambda>r. \<not> providerPrevails s ps r)"
    and "F \<equiv> due_in s ps h StatusChallenged (providerPrevails s ps)"
  assumes inv: "chain_inv E {} s"
  shows stage_A: "r \<in> set A \<Longrightarrow> getRequest s (req_id r) = Inr r \<and> req_status r = StatusPending \<and> r \<notin> {} \<and> refunded h r = f r"
    and stage_B: "r \<in> set B \<Longrightarrow> getRequest s (req_id r) = Inr r \<and> req_status r = StatusSubmitted \<and> r \<notin> {} \<union> set A \<and> dismissed h r = f r"
    and stage_C: "r \<in> set C \<Longrightarrow> getRequest s (req_id r) = Inr r \<and> req_status r = StatusChallenged \<and> r \<notin> {} \<union> set A \<union> set B \<and> slashed h r = f r"
    and stage_F: "r \<in> set F \<Longrightarrow> getRequest s (req_id r) = Inr r \<and> req_status r = StatusChallenged
          \<and> r \<notin> {} \<union> set A \<union> set B \<union> set C \<and> dismissed h r = f r"
    and stage_all: "getRequest s (req_id r) = Inr r \<Longrightarrow> r \<notin> {} \<union> set A \<union> set B \<union> set C \<union> set F \<Longrightarrow> f r = r"
    and stage_distinct: "distinct (map req_id A)" "distinct (map req_id B)" "distinct (map req_id C)" "distinct (map req_id F)"
proof -
  show "distinct (map req_id A)" "distinct (map req_id B)" "distinct (map req_id C)" "distinct (map req_id F)"
    unfolding A_def B_def C_def F_def by (rule due_in_facts(1) [OF inv])+
  show "f r = r" if "getRequest s (req_id r) = Inr r" "r \<notin> {} \<union> set A \<union> set B \<union> set C \<union> set F"
  proof -
    have "\<not> isOverdue ps h r"
      using that isOverdue_open [of ps h r] unfolding A_def B_def C_def F_def Un_iff due_in_facts(2) [OF inv]
      by (auto simp: isOpen_def)
    then show ?thesis by (simp add: f_def sweepRequest_overdue)
  qed
qed (unfold A_def B_def C_def F_def Un_iff due_in_facts(2) [OF inv], simp_all add: f_def sweepRequest_overdue)

lemma sweep_ok:
  assumes E: "put_accepts E" and inv: "chain_inv E {} s"
  shows "\<exists>s1 e1 s2 e2 s3 e3 s4 e4.
      settleLoop (refundRequest E h) (due_in s ps h StatusPending (\<lambda>_. True)) s [] = Inr (s1, e1)
      \<and> settleLoop (finalizeRequest E h) (due_in s ps h StatusSubmitted (\<lambda>_. True)) s1 e1 = Inr (s2, e2)
      \<and> settleLoop (executeSlash E h) (due_in s ps h StatusChallenged (\<lambda>r. \<not> providerPrevails s ps r)) s2 e2 = Inr (s3, e3)
      \<and> settleLoop (executeDismiss E h) (due_in s ps h StatusChallenged (providerPrevails s ps)) s3 e3 = Inr (s4, e4)"
proof -
  note wf = inv_wf [OF inv] and d = stage_distinct [OF inv, where ps = ps and h = h]
  note A = stage_A [OF inv, where ps = ps and h = h] and B = stage_B [OF inv, where ps = ps and h = h]
    and C = stage_C [OF inv, where ps = ps and h = h] and F = stage_F [OF inv, where ps = ps and h = h]
  obtain s1 e1 where x1: "settleLoop (refundRequest E h) (due_in s ps h StatusPending (\<lambda>_. True)) s [] = Inr (s1, e1)"
    using refund.stage_ok [OF E inv swept_refl d(1)] A by blast
  note f1 = refund.stage(1,2) [OF wf inv swept_refl d(1) A x1]
  obtain s2 e2 where x2: "settleLoop (finalizeRequest E h) (due_in s ps h StatusSubmitted (\<lambda>_. True)) s1 e1 = Inr (s2, e2)"
    using finalize.stage_ok [OF E f1 d(2)] B by blast
  note f2 = finalize.stage(1,2) [OF wf f1 d(2) B x2]
  obtain s3 e3 where x3: "settleLoop (executeSlash E h)
      (due_in s ps h StatusChallenged (\<lambda>r. \<not> providerPrevails s ps r)) s2 e2 = Inr (s3, e3)"
    using slash.stage_ok [OF E f2 d(3)] C by blast
  note f3 = slash.stage(1,2) [OF wf f2 d(3) C x3]
  obtain s4 e4 where "settleLoop (executeDismiss E h)
      (due_in s ps h StatusChallenged (providerPrevails s ps)) s3 e3 = Inr (s4, e4)"
    using dismiss.stage_ok [OF E f3 d(4)] F by blast
  with x1 x2 x3 show ?thesis by blast
qed

lemma sweep_facts:
  assumes inv: "chain_inv E {} s"
    and x1: "settleLoop (refundRequest E h) (due_in s ps h StatusPending (\<lambda>_. True)) s [] = Inr (s1, e1)"
    and x2: "settleLoop (finalizeRequest E h) (due_in s ps h StatusSubmitted (\<lambda>_. True)) s1 e1 = Inr (s2, e2)"
    and x3: "settleLoop (executeSlash E h) (due_in s ps h StatusChallenged (\<lambda>r. \<not> providerPrevails s ps r)) s2 e2 = Inr (s3, e3)"
    and x4: "settleLoop (executeDismiss E h) (due_in s ps h StatusChallenged (providerPrevails s ps)) s3 e3 = Inr (s4, e4)"
  shows "chain_inv E {} s4" and "close_frame s s4" and "total_supply s4 = total_supply s"
    and "getRequest s4 k = (case getRequest s k of Inl e \<Rightarrow> Inl e | Inr r \<Rightarrow> Inr (sweepRequest s ps h r))"
proof -
  note wf = inv_wf [OF inv] and d = stage_distinct [OF inv, where ps = ps and h = h]
  note A = stage_A [OF inv, where ps = ps and h = h] and B = stage_B [OF inv, where ps = ps and h = h]
    and C = stage_C [OF inv, where ps = ps and h = h] and F = stage_F [OF inv, where ps = ps and h = h]
    and rest = stage_all [OF inv, where ps = ps and h = h]
  note f1 = refund.stage(1,2) [OF wf inv swept_refl d(1) A x1]
  note f2 = finalize.stage(1,2) [OF wf f1 d(2) B x2]
  note f3 = slash.stage(1,2) [OF wf f2 d(3) C x3]
  note f4 = dismiss.stage(1,2) [OF wf f3 d(4) F x4]
  show "chain_inv E {} s4" and "close_frame s s4" and "total_supply s4 = total_supply s"
    using f4 by (simp_all add: swept_def)
  show "getRequest s4 k = (case getRequest s k of Inl e \<Rightarrow> Inl e | Inr r \<Rightarrow> Inr (sweepRequest s ps h r))"
  proof (cases "getRequest s k")
    case (Inl e)
    then show ?thesis using f4(2) by (simp add: swept_def)
  next
    case (Inr r)
    then have "getRequest s (req_id r) = Inr r"
      using wf_request [OF wf Inr] by (simp add: req_ok_def)
    from rest [OF this] Inr f4(2) show ?thesis by (auto simp: swept_def)
  qed
qed

lemma commitDb_Inr:
  assumes "commitDb E s = Inr (s', h, evs)"
  obtains s0 ps s1 e1 s2 e2 s3 e3 where
    "h = getMetaUint64 s keyHeight + 1" and "putMeta E s keyHeight (MetaU64 h) = Inr s0"
    and "paramsLocked s0 = Inr ps"
    and "settleLoop (refundRequest E h) (due_in s0 ps h StatusPending (\<lambda>_. True)) s0 [] = Inr (s1, e1)"
    and "settleLoop (finalizeRequest E h) (due_in s0 ps h StatusSubmitted (\<lambda>_. True)) s1 e1 = Inr (s2, e2)"
    and "settleLoop (executeSlash E h) (due_in s0 ps h StatusChallenged (\<lambda>r. \<not> providerPrevails s0 ps r)) s2 e2 = Inr (s3, e3)"
    and "settleLoop (executeDismiss E h) (due_in s0 ps h StatusChallenged (providerPrevails s0 ps)) s3 e3 = Inr (s', evs)"
proof -
  show ?thesis
    using assms
    by (simp only: commitDb_def Let_def sorted_due sweep.simps bind_r_Inr_iff split_paired_Ex prod.case)
      (elim exE conjE, rule that, (assumption | simp)+)
qed

lemma commitDb_facts:
  assumes inv: "chain_inv E {} s" and run: "commitDb E s = Inr (s', h, evs)" and ps: "paramsLocked s = Inr ps"
  shows "h = heightLocked s + 1" and "heightLocked s' = h" and "chain_inv E {} s'"
    and "total_supply s' = total_supply s"
    and "getRequest s' k = (case getRequest s k of Inl e \<Rightarrow> Inl e | Inr r \<Rightarrow> Inr (sweepRequest s ps h r))"
    and "getService s' = getService s" and "getDomain s' = getDomain s" and "cs_nonces s' = cs_nonces s"
    and "paramsLocked s' = paramsLocked s"
proof -
  obtain s0 s1 e1 s2 e2 s3 e3 where h: "h = getMetaUint64 s keyHeight + 1"
    and p0: "putMeta E s keyHeight (MetaU64 h) = Inr s0"
    and x: "settleLoop (refundRequest E h) (due_in s0 ps h StatusPending (\<lambda>_. True)) s0 [] = Inr (s1, e1)"
      "settleLoop (finalizeRequest E h) (due_in s0 ps h StatusSubmitted (\<lambda>_. True)) s1 e1 = Inr (s2, e2)"
      "settleLoop (executeSlash E h) (due_in s0 ps h StatusChallenged (\<lambda>r. \<not> providerPrevails s0 ps r)) s2 e2 = Inr (s3, e3)"
      "settleLoop (executeDismiss E h) (due_in s0 ps h StatusChallenged (providerPrevails s0 ps)) s3 e3 = Inr (s', evs)"
  proof (rule commitDb_Inr [OF run])
    fix s0 ps' s1 e1 s2 e2 s3 e3
    assume p0: "putMeta E s keyHeight (MetaU64 h) = Inr s0" and "paramsLocked s0 = Inr ps'"
    then have "ps' = ps"
      using height_inv(7) [OF inv p0] ps by simp
    then show "\<lbrakk>h = getMetaUint64 s keyHeight + 1;
      settleLoop (refundRequest E h) (due_in s0 ps' h StatusPending (\<lambda>_. True)) s0 [] = Inr (s1, e1);
      settleLoop (finalizeRequest E h) (due_in s0 ps' h StatusSubmitted (\<lambda>_. True)) s1 e1 = Inr (s2, e2);
      settleLoop (executeSlash E h) (due_in s0 ps' h StatusChallenged (\<lambda>r. \<not> providerPrevails s0 ps' r)) s2 e2 = Inr (s3, e3);
      settleLoop (executeDismiss E h) (due_in s0 ps' h StatusChallenged (providerPrevails s0 ps')) s3 e3 = Inr (s', evs)\<rbrakk>
      \<Longrightarrow> thesis"
      using that p0 by blast
  qed
  note hi = height_inv [OF inv p0]
  note sw = sweep_facts [OF hi(1) x]
  note g = close_frame_gets [OF sw(2)] and f = close_frame_fields [OF sw(2)]
  show "h = heightLocked s + 1" and "heightLocked s' = h"
    using h hi(3) g by (simp_all add: heightLocked_def)
  show "chain_inv E {} s'" and "total_supply s' = total_supply s"
    and "getService s' = getService s" and "getDomain s' = getDomain s" and "cs_nonces s' = cs_nonces s"
    and "paramsLocked s' = paramsLocked s"
    using sw(1,3) hi g f by simp_all
  show "getRequest s' k = (case getRequest s k of Inl e \<Rightarrow> Inl e | Inr r \<Rightarrow> Inr (sweepRequest s ps h r))"
    using sw(4) unfolding hi(4) hi(9) .
qed

lemma commitDb_ok:
  assumes E: "put_accepts E" and inv: "chain_inv E {} s"
  shows "\<exists>s' h evs. commitDb E s = Inr (s', h, evs)"
proof -
  let ?h = "getMetaUint64 s keyHeight + 1"
  obtain s0 where p0: "putMeta E s keyHeight (MetaU64 ?h) = Inr s0"
    using E by (simp add: putMeta_def bucket_put_def put_accepts_None keyHeight_def)
  obtain ps where ps: "paramsLocked s0 = Inr ps"
    by (rule wf_params [OF inv_wf [OF height_inv(1) [OF inv p0]]])
  from sweep_ok [OF E height_inv(1) [OF inv p0], of ?h ps] p0 ps show ?thesis
    by (simp only: commitDb_def Let_def sorted_due sweep.simps bind_r_Inr_iff split_paired_Ex prod.case) blast
qed

end
