(* ===== verification/System.thy ===== *)
theory System
  imports Block
begin

text \<open>
  The running chain as a transition system. A step is one call on the state: a signed transaction, a
  block, a mint, a new parameter set or a new authority. Transactions and blocks may fail, and then
  leave the node as it was. \<open>reach\<close> are the nodes that follow from a fresh database. The invariant of
  every reachable node is \<open>chain_inv\<close>; the other facts of this theory are what no step does to the
  nonces, and that a request only moves forward in its life cycle.

  Two resource bounds are premises of the steps: minting stays below \<open>2 ^ 64\<close> coins in all, and a
  transaction arrives while the 64-bit id counters have ids left.
\<close>

inductive node_step :: "env \<Rightarrow> node \<Rightarrow> node \<Rightarrow> bool" for E where
  tx: "ids_left (nd_db nd) \<Longrightarrow> submitTx E t nd = (res, nd') \<Longrightarrow> node_step E nd nd'"
| block: "commitBlock E now nd = (res, nd') \<Longrightarrow> node_step E nd nd'"
| minted: "mint E (nd_db nd) a n = Inr s' \<Longrightarrow> total_supply (nd_db nd) + unat n < 2 ^ 64 \<Longrightarrow>
    node_step E nd (nd\<lparr>nd_db := s'\<rparr>)"
| configured: "setParams E (nd_db nd) p = Inr s' \<Longrightarrow> node_step E nd (nd\<lparr>nd_db := s'\<rparr>)"
| appointed: "setAuthority E (nd_db nd) a = Inr s' \<Longrightarrow> node_step E nd (nd\<lparr>nd_db := s'\<rparr>)"

inductive reach :: "env \<Rightarrow> node \<Rightarrow> bool" for E where
  genesis: "initState E empty_db = Inr s \<Longrightarrow> reach E \<lparr>nd_db = s, nd_bus = empty_bus\<rparr>"
| step: "reach E nd \<Longrightarrow> node_step E nd nd' \<Longrightarrow> reach E nd'"

subsection \<open>Genesis\<close>

lemma initState_Inr:
  assumes "initState E empty_db = Inr s"
  shows "s = empty_db\<lparr>cs_meta := cs_meta s\<rparr>" and "counters_ok s" and "heightLocked s = 0" and "authorityLocked s = ''''"
proof -
  let ?m = "bput keyParams (MetaParams defaultParams) (bput keyNextDomainID (MetaU64 1)
      (bput keyNextReqID (MetaU64 1) (bput keyNextSvcID (MetaU64 1) (bput keyHeight (MetaU64 0)
      (bput keyChainID (MetaString ''aios-devnet-1'') [])))))"
  have s: "s = empty_db\<lparr>cs_meta := ?m\<rparr>"
    using assms by (simp add: initState_def initKey_def putMeta_def empty_db_def meta_keys)
  show "s = empty_db\<lparr>cs_meta := cs_meta s\<rparr>"
    unfolding s by simp
  show "counters_ok s"
    unfolding s counters_ok_def succeeds_def getMetaUint64_def paramsLocked_def by (simp add: meta_keys)
  show "heightLocked s = 0"
    unfolding s heightLocked_def getMetaUint64_def by (simp add: meta_keys)
  show "authorityLocked s = ''''"
    unfolding s authorityLocked_def getMetaString_def empty_db_def by (simp add: meta_keys)
qed

text \<open>Opening a database that already has a key leaves the key alone.\<close>

lemma initKey_Inr:
  assumes "initKey E k v s = Inr s'"
  shows "s' = s\<lparr>cs_meta := cs_meta s'\<rparr>" and "map_of (cs_meta s') k \<noteq> None"
    and "map_of (cs_meta s) j = Some w \<Longrightarrow> map_of (cs_meta s') j = Some w"
  using assms by (auto simp: initKey_def putMeta_def split: if_splits)

lemma initKey_present: "map_of (cs_meta s) k \<noteq> None \<Longrightarrow> initKey E k v s = Inr s"
  by (auto simp: initKey_def)

lemma initState_steps:
  assumes "initState E s = Inr s'"
  shows "initState E s' = Inr s'" and "s' = s\<lparr>cs_meta := cs_meta s'\<rparr>"
    and "map_of (cs_meta s) j = Some w \<Longrightarrow> map_of (cs_meta s') j = Some w"
proof -
  obtain s1 s2 s3 s4 s5 where i: "initKey E keyChainID (MetaString ''aios-devnet-1'') s = Inr s1"
    "initKey E keyHeight (MetaU64 0) s1 = Inr s2" "initKey E keyNextSvcID (MetaU64 1) s2 = Inr s3"
    "initKey E keyNextReqID (MetaU64 1) s3 = Inr s4" "initKey E keyNextDomainID (MetaU64 1) s4 = Inr s5"
    "initKey E keyParams (MetaParams defaultParams) s5 = Inr s'"
    using assms by (auto simp: initState_def)
  note k = i [THEN initKey_Inr(3)] and d = i [THEN initKey_Inr(2)]
  show "map_of (cs_meta s) j = Some w \<Longrightarrow> map_of (cs_meta s') j = Some w"
    using k by blast
  have "map_of (cs_meta s') q \<noteq> None"
    if "q \<in> {keyChainID, keyHeight, keyNextSvcID, keyNextReqID, keyNextDomainID, keyParams}" for q
    using that d k(2,3,4,5,6) by auto
  then show "initState E s' = Inr s'"
    by (simp add: initState_def initKey_present)
  show "s' = s\<lparr>cs_meta := cs_meta s'\<rparr>"
    using i [THEN initKey_Inr(1)] by (metis chain_state.update_convs(1) chain_state.surjective chain_state.select_convs(1))
qed

lemma genesis_inv:
  assumes "initState E empty_db = Inr s"
  shows "chain_inv E {} s" and "total_supply s = 0"
proof -
  note i = initState_Inr [OF assms]
  have e: "getService s = (\<lambda>_. Inl ErrServiceNotFound)" "getRequest s = (\<lambda>_. Inl ErrRequestNotFound)"
    "getDomain s = (\<lambda>_. Inl ErrDomainNotFound)"
    by (subst i(1), simp add: getService_def getRequest_def getDomain_def empty_db_def fun_eq_iff)+
  have b: "cs_services s = []" "cs_requests s = []" "cs_domains s = []" "cs_svc_by_name s = []" "cs_accounts s = []"
    by (subst i(1), simp add: empty_db_def)+
  show "chain_inv E {} s"
    using i(2) e b by (simp add: chain_inv_def tables_ok_def names_ok_def accounts_ok_def solvent_def
        obligations_def total_supply_def bsum_def)
  show "total_supply s = 0"
    using b by (simp add: total_supply_def bsum_def)
qed

subsection \<open>Steps keep the invariant\<close>

lemma mint_keeps:
  assumes "chain_inv E D s" and "mint E s a n = Inr s'" and "total_supply s + unat n < 2 ^ 64"
  shows "chain_inv E D s'" and "total_supply s' = total_supply s + unat n" and "same_but_accounts s s'"
proof -
  note c = credit_Inr [OF inv_accounts [OF assms(1)] assms(3)] assms(2) [unfolded mint_def]
  from c(1) [OF c(2)] have f: "accounts_ok s'" "same_but_accounts s s'" "total_supply s' = total_supply s + unat n"
    "bal s' = (bal s)(a := bal s a + unat n)"
    by simp_all
  then show "total_supply s' = total_supply s + unat n" and "same_but_accounts s s'"
    by simp_all
  have "bal s moduleEscrowAddr \<le> bal s' moduleEscrowAddr"
    by (simp add: f(4))
  then show "chain_inv E D s'"
    using assms(1) f by (simp add: chain_inv_def solvent_def wf_same_but_accounts obligations_same_but_accounts)
qed

lemma setParams_keeps:
  assumes "chain_inv E D s" and "setParams E s p = Inr s'"
  shows "chain_inv E D s'"
proof -
  have s': "s' = s\<lparr>cs_meta := bput keyParams (MetaParams p) (cs_meta s)\<rparr>"
    using assms(2) by (simp add: setParams_def putMeta_def)
  have "tables_ok E D s'"
    using assms(1) by (simp add: s' chain_inv_def wf_defs succeeds_def)
  then show ?thesis
    using assms(1) by (simp add: s' chain_inv_def solvent_def)
qed

lemma setAuthority_keeps:
  assumes "chain_inv E {} s" and "setAuthority E s a = Inr s'"
  shows "chain_inv E {} s'"
proof -
  have "s' = s\<lparr>cs_meta := bput keyAuthority (MetaString a) (cs_meta s)\<rparr>"
    using assms(2) by (simp add: setAuthority_def putMeta_def)
  then show ?thesis
    using assms(1) wf_meta_other [of E "{}" s keyAuthority] by (simp add: chain_inv_def solvent_def meta_keys)
qed

lemma submitTx_cases:
  obtains (rejected) e where "submitTx E t nd = (Inl e, nd)"
  | (applied) signer s' rc where "checkEnvelope E t = Inr signer" and "runTx E signer t (nd_db nd) = Inr (s', rc)"
      and "submitTx E t nd = (Inr rc, nd\<lparr>nd_db := s', nd_bus := emitAll (pendingOf rc) (nd_bus nd)\<rparr>)"
proof (cases "checkEnvelope E t")
  case (Inl e)
  then show ?thesis using rejected by (simp add: submitTx_def)
next
  case (Inr signer)
  then show ?thesis
    using rejected applied
    by (cases "runTx E signer t (nd_db nd)") (auto simp: submitTx_def dbUpdate_def)
qed

lemma commitBlock_cases:
  obtains (failed) e where "commitDb E (nd_db nd) = Inl e" and "commitBlock E now nd = (Inl e, nd)"
  | (committed) s' h evs where "commitDb E (nd_db nd) = Inr (s', h, evs)"
      and "commitBlock E now nd = (Inr (), nd\<lparr>nd_db := s', nd_bus :=
             emit (mk_event h (BlockCommitted \<lparr>ebc_height = h, ebc_time = now\<rparr>)) (emitAll evs (nd_bus nd))\<rparr>)"
  by (cases "commitDb E (nd_db nd)") (auto simp: commitBlock_def dbUpdate_def)

lemma node_step_keeps:
  assumes sha: "sha_ok E" and inv: "chain_inv E {} (nd_db nd)" and step: "node_step E nd nd'"
  shows "chain_inv E {} (nd_db nd')"
  using step
proof cases
  case (tx t res)
  then have left: "ids_left (nd_db nd)" and sub: "submitTx E t nd = (res, nd')" by simp_all
  show ?thesis
  proof (rule submitTx_cases [of E t nd])
    fix signer s' rc
    assume a: "checkEnvelope E t = Inr signer" "runTx E signer t (nd_db nd) = Inr (s', rc)"
      "submitTx E t nd = (Inr rc, nd\<lparr>nd_db := s', nd_bus := emitAll (pendingOf rc) (nd_bus nd)\<rparr>)"
    have "chain_inv E {} s'"
      using runTx_keeps [OF inv signer_valid [OF sha a(1)] left a(2)] by simp
    with a(3) sub show ?thesis by auto
  qed (use sub inv in auto)
next
  case c: (block now res)
  show ?thesis
  proof (rule commitBlock_cases [of E nd now])
    fix s' h evs
    assume a: "commitDb E (nd_db nd) = Inr (s', h, evs)"
      "commitBlock E now nd = (Inr (), nd\<lparr>nd_db := s', nd_bus :=
         emit (mk_event h (BlockCommitted \<lparr>ebc_height = h, ebc_time = now\<rparr>)) (emitAll evs (nd_bus nd))\<rparr>)"
    obtain ps where "paramsLocked (nd_db nd) = Inr ps"
      by (rule wf_params [OF inv_wf [OF inv]])
    from commitDb_facts(3) [OF inv a(1) this] a(2) c show ?thesis by auto
  qed (use c inv in auto)
next
  case (minted a n s')
  then show ?thesis using mint_keeps(1) [OF inv] by simp
next
  case (configured p s')
  then show ?thesis using setParams_keeps [OF inv] by simp
next
  case (appointed a s')
  then show ?thesis using setAuthority_keeps [OF inv] by simp
qed

lemma reach_inv:
  assumes "reach E nd" and "sha_ok E"
  shows "chain_inv E {} (nd_db nd)"
  using assms by induction (auto intro: genesis_inv node_step_keeps)

subsection \<open>Nonces and the life cycle\<close>

definition forward :: "chain_state \<Rightarrow> chain_state \<Rightarrow> bool" where
  "forward s s' \<longleftrightarrow>
     (\<forall>k r. getRequest s k = Inr r \<longrightarrow>
        (\<exists>r'. getRequest s' k = Inr r' \<and> req_status r \<le> req_status r' \<and>
              (terminal (req_status r) \<longrightarrow> r' = r)))"

definition quiet :: "chain_state \<Rightarrow> chain_state \<Rightarrow> bool" where
  "quiet s s' \<longleftrightarrow> cs_nonces s' = cs_nonces s \<and> forward s s'"

lemma forward_same: "(\<And>k r. getRequest s k = Inr r \<Longrightarrow> getRequest s' k = Inr r) \<Longrightarrow> forward s s'"
  by (auto simp: forward_def)

lemma forward_eq: "getRequest s' = getRequest s \<Longrightarrow> forward s s'"
  by (simp add: forward_same)

lemma forward_upd:
  assumes "getRequest s' = (getRequest s)(k := Inr r')" and "getRequest s k = Inr r"
    and "isOpen r" and "req_status r \<le> req_status r'"
  shows "forward s s'"
  using assms by (auto simp: forward_def isOpen_iff)

lemma status_le [simp]:
  "StatusPending \<le> st" "StatusSubmitted \<le> StatusSubmitted" "StatusSubmitted \<le> StatusChallenged"
  "StatusSubmitted \<le> StatusFinalized" "StatusChallenged \<le> StatusChallenged"
  "StatusChallenged \<le> StatusFinalized" "StatusChallenged \<le> StatusSlashed"
  "isOpen r \<Longrightarrow> req_status r \<le> StatusRefunded"
  by (simp_all add: less_eq_request_status_def isOpen_def) (auto simp: isOpen_def)

lemma stored_id:
  "chain_inv E D s \<Longrightarrow> getRequest s k = Inr r \<Longrightarrow> getRequest s (req_id r) = Inr r"
  using wf_request [OF inv_wf] by (fastforce simp: req_ok_def)

lemma register_service_quiet [handler_quiet]:
  assumes "chain_inv E {} s" and "isValidAddress signer" and "applyRegisterService E s signer p h = Inr (s', k, ev)"
  shows "quiet s s'"
  using assms(3)
proof (rule applyRegisterService_Inr)
  fix msg ps s1 svc
  assume lock: "move (Wrapped ''locking service registration bond'') E s signer moduleEscrowAddr
           (amount (p_service_registration_bond ps)) = Inr s1"
    and s': "s' = s1\<lparr>cs_meta := bput keyNextSvcID (MetaU64 (svc_id svc + 1)) (cs_meta s1),
                 cs_services := bput (svc_id svc) svc (cs_services s1),
                 cs_svc_by_name := bput (svc_name svc) (svc_id svc) (cs_svc_by_name s1)\<rparr>"
  note same = lock_facts(2) [OF inv_accounts [OF assms(1)] assms(2) lock]
  show ?thesis
    using gets_same_but_accounts(2) [OF same] same_but_accounts_fields(5) [OF same]
    by (simp add: quiet_def forward_eq s')
qed

lemma request_inference_quiet [handler_quiet]:
  assumes "chain_inv E {} s" and "isValidAddress signer" and "applyRequestInference E s signer p h = Inr (s', k, ev)"
  shows "quiet s s'"
  using assms(3)
proof (rule applyRequestInference_Inr)
  fix msg svc ps s1 deadline r
  assume lock: "move id E s signer moduleEscrowAddr (amount (svc_price svc)) = Inr s1"
    and k: "k = getMetaUint64 s1 keyNextReqID" and r: "r = \<lparr>req_id = k, req_service_id = mri_service_id msg, req_requester = signer,
         req_input_hash = mri_input_hash msg, req_input_uri = mri_input_uri msg,
         req_input_text = mri_input_text msg, req_escrow = svc_price svc, req_deadline = deadline,
         req_status = StatusPending, req_created_at = h, req_finalized_at = 0,
         req_result = None, req_paid = None, req_submitted_at = 0, req_challenges = [],
         req_provider_bond = None, req_vouchers = []\<rparr>"
    and s': "s' = s1\<lparr>cs_meta := bput keyNextReqID (MetaU64 (req_id r + 1)) (cs_meta s1),
                 cs_requests := bput (req_id r) r (cs_requests s1)\<rparr>"
  note same = lock_facts(2) [OF inv_accounts [OF assms(1)] assms(2) lock]
  note g = gets_same_but_accounts [OF same]
  have "j \<noteq> k" if "getRequest s j = Inr q" for j q
    using wf_request [OF inv_wf [OF assms(1)] that] by (auto simp: req_ok_def k g)
  then have "forward s s'"
    by (intro forward_same) (auto simp: s' r g)
  then show ?thesis
    using same_but_accounts_fields(5) [OF same] by (simp add: quiet_def s')
qed

lemma submit_result_quiet [handler_quiet]:
  assumes "chain_inv E {} s" and "isValidAddress signer" and app: "applySubmitResult E s signer p h = Inr (s', fin, evs)"
  shows "quiet s s'"
proof -
  obtain msg r ps where a: "dec_submit_result E p = Some msg" "getRequest s (msr_request_id msg) = Inr r"
    "paramsLocked s = Inr ps"
    using app by (rule applySubmitResult_Inr)
  note f = submit_result_facts [OF assms a]
  have "forward s s'"
    by (rule forward_upd [OF f(6) stored_id [OF assms(1) a(2)]]) (simp_all add: f(4) isOpen_def)
  then show ?thesis
    using close_frame_fields(4) [OF f(3)] by (simp add: quiet_def)
qed

lemma transfer_quiet [handler_quiet]:
  assumes "chain_inv E D s" and "applyTransfer E s signer p = Inr (s', ev)"
  shows "quiet s s'"
  using assms(2)
proof (rule applyTransfer_Inr)
  fix msg
  assume "move id E s signer (mt_to msg) (amount (mt_amount msg)) = Inr s'"
  note same = move_facts(3) [OF inv_accounts [OF assms(1)] this]
  show ?thesis
    using gets_same_but_accounts [OF same] same_but_accounts_fields(5) [OF same]
    by (simp add: quiet_def forward_eq)
qed

lemma register_domain_quiet [handler_quiet]:
  assumes "applyRegisterDomain E s signer p h = Inr (s', k, ev)"
  shows "quiet s s'"
  using assms by (rule applyRegisterDomain_Inr) (auto simp: quiet_def intro!: forward_same)

lemma challenge_quiet [handler_quiet]:
  assumes "chain_inv E {} s" and "isValidAddress signer" and app: "applyChallenge E s signer p h = Inr (s', ev)"
  shows "quiet s s'"
proof -
  obtain msg r ps where a: "dec_challenge E p = Some msg" "getRequest s (mc_request_id msg) = Inr r"
    "paramsLocked s = Inr ps"
    using app by (rule applyChallenge_Inr)
  note f = challenge_facts [OF assms a]
  have "forward s s'"
    by (rule forward_upd [OF f(4) stored_id [OF assms(1) a(2)]]) (simp_all add: f(5) isOpen_def challenged_def)
  then show ?thesis
    using close_frame_fields(4) [OF f(3)] by (simp add: quiet_def)
qed

lemma vouch_quiet [handler_quiet]:
  assumes "chain_inv E {} s" and "isValidAddress signer" and app: "applyVouch E s signer p h = Inr (s', ev)"
  shows "quiet s s'"
proof -
  obtain msg r ps where a: "dec_vouch E p = Some msg" "getRequest s (mv_request_id msg) = Inr r"
    "paramsLocked s = Inr ps"
    using app by (rule applyVouch_Inr)
  note f = vouch_facts [OF assms a]
  obtain v where "getRequest s' = (getRequest s)(req_id r := Inr (vouched v r))"
    using f(6) by blast
  then have "forward s s'"
    by (rule forward_upd [OF _ stored_id [OF assms(1) a(2)]]) (simp_all add: f(4) isOpen_def vouched_def)
  then show ?thesis
    using close_frame_fields(4) [OF f(3)] by (simp add: quiet_def)
qed

lemma update_service_quiet [handler_quiet]:
  assumes "applyUpdateService E s signer p h = Inr (s', ev)"
  shows "quiet s s'"
  using assms by (rule applyUpdateService_Inr) (auto simp: quiet_def putService_Inr intro!: forward_same)

lemma deactivate_service_quiet [handler_quiet]:
  assumes "chain_inv E D s" and "applyDeactivateService E s signer p h = Inr (s', ev)"
  shows "quiet s s'"
  using assms(2)
proof (rule applyDeactivateService_Inr)
  fix msg svc ps s1 c
  assume svc: "getService s (mds_service_id msg) = Inr svc"
    and pay: "settleServiceBond E s ps svc h = Inr (s1, c)" and put: "putService E s1 (retired svc) = Inr s'"
  have id: "getService s (svc_id svc) = Inr svc"
    using svc service_id [OF assms(1) svc] by simp
  from pay have "pays E [(if p_min_service_lifetime ps <=s h - svc_created_at svc then svc_owner svc
        else moduleTreasuryAddr, amount (svc_registration_bond svc))] s = Inr s1"
    by (simp only: settleServiceBond_Inr)
  note f = retire(4,7) [OF assms(1) id this put]
  then have "getRequest s' = getRequest s"
    by (simp add: getRequest_def fun_eq_iff)
  then show ?thesis
    using f by (simp add: quiet_def forward_eq)
qed

lemma deactivate_domain_quiet [handler_quiet]:
  assumes inv: "chain_inv E {} s" and app: "applyDeactivateDomain E s signer p h = Inr (s', evs)"
  shows "quiet s s'"
proof -
  obtain msg where msg: "dec_deactivate_domain E p = Some msg"
    using app by (rule applyDeactivateDomain_Inr)
  note f = deactivate_domain_facts [OF inv app msg]
  have "\<exists>r'. getRequest s' k = Inr r' \<and> req_status r \<le> req_status r' \<and> (terminal (req_status r) \<longrightarrow> r' = r)"
    if r: "getRequest s k = Inr r" for k r
  proof -
    obtain v where "getService s (req_service_id r) = Inr v"
      by (rule wf_request_service [OF inv_wf [OF inv] r])
    from f(5) [OF r this] show ?thesis
      by (cases "isOpen r") (auto simp: isOpen_iff [symmetric] dest: isOpen_iff [THEN iffD1])
  qed
  then show ?thesis
    using f(7) by (auto simp: quiet_def forward_def)
qed

lemma resolve_quiet [handler_quiet]:
  assumes inv: "chain_inv E {} s" and app: "applyResolveChallenge E s signer p h = Inr (s', evs)"
  shows "quiet s s'"
  using app
proof (rule applyResolveChallenge_Inr)
  fix msg r ev
  assume r: "getRequest s (mrc_request_id msg) = Inr r" and st: "req_status r = StatusChallenged"
    and run: "mrc_decision msg = ''dismiss'' \<and> executeDismiss E h s r = Inr (s', ev)
       \<or> mrc_decision msg = ''slash'' \<and> executeSlash E h s r = Inr (s', ev)"
  note id = stored_id [OF inv r]
  obtain svc where svc: "getService s (req_service_id r) = Inr svc"
    by (rule wf_request_service [OF inv_wf [OF inv] r])
  have "isOpen r" using st by (simp add: isOpen_def)
  note fu = forward_upd [OF _ id this]
  from run show ?thesis
  proof
    assume "mrc_decision msg = ''dismiss'' \<and> executeDismiss E h s r = Inr (s', ev)"
    note d = dismiss.step(2,4) [OF inv id st svc this [THEN conjunct2]]
    show ?thesis using fu [OF d(2)] close_frame_fields(4) [OF d(1)] st by (simp add: quiet_def)
  next
    assume "mrc_decision msg = ''slash'' \<and> executeSlash E h s r = Inr (s', ev)"
    note d = slash.step(2,4) [OF inv id st svc this [THEN conjunct2]]
    show ?thesis using fu [OF d(2)] close_frame_fields(4) [OF d(1)] st by (simp add: quiet_def)
  qed
qed

lemma dispatch_quiet:
  assumes "chain_inv E {} s" and "isValidAddress signer" and "dispatch E s signer t h = Inr (s', rc)"
  shows "quiet s s'"
  using assms by (simp only: dispatch_def Let_def split: if_split_asm) (auto dest: handler_quiet)

lemma sweepRequest_forward:
  "req_status r \<le> req_status (sweepRequest s ps h r)" "terminal (req_status r) \<Longrightarrow> sweepRequest s ps h r = r"
  using isOverdue_open [of ps h r] by (auto simp: sweepRequest_overdue isOpen_def)

lemma node_step_forward:
  assumes sha: "sha_ok E" and inv: "chain_inv E {} (nd_db nd)" and step: "node_step E nd nd'"
  shows "forward (nd_db nd) (nd_db nd')"
  using step
proof cases
  case (tx t res)
  show ?thesis
  proof (rule submitTx_cases [of E t nd])
    fix signer s' rc
    assume a: "checkEnvelope E t = Inr signer" "runTx E signer t (nd_db nd) = Inr (s', rc)"
      "submitTx E t nd = (Inr rc, nd\<lparr>nd_db := s', nd_bus := emitAll (pendingOf rc) (nd_bus nd)\<rparr>)"
    obtain s1 where d: "dispatch E (nd_db nd) signer t (heightLocked (nd_db nd)) = Inr (s1, rc)"
      and inc: "incNonce E s1 signer = Inr s'"
      using a(2) by (auto simp: runTx_def split: if_splits)
    have "forward (nd_db nd) s1"
      using dispatch_quiet [OF inv signer_valid [OF sha a(1)] d] by (simp add: quiet_def)
    then show ?thesis
      using inc a(3) tx by (auto simp: incNonce_Inr forward_def)
  qed (use tx in \<open>auto intro: forward_same\<close>)
next
  case (block now res)
  show ?thesis
  proof (rule commitBlock_cases [of E nd now])
    fix s' h evs
    assume a: "commitDb E (nd_db nd) = Inr (s', h, evs)"
      "commitBlock E now nd = (Inr (), nd\<lparr>nd_db := s', nd_bus :=
         emit (mk_event h (BlockCommitted \<lparr>ebc_height = h, ebc_time = now\<rparr>)) (emitAll evs (nd_bus nd))\<rparr>)"
    obtain ps where "paramsLocked (nd_db nd) = Inr ps"
      by (rule wf_params [OF inv_wf [OF inv]])
    from commitDb_facts(5) [OF inv a(1) this] a(2) block show ?thesis
      by (auto simp: forward_def sweepRequest_forward)
  qed (use block in \<open>auto intro: forward_same\<close>)
next
  case (minted a n s')
  from gets_same_but_accounts(2) [OF mint_keeps(3) [OF inv minted(2,3)]] minted(1) show ?thesis
    by (simp add: forward_same)
next
  case (configured p s')
  then show ?thesis by (auto simp: setParams_def putMeta_def intro!: forward_same)
next
  case (appointed a s')
  then show ?thesis by (auto simp: setAuthority_def putMeta_def intro!: forward_same)
qed

end
