(* ===== verification/Demo.thy ===== *)
theory Demo
  imports System
begin

text \<open>
  A concrete run of the chain, used to show that the hypotheses of the properties can hold. The
  environment is a simple instance of the parameters: a store that accepts every key, a hash that
  returns the key itself, signatures that repeat the public key, and decoders that read the messages
  of the run. Four accounts (a provider, a requester, a challenger and a voucher) go through a
  registration, a request, a submission, a challenge and a vouch.
\<close>

definition demo_pub :: "u8 \<Rightarrow> bytes" where
  "demo_pub n = replicate 32 n"

definition demo_addr :: "u8 \<Rightarrow> string" where
  "demo_addr n = ''aios1'' @ hexEncode (replicate 20 n)"

abbreviation "provider \<equiv> demo_addr 1"
abbreviation "requester \<equiv> demo_addr 2"
abbreviation "challenger \<equiv> demo_addr 3"
abbreviation "witnessA \<equiv> demo_addr 4"

definition demo_att :: "string \<Rightarrow> attestation" where
  "demo_att out = \<lparr>att_provider = '''', att_domain_id = 0, att_model_sha256 = '''', att_runtime_id = '''',
     att_hardware_tag = '''', att_precision = '''', att_tokenizer_id = '''', att_input_hash = ''in'',
     att_output_hash = out, att_produced_at = 0, att_signature_hex = ''''\<rparr>"

definition demo_env :: env where
  "demo_env = \<lparr>
     put_err = (\<lambda>b k. if length k = 0 then Some ''key required'' else None),
     sha256 = (\<lambda>b. take 32 (b @ replicate 32 0)),
     ed25519_verify = (\<lambda>pub m sig. sig = pub @ pub),
     encode_tx = (\<lambda>t. Some (string_bytes (tx_payload t))),
     dec_register_service = (\<lambda>p. if p = ''svc'' then
        Some \<lparr>mrs_owner = provider, mrs_name = ''echo'', mrs_description = '''', mrs_price = aios 10, mrs_domain_id = 0\<rparr>
        else None),
     dec_request_inference = (\<lambda>p. if p = ''req'' then
        Some \<lparr>mri_requester = requester, mri_service_id = 1, mri_input_hash = ''in'', mri_input_uri = '''',
              mri_input_text = ''hi'', mri_max_price = aios 12, mri_deadline = 1\<rparr> else None),
     dec_submit_result = (\<lambda>p. if p = ''res'' then
        Some \<lparr>msr_provider = provider, msr_request_id = 1,
              msr_result = \<lparr>res_output_hash = ''good'', res_output_uri = '''', res_output_text = '''',
                            res_attestation = demo_att ''good''\<rparr>\<rparr> else None),
     dec_transfer = (\<lambda>p. if p = ''pay'' then
        Some \<lparr>mt_from = requester, mt_to = provider, mt_amount = aios 5\<rparr> else None),
     dec_register_domain = (\<lambda>p. if p = ''dom'' then
        Some \<lparr>mrd_authority = provider, mrd_model_sha256 = ''m'', mrd_runtime_id = ''r'', mrd_hardware_tag = ''h'',
              mrd_precision = ''p'', mrd_tokenizer_id = '''', mrd_description = '''', mrd_voucher_margin = 0\<rparr> else None),
     dec_challenge = (\<lambda>p. if p = ''chl'' then
        Some \<lparr>mc_challenger = challenger, mc_request_id = 1, mc_attestation = demo_att ''bad''\<rparr> else None),
     dec_vouch = (\<lambda>p. if p = ''vch'' then
        Some \<lparr>mv_voucher = witnessA, mv_request_id = 1, mv_attestation = demo_att ''good''\<rparr> else None),
     dec_update_service = (\<lambda>p. if p = ''upd'' then
        Some \<lparr>mus_owner = provider, mus_service_id = 1, mus_description = ''d'', mus_price = aios 20\<rparr> else None),
     dec_deactivate_service = (\<lambda>p. if p = ''off'' then
        Some \<lparr>mds_owner = provider, mds_service_id = 1\<rparr> else None),
     dec_deactivate_domain = (\<lambda>p. if p = ''dof'' then
        Some \<lparr>mdd_authority = provider, mdd_domain_id = 1\<rparr> else None),
     dec_resolve_challenge = (\<lambda>p. if p = ''dis'' then
        Some \<lparr>mrc_authority = provider, mrc_request_id = 1, mrc_decision = ''dismiss''\<rparr> else None)\<rparr>"

definition demo_tx :: "string \<Rightarrow> u64 \<Rightarrow> u8 \<Rightarrow> string \<Rightarrow> signed_tx" where
  "demo_tx ty n who p =
     \<lparr>tx_type = ty, tx_nonce = n, tx_pub_key_hex = hexEncode (demo_pub who),
      tx_signature_hex = hexEncode (demo_pub who @ demo_pub who), tx_payload = p\<rparr>"

subsection \<open>Facts about the addresses of the run\<close>

lemma demo_hash [simp]: "addressFromPubKey (sha256 demo_env) (demo_pub n) = demo_addr n"
  by (simp add: addressFromPubKey_def demo_env_def demo_pub_def demo_addr_def)

lemma demo_sha: "sha_ok demo_env"
  by (auto simp: sha_ok_def demo_env_def min_def)

lemma demo_accepts: "put_accepts demo_env"
  by (auto simp: put_accepts_def demo_env_def)

lemma demo_put [simp]: "put_err demo_env b k = (if length k = 0 then Some ''key required'' else None)"
  by (simp add: demo_env_def)

lemma demo_addr_valid [simp]: "isValidAddress (demo_addr n)"
  by (simp add: demo_addr_def isValidAddress_def hexDecode_Encode)

lemma demo_addr_length [simp]: "length (demo_addr n) = 45"
  by (rule isValidAddress_length) simp

lemma demo_addr_ne [simp]: "demo_addr n \<noteq> ''''" "string_bytes (demo_addr n) \<noteq> []"
  using demo_addr_length [of n] by (force, metis length_0_conv length_string_bytes zero_neq_numeral)

lemma demo_addr_order [simp]:
  "demo_addr 1 < demo_addr 2" "demo_addr 2 < demo_addr 3" "demo_addr 3 < demo_addr 4"
  "demo_addr 4 < moduleEscrowAddr" "moduleEscrowAddr < moduleTreasuryAddr"
  by code_simp+

lemma demo_addr_module [simp]:
  "demo_addr n \<noteq> moduleEscrowAddr" "moduleEscrowAddr \<noteq> demo_addr n"
  "demo_addr n \<noteq> moduleTreasuryAddr" "moduleTreasuryAddr \<noteq> demo_addr n"
  "moduleTreasuryAddr \<noteq> moduleEscrowAddr" "moduleEscrowAddr \<noteq> moduleTreasuryAddr"
  using demo_addr_valid [of n] moduleAddr_invalid by (metis, metis, metis, metis)
    (simp_all add: moduleEscrowAddr_def moduleTreasuryAddr_def)

lemma demo_addr_eq: "demo_addr m = demo_addr n \<longleftrightarrow> m = n"
proof
  assume "demo_addr m = demo_addr n"
  then have "hexDecode (hexEncode (replicate 20 m)) = hexDecode (hexEncode (replicate 20 n))"
    by (simp add: demo_addr_def)
  then show "m = n" by (simp add: hexDecode_Encode)
qed simp

text \<open>
  The envelope of a transaction of the run passes the checks and its signer is the address of the key.
\<close>

lemma demo_envelope:
  assumes "ty \<in> set known_tx_types" and "p \<noteq> ''''"
  shows "checkEnvelope demo_env (demo_tx ty n who p) = Inr (demo_addr who)"
proof -
  have "length (hexEncode bs) \<noteq> 0" if "bs \<noteq> []" for bs
    using that by simp
  then have "hexEncode (demo_pub who) \<noteq> []" "hexEncode (demo_pub who @ demo_pub who) \<noteq> []"
    by (metis demo_pub_def append_is_Nil_conv length_0_conv length_replicate zero_neq_numeral)+
  then show ?thesis
    using assms unfolding checkEnvelope_Inr
    by (auto simp: validateBasic_def demo_tx_def hexDecode_Encode txCanonicalBytes_def)
      (auto simp: demo_env_def demo_pub_def addressFromPubKey_def demo_addr_def)
qed

subsection \<open>States of the run\<close>

definition demo_svc :: service where
  "demo_svc = \<lparr>svc_id = 1, svc_owner = provider, svc_name = ''echo'', svc_description = '''', svc_price = aios 10,
     svc_domain_id = 0, svc_active = True, svc_created_at = 0, svc_registration_bond = aios 100\<rparr>"

definition demo_acc :: "string \<Rightarrow> u64 \<Rightarrow> string \<times> account" where
  "demo_acc a n = (a, \<lparr>acc_address = a, acc_balance = n, acc_nonce = 0\<rparr>)"

definition demo_state :: "inference_request \<Rightarrow> chain_state" where
  "demo_state r = \<lparr>
     cs_meta = [(keyAuthority, MetaString provider), (keyHeight, MetaU64 10), (keyNextDomainID, MetaU64 1),
                (keyNextReqID, MetaU64 2), (keyNextSvcID, MetaU64 2), (keyParams, MetaParams defaultParams)],
     cs_accounts = [demo_acc provider 1000, demo_acc requester 1000, demo_acc challenger 1000,
                    demo_acc witnessA 1000, demo_acc moduleEscrowAddr 1000],
     cs_services = [(1, demo_svc)], cs_svc_by_name = [(''echo'', 1)], cs_requests = [(1, r)],
     cs_nonces = [], cs_domains = []\<rparr>"

definition demo_pending :: inference_request where
  "demo_pending = \<lparr>req_id = 1, req_service_id = 1, req_requester = requester, req_input_hash = ''in'',
     req_input_uri = '''', req_input_text = ''hi'', req_escrow = aios 10, req_deadline = 10,
     req_status = StatusPending, req_created_at = 4, req_finalized_at = 0, req_result = None,
     req_paid = None, req_submitted_at = 0, req_challenges = [], req_provider_bond = None, req_vouchers = []\<rparr>"

definition demo_res :: result where
  "demo_res = \<lparr>res_output_hash = ''good'', res_output_uri = '''', res_output_text = '''',
     res_attestation = demo_att ''good''\<rparr>"

definition demo_submitted :: inference_request where
  "demo_submitted = submitted 5 demo_res (aios 50) demo_pending"

definition demo_ch :: challenge where
  "demo_ch = \<lparr>ch_challenger = challenger, ch_posted_at = 6, ch_attestation = demo_att ''bad'', ch_bond = aios 50\<rparr>"

definition demo_challenged :: inference_request where
  "demo_challenged = challenged demo_ch demo_submitted"

definition demo_vo :: voucher where
  "demo_vo = \<lparr>v_voucher = witnessA, v_posted_at = 7, v_attestation = demo_att ''good'', v_bond = aios 25,
     v_supports_provider = True\<rparr>"

definition demo_vouched :: inference_request where
  "demo_vouched = vouched demo_vo demo_challenged"

lemmas demo_reqs = demo_pending_def demo_submitted_def demo_challenged_def demo_vouched_def demo_res_def
  demo_ch_def demo_vo_def submitted_def challenged_def vouched_def demo_att_def aios_def isPositive_iff

lemma demo_addr_less [simp]:
  "demo_addr 1 < demo_addr 3" "demo_addr 1 < demo_addr 4" "demo_addr 2 < demo_addr 4"
  "demo_addr 1 < moduleEscrowAddr" "demo_addr 2 < moduleEscrowAddr" "demo_addr 3 < moduleEscrowAddr"
  by (meson demo_addr_order less_trans)+

lemma demo_gets [simp]:
  "getRequest (demo_state r) k = (if k = 1 then Inr r else Inl ErrRequestNotFound)"
  "getService (demo_state r) k = (if k = 1 then Inr demo_svc else Inl ErrServiceNotFound)"
  "getDomain (demo_state r) k = Inl ErrDomainNotFound"
  "paramsLocked (demo_state r) = Inr defaultParams"
  "getMetaUint64 (demo_state r) keyNextSvcID = 2" "getMetaUint64 (demo_state r) keyNextReqID = 2"
  "getMetaUint64 (demo_state r) keyNextDomainID = 1" "heightLocked (demo_state r) = 10"
  "authorityLocked (demo_state r) = provider" "nextNonce (demo_state r) a = 0"
  by (auto simp: demo_state_def getRequest_def getService_def getDomain_def paramsLocked_def getMetaUint64_def
      heightLocked_def authorityLocked_def getMetaString_def nextNonce_def meta_keys)

lemma demo_buckets:
  "bucket_ok (cs_accounts (demo_state r))" "bucket_ok (cs_services (demo_state r))"
  "bucket_ok (cs_requests (demo_state r))" "bucket_ok (cs_domains (demo_state r))"
  by (simp_all add: demo_state_def bucket_ok_def demo_acc_def)

lemma demo_bal:
  "bal (demo_state r) moduleEscrowAddr = 1000" "bal (demo_state r) provider = 1000"
  "bal (demo_state r) requester = 1000" "bal (demo_state r) challenger = 1000" "bal (demo_state r) witnessA = 1000"
  "bal (demo_state r) moduleTreasuryAddr = 0" "total_supply (demo_state r) = 5000"
  using demo_addr_order demo_addr_less
  by (auto simp: bal_def loadAccount_def demo_state_def demo_acc_def total_supply_def bsum_def dest: less_imp_neq)

lemma demo_inv:
  assumes "req_shape r" and "req_id r = 1" and "req_service_id r = 1" and "req_locked r \<le> 900"
  shows "chain_inv demo_env {} (demo_state r)"
proof -
  have "tables_ok demo_env {} (demo_state r)"
    using assms demo_buckets
    by (auto simp: tables_ok_def counters_ok_def names_ok_def svc_ok_def req_ok_def succeeds_def demo_svc_def
        domain_live_def) (auto simp: demo_state_def split: if_splits)
  moreover have "obligations (demo_state r) = req_locked r + 100"
    by (simp add: obligations_def demo_state_def bsum_def svc_locked_def demo_svc_def aios_def)
  ultimately show ?thesis
    using assms demo_buckets demo_bal by (simp add: chain_inv_def accounts_ok_def solvent_def)
qed

lemma demo_shapes [simp]:
  "req_shape demo_pending" "req_shape demo_submitted" "req_shape demo_challenged" "req_shape demo_vouched"
  by (simp_all add: req_shape_def demo_reqs)

lemma demo_fields [simp]:
  "req_id demo_pending = 1" "req_id demo_submitted = 1" "req_id demo_challenged = 1" "req_id demo_vouched = 1"
  "req_service_id demo_pending = 1" "req_service_id demo_submitted = 1" "req_service_id demo_challenged = 1"
  "req_service_id demo_vouched = 1" "req_status demo_pending = StatusPending"
  "req_status demo_submitted = StatusSubmitted" "req_status demo_challenged = StatusChallenged"
  "req_status demo_vouched = StatusChallenged" "req_challenges demo_vouched = [demo_ch]"
  "req_vouchers demo_vouched = [demo_vo]" "req_vouchers demo_challenged = []" "req_challenges demo_challenged = [demo_ch]"
  by (simp_all add: demo_reqs)

lemma demo_locked:
  "req_locked demo_pending = 10" "req_locked demo_submitted = 60" "req_locked demo_challenged = 110"
  "req_locked demo_vouched = 135"
  by (simp_all add: req_locked_def req_stakes_def challenge_locked_def voucher_locked_def demo_reqs)

lemma demo_invs:
  "chain_inv demo_env {} (demo_state demo_pending)" "chain_inv demo_env {} (demo_state demo_submitted)"
  "chain_inv demo_env {} (demo_state demo_challenged)" "chain_inv demo_env {} (demo_state demo_vouched)"
  by (simp_all add: demo_inv demo_locked)

subsection \<open>Nodes of the run\<close>

definition demo_node :: "inference_request \<Rightarrow> node" where
  "demo_node r = \<lparr>nd_db = demo_state r, nd_bus = empty_bus\<rparr>"

lemma demo_node_simps [simp]: "nd_db (demo_node r) = demo_state r" "nd_bus (demo_node r) = empty_bus"
  by (simp_all add: demo_node_def)

lemma demo_ids_left: "ids_left (demo_state r)"
  by (simp add: ids_left_def)

lemma demo_commit:
  assumes "chain_inv demo_env {} (demo_state r)"
  shows "\<exists>nd'. commitBlock demo_env now (demo_node r) = (Inr (), nd')"
  using commitDb_ok [OF demo_accepts assms] by (rule_tac commitBlock_cases [of demo_env "demo_node r" now]) auto

text \<open>The dispute of the run long after its resolution window has closed.\<close>

definition demo_late :: chain_state where
  "demo_late = (demo_state demo_vouched)\<lparr>cs_meta := bput keyHeight (MetaU64 40) (cs_meta (demo_state demo_vouched))\<rparr>"

lemma demo_late_gets [simp]:
  "getRequest demo_late = getRequest (demo_state demo_vouched)" "getService demo_late = getService (demo_state demo_vouched)"
  "paramsLocked demo_late = Inr defaultParams" "heightLocked demo_late = 40"
  by (simp_all add: demo_late_def heightLocked_def)

lemma demo_late_inv: "chain_inv demo_env {} demo_late"
  using demo_invs(4) unfolding demo_late_def
  by (simp add: chain_inv_def solvent_def wf_meta_other)

definition demo_genesis :: node where
  "demo_genesis = \<lparr>nd_db = empty_db\<lparr>cs_meta := [(keyChainID, MetaString ''aios-devnet-1''), (keyHeight, MetaU64 0),
     (keyNextDomainID, MetaU64 1), (keyNextReqID, MetaU64 1), (keyNextSvcID, MetaU64 1),
     (keyParams, MetaParams defaultParams)]\<rparr>, nd_bus = empty_bus\<rparr>"

lemma demo_genesis_reach: "reach demo_env demo_genesis"
  unfolding demo_genesis_def
  by (rule reach.genesis) (simp add: initState_def initKey_def putMeta_def bucket_put_def empty_db_def meta_keys)

definition demo_funded :: node where
  "demo_funded = demo_genesis\<lparr>nd_db := (nd_db demo_genesis)\<lparr>cs_accounts := [demo_acc provider 1000]\<rparr>\<rparr>"

lemma demo_funded_reach: "reach demo_env demo_funded"
proof -
  have "mint demo_env (nd_db demo_genesis) provider 1000
      = Inr ((nd_db demo_genesis)\<lparr>cs_accounts := [demo_acc provider 1000]\<rparr>)"
    by (simp add: mint_def credit_def bucket_put_def Let_def loadAccount_def demo_genesis_def demo_acc_def empty_db_def)
  moreover have "total_supply (nd_db demo_genesis) = 0"
    by (simp add: total_supply_def bsum_def demo_genesis_def empty_db_def)
  moreover have "unat (1000 :: u64) < 2 ^ 64"
    by (rule unat_64_less)
  ultimately have "node_step demo_env demo_genesis demo_funded"
    unfolding demo_funded_def by (intro node_step.minted) (assumption, simp only: add_0)
  then show ?thesis
    by (rule reach.step [OF demo_genesis_reach])
qed

definition demo_registered :: node where
  "demo_registered = snd (submitTx demo_env (demo_tx txRegisterService 0 1 ''svc'') demo_funded)"

lemma demo_registered_reach: "reach demo_env demo_registered"
proof -
  have "ids_left (nd_db demo_funded)"
    by (simp add: ids_left_def demo_funded_def demo_genesis_def getMetaUint64_def meta_keys)
  moreover have "submitTx demo_env (demo_tx txRegisterService 0 1 ''svc'') demo_funded
      = (fst (submitTx demo_env (demo_tx txRegisterService 0 1 ''svc'') demo_funded), demo_registered)"
    by (simp add: demo_registered_def)
  ultimately show ?thesis
    using reach.step [OF demo_funded_reach] node_step.tx by blast
qed

lemma demo_register_run:
  "applyRegisterService demo_env (nd_db demo_funded) provider ''svc'' 0 =
   Inr ((nd_db demo_funded)\<lparr>
     cs_meta := bput keyNextSvcID (MetaU64 2) (cs_meta (nd_db demo_funded)),
     cs_accounts := [demo_acc provider 900, demo_acc moduleEscrowAddr 100],
     cs_services := [(1, demo_svc)], cs_svc_by_name := [(''echo'', 1)]\<rparr>, 1,
     mk_event 0 (ServiceRegistered \<lparr>esr_service_id = 1, esr_owner = provider, esr_name = ''echo'',
       esr_description = '''', esr_price = aios 10\<rparr>))"
proof -
  have msg: "dec_register_service demo_env ''svc'' = Some
      \<lparr>mrs_owner = provider, mrs_name = ''echo'', mrs_description = '''', mrs_price = aios 10, mrs_domain_id = 0\<rparr>"
    by (simp add: demo_env_def)
  have esc: "moduleEscrowAddr \<noteq> []" "\<not> moduleEscrowAddr < provider"
    using demo_addr_less(4) by (simp add: moduleEscrowAddr_def, simp only: less_not_sym not_False_eq_True)
  show ?thesis
    unfolding applyRegisterService_def decode_def msg
    by (simp add: check_def requireActiveDomain_def isPositive_iff aios_def lockBond_move move_def debit_def credit_def
        loadAccount_def bucket_put_def putMeta_def putService_def Let_def esc demo_svc_def
        demo_funded_def demo_genesis_def empty_db_def demo_acc_def paramsLocked_def getMetaUint64_def
        defaultParams_def string_bytes_def)
      (simp add: meta_keys)
qed

lemma demo_registered_run:
  "submitTx demo_env (demo_tx txRegisterService 0 1 ''svc'') demo_funded =
   (Inr (one_event txRegisterService 1 (mk_event 0 (ServiceRegistered
      \<lparr>esr_service_id = 1, esr_owner = provider, esr_name = ''echo'', esr_description = '''', esr_price = aios 10\<rparr>))),
    demo_registered)"
proof -
  have "checkEnvelope demo_env (demo_tx txRegisterService 0 1 ''svc'') = Inr provider"
    by (rule demo_envelope) (simp_all add: known_tx_types_def)
  moreover have "heightLocked (nd_db demo_funded) = 0" "nextNonce (nd_db demo_funded) provider = 0"
    by (simp_all add: heightLocked_def getMetaUint64_def nextNonce_def demo_funded_def demo_genesis_def empty_db_def meta_keys)
  ultimately show ?thesis
    unfolding demo_registered_def submitTx_def runTx_def dispatch_def
    by (simp add: demo_tx_def demo_register_run dbUpdate_def incNonce_def bucket_put_def)
qed

lemma demo_registered_db:
  "obligations (nd_db demo_registered) = 100" "bal (nd_db demo_registered) moduleEscrowAddr = 100"
proof -
  have "checkEnvelope demo_env (demo_tx txRegisterService 0 1 ''svc'') = Inr provider"
    by (rule demo_envelope) (simp_all add: known_tx_types_def)
  moreover have "heightLocked (nd_db demo_funded) = 0" "nextNonce (nd_db demo_funded) provider = 0"
    by (simp_all add: heightLocked_def getMetaUint64_def nextNonce_def demo_funded_def demo_genesis_def empty_db_def meta_keys)
  ultimately have "nd_db demo_registered = (nd_db demo_funded)\<lparr>
     cs_meta := bput keyNextSvcID (MetaU64 2) (cs_meta (nd_db demo_funded)),
     cs_accounts := [demo_acc provider 900, demo_acc moduleEscrowAddr 100],
     cs_services := [(1, demo_svc)], cs_svc_by_name := [(''echo'', 1)], cs_nonces := [(provider, 1)]\<rparr>"
    unfolding demo_registered_def submitTx_def runTx_def dispatch_def
    by (simp add: demo_tx_def demo_register_run dbUpdate_def incNonce_def bucket_put_def nextNonce_def)
      (simp add: demo_funded_def demo_genesis_def empty_db_def)
  then show "obligations (nd_db demo_registered) = 100" "bal (nd_db demo_registered) moduleEscrowAddr = 100"
    by (simp_all add: obligations_def bsum_def svc_locked_def demo_svc_def aios_def bal_def loadAccount_def demo_acc_def
        demo_funded_def demo_genesis_def empty_db_def)
qed

subsection \<open>A service bound to a domain\<close>

definition demo_vd :: verification_domain where
  "demo_vd = \<lparr>dom_id = 1, dom_model_sha256 = ''m'', dom_runtime_id = ''r'', dom_hardware_tag = ''h'',
     dom_precision = ''p'', dom_tokenizer_id = '''', dom_description = '''', dom_registered_at = 0,
     dom_active = True, dom_voucher_margin = 0\<rparr>"

definition demo_dom_svc :: service where
  "demo_dom_svc = demo_svc\<lparr>svc_domain_id := 1\<rparr>"

definition demo_dom_state :: "inference_request \<Rightarrow> chain_state" where
  "demo_dom_state r = (demo_state r)\<lparr>
     cs_meta := bput keyNextDomainID (MetaU64 2) (cs_meta (demo_state r)),
     cs_services := [(1, demo_dom_svc)], cs_domains := [(1, demo_vd)]\<rparr>"

lemma demo_dom_gets [simp]:
  "getRequest (demo_dom_state r) k = (if k = 1 then Inr r else Inl ErrRequestNotFound)"
  "getService (demo_dom_state r) k = (if k = 1 then Inr demo_dom_svc else Inl ErrServiceNotFound)"
  "getDomain (demo_dom_state r) k = (if k = 1 then Inr demo_vd else Inl ErrDomainNotFound)"
  "paramsLocked (demo_dom_state r) = Inr defaultParams"
  "getMetaUint64 (demo_dom_state r) keyNextSvcID = 2" "getMetaUint64 (demo_dom_state r) keyNextReqID = 2"
  "getMetaUint64 (demo_dom_state r) keyNextDomainID = 2" "authorityLocked (demo_dom_state r) = provider"
  by (auto simp: demo_dom_state_def demo_state_def getRequest_def getService_def getDomain_def paramsLocked_def
      getMetaUint64_def authorityLocked_def getMetaString_def meta_keys)

lemma demo_dom_inv:
  assumes "req_shape r" and "req_id r = 1" and "req_service_id r = 1" and "req_locked r \<le> 900"
  shows "chain_inv demo_env {} (demo_dom_state r)"
proof -
  have b: "bucket_ok (cs_services (demo_dom_state r))" "bucket_ok (cs_requests (demo_dom_state r))"
    "bucket_ok (cs_domains (demo_dom_state r))" "cs_svc_by_name (demo_dom_state r) = [(''echo'', 1)]"
    by (simp_all add: demo_dom_state_def demo_state_def bucket_ok_def)
  have "tables_ok demo_env {} (demo_dom_state r)"
    using assms b
    by (auto simp: tables_ok_def counters_ok_def names_ok_def svc_ok_def req_ok_def dom_ok_def succeeds_def
        demo_svc_def demo_dom_svc_def demo_vd_def domain_live_def split: if_splits)
  moreover have "obligations (demo_dom_state r) = req_locked r + 100"
    by (simp add: obligations_def demo_dom_state_def demo_state_def bsum_def svc_locked_def demo_dom_svc_def
        demo_svc_def aios_def)
  moreover have "bal (demo_dom_state r) = bal (demo_state r)" "total_supply (demo_dom_state r) = total_supply (demo_state r)"
    "cs_accounts (demo_dom_state r) = cs_accounts (demo_state r)"
    by (simp_all add: demo_dom_state_def)
  ultimately show ?thesis
    using assms demo_buckets demo_bal by (simp add: chain_inv_def accounts_ok_def solvent_def)
qed

lemma demo_dom_invs:
  "chain_inv demo_env {} (demo_dom_state demo_pending)" "chain_inv demo_env {} (demo_dom_state demo_challenged)"
  by (simp_all add: demo_dom_inv demo_locked)

subsection \<open>Handlers that succeed\<close>

lemma demo_put_request [simp]:
  "putRequest demo_env s r = Inr (s\<lparr>cs_requests := bput (req_id r) r (cs_requests s)\<rparr>)"
proof -
  have "uint64Key (req_id r) \<noteq> []"
    using length_uint64Key [of "req_id r"] by force
  then show ?thesis by (simp add: putRequest_def bucket_put_def)
qed

lemma demo_lock:
  assumes "chain_inv demo_env {} (demo_state r)" and "a \<in> {provider, requester, challenger, witnessA}" and "unat n \<le> 1000"
  shows "\<exists>s1. move w demo_env (demo_state r) a moduleEscrowAddr n = Inr s1"
proof -
  have "bal (demo_state r) a = 1000"
    using assms(2) by (auto simp: demo_bal)
  then have "\<exists>s1 s'. debit demo_env (demo_state r) a n = Inr s1 \<and> credit demo_env s1 moduleEscrowAddr n = Inr s'"
    using assms by (intro lg.move_ok [OF inv_accounts [OF assms(1)]])
      (auto simp: addr_ok_module demo_accepts addr_okI)
  then show ?thesis
    by (auto simp: move_Inr_iff)
qed

lemma demo_submit_run:
  "\<exists>s' evs. applySubmitResult demo_env (demo_state demo_pending) provider ''res'' 10 = Inr (s', False, evs)"
proof -
  obtain s1 where "move (Wrapped ''locking provider bond'') demo_env (demo_state demo_pending) provider moduleEscrowAddr
      (amount (p_provider_bond defaultParams)) = Inr s1"
    using demo_lock [OF demo_invs(1), of provider "amount (p_provider_bond defaultParams)"]
    by (auto simp: defaultParams_def aios_def)
  moreover have "dec_submit_result demo_env ''res'' = Some
      \<lparr>msr_provider = provider, msr_request_id = 1, msr_result = demo_res\<rparr>"
    by (simp add: demo_env_def demo_res_def)
  moreover have "\<not> req_deadline demo_pending <s 10" "req_input_hash demo_pending = ''in''"
    by (simp_all add: demo_pending_def word_sless_alt)
  moreover have "p_challenge_window defaultParams \<noteq> 0"
    by (simp add: defaultParams_def)
  ultimately show ?thesis
    by (simp add: applySubmitResult_def lockBond_move Let_def matchDomain_def finishSubmit_def check_def decode_def
        demo_svc_def demo_res_def demo_att_def)
qed

lemma demo_challenge_run:
  "\<exists>s' ev. applyChallenge demo_env (demo_state demo_submitted) challenger ''chl'' 10 = Inr (s', ev)"
proof -
  obtain s1 where "move (Wrapped ''locking challenger bond'') demo_env (demo_state demo_submitted) challenger moduleEscrowAddr
      (amount (p_challenger_bond defaultParams)) = Inr s1"
    using demo_lock [OF demo_invs(2), of challenger "amount (p_challenger_bond defaultParams)"]
    by (auto simp: defaultParams_def aios_def)
  moreover have "dec_challenge demo_env ''chl'' = Some
      \<lparr>mc_challenger = challenger, mc_request_id = 1, mc_attestation = demo_att ''bad''\<rparr>"
    by (simp add: demo_env_def)
  moreover have "\<not> req_submitted_at demo_submitted + p_challenge_window defaultParams <s 10"
    "req_input_hash demo_submitted = ''in''" "req_result demo_submitted = Some demo_res" "req_challenges demo_submitted = []"
    by (simp_all add: demo_submitted_def submitted_def demo_pending_def defaultParams_def word_sless_alt)
  ultimately show ?thesis
    by (simp add: applyChallenge_def lockBond_move Let_def matchDomain_def check_def decode_def appendSlice_def
        demo_svc_def demo_res_def demo_att_def)
qed

lemma demo_vouch_run:
  "\<exists>s' ev. applyVouch demo_env (demo_state demo_challenged) witnessA ''vch'' 10 = Inr (s', ev)"
proof -
  have bond: "voucherBond defaultParams (req_provider_bond demo_challenged) = aios 25"
    by (simp add: voucherBond_def demo_reqs defaultParams_def word_sless_alt)
  obtain s1 where "move (Wrapped ''locking voucher bond'') demo_env (demo_state demo_challenged) witnessA moduleEscrowAddr
      (amount (aios 25)) = Inr s1"
    using demo_lock [OF demo_invs(3), of witnessA "amount (aios 25)"] by (auto simp: aios_def)
  moreover have "dec_vouch demo_env ''vch'' = Some
      \<lparr>mv_voucher = witnessA, mv_request_id = 1, mv_attestation = demo_att ''good''\<rparr>"
    by (simp add: demo_env_def)
  moreover have "\<not> ch_posted_at demo_ch + challengeResolutionWindowBlocks <s 10"
    "req_input_hash demo_challenged = ''in''" "req_result demo_challenged = Some demo_res"
    by (simp_all add: demo_reqs challengeResolutionWindowBlocks_def word_sless_alt)
  ultimately show ?thesis
    by (simp add: applyVouch_def lockBond_move Let_def matchDomain_def check_def decode_def appendSlice_def bond
        voucherSide_def demo_svc_def demo_res_def demo_att_def)
qed

lemma demo_request_run:
  "\<exists>s' ev. applyRequestInference demo_env (demo_state demo_pending) requester ''req'' 0 = Inr (s', 2, ev)"
proof -
  obtain s1 where mv: "move id demo_env (demo_state demo_pending) requester moduleEscrowAddr (amount (svc_price demo_svc)) = Inr s1"
    using demo_lock [OF demo_invs(1), of requester "amount (svc_price demo_svc)"]
    by (auto simp: demo_svc_def aios_def)
  have same: "same_but_accounts (demo_state demo_pending) s1"
    using move_facts(3) [OF inv_accounts [OF demo_invs(1)] mv] .
  have "dec_request_inference demo_env ''req'' = Some \<lparr>mri_requester = requester, mri_service_id = 1, mri_input_hash = ''in'',
      mri_input_uri = '''', mri_input_text = ''hi'', mri_max_price = aios 12, mri_deadline = 1\<rparr>"
    by (simp add: demo_env_def)
  moreover have "svc_active demo_svc" "denom (svc_price demo_svc) = ''aios''" "amount (svc_price demo_svc) = 10"
    by (simp_all add: demo_svc_def aios_def)
  moreover have "keyNextReqID \<noteq> []"
    by (simp add: keyNextReqID_def)
  ultimately show ?thesis
    using mv gets_same_but_accounts(4) [OF same]
    by (simp add: applyRequestInference_def Let_def check_def decode_def putMeta_def bucket_put_def aios_def word_sle_eq)
qed

lemma demo_deactivate_domain_run:
  "\<exists>s' evs. applyDeactivateDomain demo_env (demo_dom_state demo_challenged) provider ''dof'' 11 = Inr (s', evs)"
proof (rule deactivate_domain_ok [OF demo_accepts demo_dom_invs(2)])
  show "dec_deactivate_domain demo_env ''dof'' = Some \<lparr>mdd_authority = provider, mdd_domain_id = 1\<rparr>"
    by (simp add: demo_env_def)
  show "getDomain (demo_dom_state demo_challenged) (mdd_domain_id \<lparr>mdd_authority = provider, mdd_domain_id = 1\<rparr>) = Inr demo_vd"
    by simp
qed (simp_all add: requireAuthority_Inr demo_vd_def)

lemma demo_deactivate_service_run:
  "\<exists>s' ev. applyDeactivateService demo_env (demo_state demo_pending) provider ''off'' 10 = Inr (s', ev)"
proof -
  let ?s = "demo_state demo_pending"
  let ?ps = "[(if p_min_service_lifetime defaultParams <=s 10 - svc_created_at demo_svc then svc_owner demo_svc
               else moduleTreasuryAddr, amount (svc_registration_bond demo_svc))]"
  have "\<exists>s1. pays demo_env ?ps ?s = Inr s1"
    by (rule pays_ok [OF inv_accounts [OF demo_invs(1)] demo_accepts])
      (simp_all add: addr_ok_module [OF demo_accepts] addr_okI [OF demo_accepts] demo_svc_def demo_bal aios_def)
  then obtain s1 where "settleServiceBond demo_env ?s defaultParams demo_svc 10 =
      Inr (s1, if p_min_service_lifetime defaultParams <=s 10 - svc_created_at demo_svc
               then bond_coin (Some (svc_registration_bond demo_svc)) else zero_coin)"
    using settleServiceBond_Inr by blast
  moreover have "dec_deactivate_service demo_env ''off'' = Some \<lparr>mds_owner = provider, mds_service_id = 1\<rparr>"
    by (simp add: demo_env_def)
  moreover have "\<exists>s'. putService demo_env t (retired demo_svc) = Inr s'" for t
    using length_uint64Key [of 1] by (force simp: putService_Inr retired_def demo_svc_def string_bytes_def)
  ultimately show ?thesis
    by (simp add: applyDeactivateService_def check_def decode_def)
      (simp add: demo_svc_def)
qed

end
