(* ===== verification/Accounting.thy ===== *)
theory Accounting
  imports Block
begin

text \<open>
  The money a block moves: the contract of a settlement gives what a whole list of settlements pays to each
  account, and the four lists of a block together what the block pays. The escrow account loses
  exactly what was locked in the settled requests.
\<close>

section \<open>A list of settlements\<close>

definition income ::
  "chain_state \<Rightarrow> (service \<Rightarrow> inference_request \<Rightarrow> (string \<times> u64) list) \<Rightarrow> string \<Rightarrow> inference_request \<Rightarrow> nat" where
  "income s payouts a r =
     (case getService s (req_service_id r) of Inl _ \<Rightarrow> 0 | Inr svc \<Rightarrow> received (payouts svc r) a)"

definition outlay :: "string \<Rightarrow> inference_request list \<Rightarrow> nat" where
  "outlay a rs = (if a = moduleEscrowAddr then \<Sum>r\<leftarrow>rs. req_locked r else 0)"

lemma outlay_simps [simp]:
  "outlay a [] = 0" "outlay a (r # rs) = (if a = moduleEscrowAddr then req_locked r else 0) + outlay a rs"
  by (simp_all add: outlay_def)

lemma outlay_escrow: "outlay moduleEscrowAddr rs = (\<Sum>r\<leftarrow>rs. req_locked r)"
  by (simp add: outlay_def)

lemma income_frame: "close_frame s s' \<Longrightarrow> income s' = income s"
  by (simp add: income_def close_frame_gets fun_eq_iff)

context settlement
begin

lemma loop_bal:
  "chain_inv E D s \<Longrightarrow> distinct (map req_id rs) \<Longrightarrow>
   (\<And>r. r \<in> set rs \<Longrightarrow> getRequest s (req_id r) = Inr r \<and> ready r) \<Longrightarrow>
   settleLoop run rs s evs = Inr (s', evs') \<Longrightarrow>
   bal s' a + outlay a rs = bal s a + (\<Sum>r\<leftarrow>rs. income s payouts a r)"
proof (induction rs arbitrary: s evs)
  case (Cons r rs)
  from Cons.prems(4) obtain s1 ev where run: "run s r = Inr (s1, ev)"
    and rest: "settleLoop run rs s1 (evs @ [ev]) = Inr (s', evs')"
    by auto
  have r: "getRequest s (req_id r) = Inr r" and rdy: "ready r"
    using Cons.prems(3) [of r] by simp_all
  obtain svc where svc: "getService s (req_service_id r) = Inr svc"
    by (rule wf_request_service [OF inv_wf [OF Cons.prems(1)] r])
  note st = step [OF Cons.prems(1) r rdy svc run]
  have "getRequest s1 (req_id q) = Inr q \<and> ready q" if "q \<in> set rs" for q
  proof -
    have "req_id q \<noteq> req_id r"
      using Cons.prems(2) that by (auto simp: image_iff)
    then show ?thesis
      using Cons.prems(3) [of q] that by (simp add: st(4))
  qed
  then have "bal s' a + outlay a rs = bal s1 a + (\<Sum>r\<leftarrow>rs. income s1 payouts a r)"
    using Cons.prems(2) by (intro Cons.IH [OF st(1) _ _ rest]) simp_all
  then show ?case
    using step_bal [OF Cons.prems(1) r rdy svc run, of a] income_frame [OF st(2)] svc
    by (simp add: income_def)
qed simp

text \<open>A stage of a sweep, with the incomes read in the state before the sweep.\<close>

lemma stage_bal:
  assumes inv: "chain_inv E D s1" and sw: "swept f s s1 X" and d: "distinct (map req_id rs)"
    and rs: "\<And>r. r \<in> set rs \<Longrightarrow> getRequest s (req_id r) = Inr r \<and> ready r \<and> r \<notin> X \<and> close r = f r"
    and run: "settleLoop run rs s1 evs = Inr (s2, evs')"
  shows "bal s2 a + outlay a rs = bal s1 a + (\<Sum>r\<leftarrow>rs. income s payouts a r)"
proof -
  have "getRequest s1 (req_id r) = Inr r \<and> ready r" if "r \<in> set rs" for r
    using rs [OF that] stage_ready [OF sw] by blast
  moreover have "income s1 = income s"
    using sw income_frame by (simp add: swept_def)
  ultimately show ?thesis
    using loop_bal [OF inv d _ run, of a] by simp
qed

end

section \<open>A block\<close>

text \<open>What a block at height \<open>h\<close> pays out for one stored request.\<close>

definition blockPayouts :: "chain_state \<Rightarrow> params \<Rightarrow> i64 \<Rightarrow> inference_request \<Rightarrow> (string \<times> u64) list" where
  "blockPayouts s ps h r =
     (case getService s (req_service_id r) of
        Inl _ \<Rightarrow> []
      | Inr svc \<Rightarrow>
          if \<not> isOverdue ps h r then []
          else if req_status r = StatusPending then refundPayouts svc r
          else if req_status r = StatusSubmitted then finalizePayouts svc r
          else if providerPrevails s ps r then dismissPayouts svc r
          else slashPayouts svc r)"

lemma received_Nil [simp]: "received [] a = 0"
  by (simp add: received_def)

lemma sum_filter: "(\<Sum>x\<leftarrow>filter P xs. f x) = (\<Sum>x\<leftarrow>xs. if P x then f x else (0::nat))"
  by (rule sum_list_map_filter')

lemma four_sums:
  "(\<Sum>x\<leftarrow>xs. a x) + (\<Sum>x\<leftarrow>xs. b x) + (\<Sum>x\<leftarrow>xs. c x) + (\<Sum>x\<leftarrow>xs. d x) = (\<Sum>x\<leftarrow>xs. a x + b x + c x + (d x :: nat))"
  by (simp add: sum_list_addf)

lemma incomes_of_lists:
  "(\<Sum>r\<leftarrow>due_in s ps h StatusPending (\<lambda>_. True). income s refundPayouts a r)
   + (\<Sum>r\<leftarrow>due_in s ps h StatusSubmitted (\<lambda>_. True). income s finalizePayouts a r)
   + (\<Sum>r\<leftarrow>due_in s ps h StatusChallenged (\<lambda>r. \<not> providerPrevails s ps r). income s slashPayouts a r)
   + (\<Sum>r\<leftarrow>due_in s ps h StatusChallenged (providerPrevails s ps). income s dismissPayouts a r)
   = (\<Sum>r\<leftarrow>map snd (cs_requests s). received (blockPayouts s ps h r) a)"
  unfolding sum_filter four_sums
proof (rule arg_cong [of _ _ sum_list], rule map_cong [OF refl])
  fix r
  show "(if isOverdue ps h r \<and> req_status r = StatusPending \<and> True then income s refundPayouts a r else 0)
      + (if isOverdue ps h r \<and> req_status r = StatusSubmitted \<and> True then income s finalizePayouts a r else 0)
      + (if isOverdue ps h r \<and> req_status r = StatusChallenged \<and> \<not> providerPrevails s ps r then income s slashPayouts a r else 0)
      + (if isOverdue ps h r \<and> req_status r = StatusChallenged \<and> providerPrevails s ps r then income s dismissPayouts a r else 0)
      = received (blockPayouts s ps h r) a"
    using isOverdue_open [of ps h r]
    by (cases "req_status r") (auto simp: income_def blockPayouts_def isOpen_def split: sum.split)
qed

lemma outlays_of_lists:
  "outlay a (due_in s ps h StatusPending (\<lambda>_. True)) + outlay a (due_in s ps h StatusSubmitted (\<lambda>_. True))
   + outlay a (due_in s ps h StatusChallenged (\<lambda>r. \<not> providerPrevails s ps r))
   + outlay a (due_in s ps h StatusChallenged (providerPrevails s ps))
   = (if a = moduleEscrowAddr then \<Sum>r\<leftarrow>map snd (cs_requests s). if isOverdue ps h r then req_locked r else 0 else 0)"
proof (cases "a = moduleEscrowAddr")
  case True
  have one: "(if isOverdue ps h r \<and> req_status r = StatusPending \<and> True then req_locked r else 0)
        + (if isOverdue ps h r \<and> req_status r = StatusSubmitted \<and> True then req_locked r else 0)
        + (if isOverdue ps h r \<and> req_status r = StatusChallenged \<and> \<not> providerPrevails s ps r then req_locked r else 0)
        + (if isOverdue ps h r \<and> req_status r = StatusChallenged \<and> providerPrevails s ps r then req_locked r else 0)
        = (if isOverdue ps h r then req_locked r else 0)" for r
    using isOverdue_open [of ps h r] by (cases "req_status r") (auto simp: isOpen_def)
  show ?thesis
    unfolding True outlay_escrow sum_filter four_sums one if_P [OF refl] ..
qed (simp add: outlay_def)

text \<open>The block as a whole.\<close>

lemma sweep_bal:
  assumes inv: "chain_inv E {} s"
    and x1: "settleLoop (refundRequest E h) (due_in s ps h StatusPending (\<lambda>_. True)) s [] = Inr (s1, e1)"
    and x2: "settleLoop (finalizeRequest E h) (due_in s ps h StatusSubmitted (\<lambda>_. True)) s1 e1 = Inr (s2, e2)"
    and x3: "settleLoop (executeSlash E h) (due_in s ps h StatusChallenged (\<lambda>r. \<not> providerPrevails s ps r)) s2 e2 = Inr (s3, e3)"
    and x4: "settleLoop (executeDismiss E h) (due_in s ps h StatusChallenged (providerPrevails s ps)) s3 e3 = Inr (s4, e4)"
  shows "bal s4 a + (if a = moduleEscrowAddr then \<Sum>r\<leftarrow>map snd (cs_requests s). if isOverdue ps h r then req_locked r else 0 else 0)
    = bal s a + (\<Sum>r\<leftarrow>map snd (cs_requests s). received (blockPayouts s ps h r) a)"
proof -
  note wf = inv_wf [OF inv] and d = stage_distinct [OF inv, where ps = ps and h = h]
  note A = stage_A [OF inv, where ps = ps and h = h] and B = stage_B [OF inv, where ps = ps and h = h]
    and C = stage_C [OF inv, where ps = ps and h = h] and F = stage_F [OF inv, where ps = ps and h = h]
  note f1 = refund.stage(1,2) [OF wf inv swept_refl d(1) A x1]
  note f2 = finalize.stage(1,2) [OF wf f1 d(2) B x2]
  note f3 = slash.stage(1,2) [OF wf f2 d(3) C x3]
  show ?thesis
    unfolding outlays_of_lists [symmetric] incomes_of_lists [symmetric]
    using refund.stage_bal [OF inv swept_refl d(1) A x1, of a] finalize.stage_bal [OF f1 d(2) B x2, of a]
      slash.stage_bal [OF f2 d(3) C x3, of a] dismiss.stage_bal [OF f3 d(4) F x4, of a]
    by linarith
qed

lemma blockPayouts_height:
  assumes inv: "chain_inv E {} s" and put: "putMeta E s keyHeight (MetaU64 h) = Inr s1"
  shows "blockPayouts s1 ps h' r = blockPayouts s ps h' r" and "cs_requests s1 = cs_requests s" and "bal s1 = bal s"
proof -
  note hi = height_inv [OF inv put]
  have s1: "s1 = s\<lparr>cs_meta := bput keyHeight (MetaU64 h) (cs_meta s)\<rparr>"
    using put by (simp add: putMeta_def)
  then show "cs_requests s1 = cs_requests s" and "bal s1 = bal s"
    by (simp_all add: bal_def loadAccount_def fun_eq_iff)
  have "effectiveMargin s1 ps r = effectiveMargin s ps r"
    unfolding effectiveMargin_def hi(5,6) ..
  then have "providerPrevails s1 ps r = providerPrevails s ps r"
    by (simp only: providerPrevails_def)
  then show "blockPayouts s1 ps h' r = blockPayouts s ps h' r"
    by (simp only: blockPayouts_def hi(5))
qed

lemma commitDb_bal:
  assumes inv: "chain_inv E {} s" and run: "commitDb E s = Inr (s', h, evs)" and ps: "paramsLocked s = Inr ps"
  shows "bal s' a + (if a = moduleEscrowAddr then \<Sum>r\<leftarrow>map snd (cs_requests s). if isOverdue ps h r then req_locked r else 0 else 0)
    = bal s a + (\<Sum>r\<leftarrow>map snd (cs_requests s). received (blockPayouts s ps h r) a)"
  using run
proof (rule commitDb_Inr)
  fix s0 ps' s1 e1 s2 e2 s3 e3
  assume p: "putMeta E s keyHeight (MetaU64 h) = Inr s0" and ps': "paramsLocked s0 = Inr ps'"
    and x: "settleLoop (refundRequest E h) (due_in s0 ps' h StatusPending (\<lambda>_. True)) s0 [] = Inr (s1, e1)"
      "settleLoop (finalizeRequest E h) (due_in s0 ps' h StatusSubmitted (\<lambda>_. True)) s1 e1 = Inr (s2, e2)"
      "settleLoop (executeSlash E h) (due_in s0 ps' h StatusChallenged (\<lambda>r. \<not> providerPrevails s0 ps' r)) s2 e2 = Inr (s3, e3)"
      "settleLoop (executeDismiss E h) (due_in s0 ps' h StatusChallenged (providerPrevails s0 ps')) s3 e3 = Inr (s', evs)"
  have "ps' = ps"
    using height_inv(7) [OF inv p] ps ps' by simp
  from sweep_bal [OF height_inv(1) [OF inv p] x, of a] show ?thesis
    unfolding \<open>ps' = ps\<close> blockPayouts_height [OF inv p] .
qed

end
