(* ===== verification/SettlementSpec.thy ===== *)
theory SettlementSpec
  imports Demo Accounting
begin

text \<open>
  What the ways of closing a request promise: who is paid how much, that they cannot fail, and what
  the deactivation of a domain leaves behind (\<open>chain/internal/state/resolution.go\<close>, the cascade of
  \<open>tx.go\<close>).
\<close>

section \<open>Settlements\<close>

text \<open>C12: Slashing pays out exactly what the escrow holds for the request: the requester gets the
  escrowed price back, the first challenger both the provider's bond and their own, every voucher on
  the challenger's side their bond, and the bonds of the provider's side go to the treasury. The
  request ends slashed. Several roles may fall on one account: \<open>received\<close> adds them up.\<close>

theorem slash_pays_out:
  assumes "chain_inv E D s" and "getRequest s (req_id r) = Inr r" and "req_status r = StatusChallenged"
    and "getService s (req_service_id r) = Inr svc" and "executeSlash E h s r = Inr (s', ev)"
  shows "\<exists>ch. req_challenges r = [ch]
    \<and> bal s' a + (if a = moduleEscrowAddr then req_locked r else 0) = bal s a
      + received ([(req_requester r, amount (req_escrow r)),
           (ch_challenger ch, opt_amount (req_provider_bond r)), (ch_challenger ch, amount (ch_bond ch))]
         @ map (\<lambda>v. (if v_supports_provider v then moduleTreasuryAddr else v_voucher v, amount (v_bond v)))
             (req_vouchers r)) a
    \<and> getRequest s' = (getRequest s)(req_id r := Inr (r\<lparr>req_status := StatusSlashed, req_finalized_at := h\<rparr>))"
proof -
  have "req_shape r"
    using wf_request [OF inv_wf [OF assms(1)] assms(2)] by (simp add: req_ok_def)
  then obtain ch where ch: "req_challenges r = [ch]"
    using shape_challenged assms(3) by blast
  then show ?thesis
    using slash.step_bal [OF assms] slash.step(4) [OF assms] by (simp add: slashPayouts_def slashed_def)
qed

theorem slash_pays_out_witness:
  "\<exists>s' ev. executeSlash demo_env 30 (demo_state demo_vouched) demo_vouched = Inr (s', ev)
     \<and> bal s' requester = 1010 \<and> bal s' challenger = 1100 \<and> bal s' moduleTreasuryAddr = 25
     \<and> bal s' witnessA = 1000 \<and> bal s' provider = 1000 \<and> bal s' moduleEscrowAddr = 865"
proof -
  obtain s' ev where run: "executeSlash demo_env 30 (demo_state demo_vouched) demo_vouched = Inr (s', ev)"
    using slash.step_ok [OF demo_accepts demo_invs(4), of demo_vouched 30] by auto
  note p = slash_pays_out [OF demo_invs(4) _ _ _ run, of demo_svc, simplified]
  show ?thesis
    using run p [of requester] p [of challenger] p [of moduleTreasuryAddr] p [of witnessA] p [of provider]
      p [of moduleEscrowAddr] demo_addr_eq
    by (simp add: demo_bal demo_locked) (simp add: demo_reqs)
qed

text \<open>C13: Dismissing pays out exactly what the escrow holds for the request: the service's owner gets
  the price and the provider bond, every voucher on the provider's side their bond back, and the pool
  of the challenger's bond and the bonds of the challenger's side is shared equally by the owner and
  those vouchers, the owner taking the remainder of the division.\<close>

theorem dismiss_pays_out:
  assumes "chain_inv E D s" and "getRequest s (req_id r) = Inr r" and "req_status r = StatusChallenged"
    and "getService s (req_service_id r) = Inr svc" and "executeDismiss E h s r = Inr (s', ev)"
  shows "\<exists>ch. req_challenges r = [ch]
    \<and> (let pool = unat (amount (ch_bond ch)) + voucher_locked (opponents r);
           n = 1 + length (supporters r)
       in bal s' a + (if a = moduleEscrowAddr then req_locked r else 0) = bal s a
          + received [(svc_owner svc, amount (req_escrow r)), (svc_owner svc, opt_amount (req_provider_bond r))] a
          + (if a = svc_owner svc then pool div n + pool mod n else 0)
          + (\<Sum>v\<leftarrow>supporters r. if v_voucher v = a then unat (amount (v_bond v)) + pool div n else 0))
    \<and> getRequest s' = (getRequest s)(req_id r := Inr
        (r\<lparr>req_status := StatusFinalized, req_finalized_at := h, req_paid := Some (req_escrow r)\<rparr>))"
proof -
  have shape: "req_shape r"
    using wf_request [OF inv_wf [OF assms(1)] assms(2)] by (simp add: req_ok_def)
  then obtain ch where ch: "req_challenges r = [ch]"
    using shape_challenged assms(3) by blast
  have pool: "unat (rewardPool r) = unat (amount (ch_bond ch)) + voucher_locked (opponents r)"
    by (rule pool_of_challenged [OF assms(3) ch dismiss.locked_less(1) [OF assms(1,2)]])
  show ?thesis
    using dismiss.step_bal [OF assms, of a] dismiss.step(4) [OF assms] ch
    by (simp add: Let_def dismissed_def received_dismiss [OF shape] pool cong: if_cong)
qed

theorem dismiss_pays_out_witness:
  "\<exists>s' ev. executeDismiss demo_env 30 (demo_state demo_vouched) demo_vouched = Inr (s', ev)
     \<and> bal s' provider = 1085 \<and> bal s' witnessA = 1050 \<and> bal s' challenger = 1000
     \<and> bal s' requester = 1000 \<and> bal s' moduleEscrowAddr = 865"
proof -
  obtain s' ev where run: "executeDismiss demo_env 30 (demo_state demo_vouched) demo_vouched = Inr (s', ev)"
    using dismiss.step_ok [OF demo_accepts demo_invs(4), of demo_vouched 30] by auto
  note p = dismiss_pays_out [OF demo_invs(4) _ _ _ run, of demo_svc, simplified]
  show ?thesis
    using run p [of requester] p [of challenger] p [of witnessA] p [of provider]
      p [of moduleEscrowAddr] demo_addr_eq
    by (simp add: demo_bal demo_locked) (simp add: demo_reqs supporters_def opponents_def voucher_locked_def demo_svc_def flip: numeral_2_eq_2)
qed

text \<open>C14: Voiding an open request gives every stake back to the account that placed it: the price to the
  requester, the provider's bond to the owner of the service, the challenger's bond to the challenger
  and each voucher's bond to the voucher. The request ends refunded.\<close>

theorem void_refunds:
  assumes "chain_inv E D s" and "getRequest s (req_id r) = Inr r" and "isOpen r"
    and "getService s (req_service_id r) = Inr svc" and "executeVoidDueToDomain E h s r = Inr (s', ev)"
  shows "bal s' a + (if a = moduleEscrowAddr then req_locked r else 0) = bal s a
      + received ([(req_requester r, amount (req_escrow r)), (svc_owner svc, opt_amount (req_provider_bond r))]
         @ map (\<lambda>ch. (ch_challenger ch, amount (ch_bond ch))) (req_challenges r)
         @ map (\<lambda>v. (v_voucher v, amount (v_bond v))) (req_vouchers r)) a
    \<and> getRequest s' = (getRequest s)(req_id r := Inr (r\<lparr>req_status := StatusRefunded, req_finalized_at := h\<rparr>))"
proof -
  have "req_shape r"
    using wf_request [OF inv_wf [OF assms(1)] assms(2)] by (simp add: req_ok_def)
  then show ?thesis
    using void.step_bal [OF assms, of a] void.step(4) [OF assms] received_void [OF assms(3), of svc a]
    by (simp add: refunded_def)
qed

theorem void_refunds_witness:
  "\<exists>s' ev. executeVoidDueToDomain demo_env 30 (demo_state demo_vouched) demo_vouched = Inr (s', ev)
     \<and> bal s' requester = 1010 \<and> bal s' provider = 1050 \<and> bal s' challenger = 1050 \<and> bal s' witnessA = 1025
     \<and> bal s' moduleTreasuryAddr = 0 \<and> bal s' moduleEscrowAddr = 865"
proof -
  have op: "isOpen demo_vouched" by (simp add: isOpen_def)
  obtain s' ev where run: "executeVoidDueToDomain demo_env 30 (demo_state demo_vouched) demo_vouched = Inr (s', ev)"
    using void.step_ok [OF demo_accepts demo_invs(4) _ op, of 30] by auto
  note p = void_refunds [OF demo_invs(4) _ op _ run, of demo_svc, simplified]
  show ?thesis
    using run p [of requester] p [of challenger] p [of moduleTreasuryAddr] p [of witnessA] p [of provider]
      p [of moduleEscrowAddr] demo_addr_eq
    by (simp add: demo_bal demo_locked) (simp add: demo_reqs demo_svc_def)
qed

text \<open>C6: A block moves money exactly as its settlements say, and no other way. For every account, the
  balance after the block is the balance before plus what the settled requests pay to it:
  the price back to the requester of a request that was never answered; the price and the bond to the provider
  of an undisputed answer; the payouts of a dismissal or a slashing, as the vouchers decide, for a
  disputed one; nothing for a request that is not overdue. The escrow account pays it all: it loses exactly
  what was locked in the overdue requests.\<close>

theorem block_pays_out:
  assumes "chain_inv E {} (nd_db nd)" and "commitBlock E now nd = (Inr (), nd')" and "paramsLocked (nd_db nd) = Inr ps"
  shows "let s = nd_db nd; h = heightLocked s + 1; rs = map snd (cs_requests s) in
    bal (nd_db nd') a + (if a = moduleEscrowAddr then \<Sum>r\<leftarrow>rs. if isOverdue ps h r then req_locked r else 0 else 0)
    = bal s a + (\<Sum>r\<leftarrow>rs. received (blockPayouts s ps h r) a)"
proof (rule commitBlock_cases [of E nd now])
  fix s' h evs
  assume c: "commitDb E (nd_db nd) = Inr (s', h, evs)"
    "commitBlock E now nd = (Inr (), nd\<lparr>nd_db := s', nd_bus :=
       emit (mk_event h (BlockCommitted \<lparr>ebc_height = h, ebc_time = now\<rparr>)) (emitAll evs (nd_bus nd))\<rparr>)"
  have "nd_db nd' = s'" using c(2) assms(2) by auto
  then show ?thesis
    using commitDb_bal [OF assms(1) c(1) assms(3), of a]
    unfolding Let_def commitDb_facts(1) [OF assms(1) c(1) assms(3)] by (simp only:)
qed (use assms(2) in simp)

theorem block_pays_out_witness:
  "\<exists>nd'. commitBlock demo_env ''now'' (demo_node demo_pending) = (Inr (), nd')
     \<and> bal (nd_db nd') requester = 1010 \<and> bal (nd_db nd') moduleEscrowAddr = 990 \<and> bal (nd_db nd') provider = 1000"
proof -
  obtain nd' where b: "commitBlock demo_env ''now'' (demo_node demo_pending) = (Inr (), nd')"
    using demo_commit [OF demo_invs(1)] by blast
  have "isOverdue defaultParams 11 demo_pending"
    by (simp add: isOverdue_def) (simp add: demo_reqs word_sless_alt)
  then have p: "blockPayouts (demo_state demo_pending) defaultParams 11 demo_pending = [(requester, 10)]"
    by (simp add: blockPayouts_def refundPayouts_def) (simp add: demo_reqs)
  have "cs_requests (demo_state demo_pending) = [(1, demo_pending)]"
    by (simp add: demo_state_def)
  with p show ?thesis
    using block_pays_out [OF _ b, of defaultParams requester] block_pays_out [OF _ b, of defaultParams moduleEscrowAddr]
      block_pays_out [OF _ b, of defaultParams provider] b \<open>isOverdue defaultParams 11 demo_pending\<close>
    by (simp add: demo_invs demo_bal demo_locked received_def demo_addr_eq)
qed

text \<open>No settlement of a stored open request can fail while the invariant holds: the escrow always
  has the coins, so slashing, dismissing and voiding a challenged request, and voiding any open one,
  return a result.\<close>

theorem settlements_never_fail:
  assumes "put_accepts E" and "chain_inv E D s" and "getRequest s (req_id r) = Inr r" and "isOpen r"
  shows "\<exists>s1 ev1 s2 ev2 s3 ev3. executeVoidDueToDomain E h s r = Inr (s1, ev1)
    \<and> (if req_status r = StatusChallenged
       then executeSlash E h s r = Inr (s2, ev2) \<and> executeDismiss E h s r = Inr (s3, ev3) else True)"
  using void.step_ok [OF assms, of h] slash.step_ok [OF assms(1-3), of h] dismiss.step_ok [OF assms(1-3), of h]
  by (cases "req_status r = StatusChallenged") auto

theorem settlements_never_fail_witness:
  "\<exists>s1 ev1 s2 ev2. executeSlash demo_env 30 (demo_state demo_vouched) demo_vouched = Inr (s1, ev1)
     \<and> executeDismiss demo_env 30 (demo_state demo_vouched) demo_vouched = Inr (s2, ev2)"
  using settlements_never_fail [OF demo_accepts demo_invs(4), of demo_vouched 30] by (simp add: isOpen_def)

text \<open>C16: Deactivating a verification domain cascades: the domain is inactive, every service bound to it
  is retired, every open request on those services is refunded, and all other services and requests
  are as before.\<close>

theorem domain_deactivation_cascades:
  assumes "chain_inv E {} s" and "applyDeactivateDomain E s signer p h = Inr (s', evs)"
    and "dec_deactivate_domain E p = Some msg" and "getService s k = Inr v"
  shows "(\<exists>d. getDomain s (mdd_domain_id msg) = Inr d \<and> dom_active d
           \<and> getDomain s' = (getDomain s)(mdd_domain_id msg := Inr (d\<lparr>dom_active := False\<rparr>)))
    \<and> getService s' k = Inr (if svc_domain_id v = mdd_domain_id msg
        then v\<lparr>svc_active := False, svc_registration_bond := zero_coin\<rparr> else v)
    \<and> list_all (\<lambda>r. getRequest s' (req_id r) = Inr (if svc_domain_id v = mdd_domain_id msg \<and> isOpen r
        then r\<lparr>req_status := StatusRefunded, req_finalized_at := h\<rparr> else r)) (filter (\<lambda>r. req_service_id r = k) (listRequests s '''' 0))"
proof -
  note f = deactivate_domain_facts [OF assms(1-3)]
  have "getRequest s' (req_id r) = Inr (if svc_domain_id v = mdd_domain_id msg \<and> isOpen r then refunded h r else r)"
    if r: "r \<in> set (listRequests s '''' 0)" and "req_service_id r = k" for r
  proof -
    obtain j where j: "getRequest s j = Inr r"
      using r by (auto simp: listRequests_mem wf_buckets [OF inv_wf [OF assms(1)]])
    then show ?thesis
      using wf_request [OF inv_wf [OF assms(1)] j] f(5) [OF j] assms(4) that(2) by (simp add: req_ok_def)
  qed
  then show ?thesis
    using f(3) f(4) [OF assms(4)] by (simp add: list_all_iff retired_def refunded_def)
qed

theorem domain_deactivation_cascades_witness:
  "\<exists>s' evs d. applyDeactivateDomain demo_env (demo_dom_state demo_challenged) provider ''dof'' 11 = Inr (s', evs)
     \<and> getDomain s' 1 = Inr (d\<lparr>dom_active := False\<rparr>) \<and> getService s' 1 = Inr (retired demo_dom_svc)
     \<and> getRequest s' 1 = Inr (refunded 11 demo_challenged)"
proof -
  obtain s' evs where run: "applyDeactivateDomain demo_env (demo_dom_state demo_challenged) provider ''dof'' 11 = Inr (s', evs)"
    using demo_deactivate_domain_run by blast
  have msg: "dec_deactivate_domain demo_env ''dof'' = Some \<lparr>mdd_authority = provider, mdd_domain_id = 1\<rparr>"
    by (simp add: demo_env_def)
  have l: "listRequests (demo_dom_state demo_challenged) '''' 0 = [demo_challenged]"
    by (simp add: listRequests_def demo_dom_state_def demo_state_def)
  show ?thesis
    using domain_deactivation_cascades [OF demo_dom_invs(2) run msg, of 1 demo_dom_svc] run
    by (auto simp: l retired_def refunded_def demo_dom_svc_def isOpen_def)
qed

text \<open>The authority can always deactivate an active domain: whatever services and requests hang on
  it, the cascade goes through to its end.\<close>

theorem domain_deactivation_never_stuck:
  assumes "put_accepts E" and "chain_inv E {} s" and "dec_deactivate_domain E p = Some msg"
    and "signer \<noteq> ''''" and "authorityLocked s = signer" and "mdd_authority msg = signer"
    and "getDomain s (mdd_domain_id msg) = Inr d" and "dom_active d"
  shows "\<exists>s' evs. applyDeactivateDomain E s signer p h = Inr (s', evs)"
  using assms by (intro deactivate_domain_ok) (auto simp: requireAuthority_Inr)

theorem domain_deactivation_never_stuck_witness:
  "\<exists>s' evs. applyDeactivateDomain demo_env (demo_dom_state demo_pending) provider ''dof'' 11 = Inr (s', evs)"
proof -
  have "dec_deactivate_domain demo_env ''dof'' = Some \<lparr>mdd_authority = provider, mdd_domain_id = 1\<rparr>"
    by (simp add: demo_env_def)
  then show ?thesis
    by (rule domain_deactivation_never_stuck [OF demo_accepts demo_dom_invs(1), where d = demo_vd])
      (simp_all add: demo_vd_def)
qed

end
