(* ===== verification/DisputeSpec.thy ===== *)
theory DisputeSpec
  imports Demo
begin

text \<open>
  What the dispute game promises (\<open>chain/internal/state/tx.go\<close>, \<open>block.go\<close>): when challenges and
  vouches are accepted, what they stake, and how a dispute ends.
\<close>

section \<open>The dispute game\<close>

text \<open>C30: A challenge is accepted only against a submitted result, inside the challenge window, with an
  attestation over the same input, a different output and, where the service is bound to a domain, the
  domain's tuple and, if the domain pins one, its tokenizer; it locks the challenger bond and makes the request challenged, with this one
  challenge.\<close>

theorem challenge_rules:
  assumes "chain_inv E {} s" and "isValidAddress signer"
    and "applyChallenge E s signer p h = Inr (s', ev)" and "dec_challenge E p = Some msg"
    and "paramsLocked s = Inr ps"
  shows "\<exists>r res svc. getRequest s (mc_request_id msg) = Inr r \<and> req_status r = StatusSubmitted
    \<and> req_result r = Some res \<and> getService s (req_service_id r) = Inr svc
    \<and> h <=s req_submitted_at r + p_challenge_window ps
    \<and> att_input_hash (mc_attestation msg) = req_input_hash r
    \<and> att_output_hash (mc_attestation msg) \<noteq> res_output_hash res
    \<and> (svc_domain_id svc = 0 \<or> (\<exists>vd. getDomain s (svc_domain_id svc) = Inr vd \<and> tuple_matches vd (mc_attestation msg)
          \<and> (dom_tokenizer_id vd = '''' \<or> att_tokenizer_id (mc_attestation msg) = dom_tokenizer_id vd)))
    \<and> getRequest s' = (getRequest s)(mc_request_id msg := Inr (r\<lparr>req_status := StatusChallenged,
         req_challenges := [\<lparr>ch_challenger = signer, ch_posted_at = h, ch_attestation = mc_attestation msg,
                             ch_bond = p_challenger_bond ps\<rparr>]\<rparr>))
    \<and> bal s' signer + unat (amount (p_challenger_bond ps)) = bal s signer"
  using assms(3)
proof (rule applyChallenge_Inr)
  fix msg' r res svc ps' s1 ch
  assume f: "dec_challenge E p = Some msg'" "getRequest s (mc_request_id msg') = Inr r" "req_status r = StatusSubmitted"
      "req_result r = Some res" "getService s (req_service_id r) = Inr svc" "paramsLocked s = Inr ps'"
      "h <=s req_submitted_at r + p_challenge_window ps'" "att_input_hash (mc_attestation msg') = req_input_hash r"
      "att_output_hash (mc_attestation msg') \<noteq> res_output_hash res"
      "matchDomain s ''load domain'' ''challenger tuple != service domain''
               ''challenger tokenizer != domain tokenizer'' (svc_domain_id svc) (mc_attestation msg') = Inr ()"
    and lock: "move (Wrapped ''locking challenger bond'') E s signer moduleEscrowAddr (amount (p_challenger_bond ps')) = Inr s1"
    and put: "putRequest E s1 (challenged ch r) = Inr s'"
  have eq: "msg' = msg" "ps' = ps" using f(1,6) assms(4,5) by simp_all
  have shape: "req_id r = mc_request_id msg" "req_challenges r = []"
    using wf_request [OF inv_wf [OF assms(1)] f(2)] f(3) by (simp_all add: req_ok_def req_shape_def eq)
  have "bal s' signer + unat (amount (p_challenger_bond ps)) = bal s signer"
    using lock_facts(6) [OF inv_accounts [OF assms(1)] assms(2) lock] put by (simp add: putRequest_Inr eq)
  then show ?thesis
    using f challenge_facts(4) [OF assms(1-4) f(2) [unfolded eq] assms(5)]
    unfolding matchDomain_Inr by (auto simp: eq shape challenged_def)
qed

theorem challenge_rules_witness:
  "\<exists>s' ev r'. applyChallenge demo_env (demo_state demo_submitted) challenger ''chl'' 10 = Inr (s', ev)
     \<and> getRequest s' 1 = Inr r' \<and> req_status r' = StatusChallenged \<and> bal s' challenger = 950"
proof -
  obtain s' ev where run: "applyChallenge demo_env (demo_state demo_submitted) challenger ''chl'' 10 = Inr (s', ev)"
    using demo_challenge_run by blast
  have "dec_challenge demo_env ''chl'' = Some
      \<lparr>mc_challenger = challenger, mc_request_id = 1, mc_attestation = demo_att ''bad''\<rparr>"
    by (simp add: demo_env_def)
  from challenge_rules [OF demo_invs(2) _ run this, of defaultParams] run show ?thesis
    by (auto simp: demo_bal defaultParams_def aios_def)
qed

text \<open>C29: A vouch is accepted only on a challenged request, inside the resolution window, from an address
  that has not vouched on it before and that, where the service is bound to a domain, owns an active
  service of that domain; its attestation is over the input of the request and has the tuple and the pinned
  tokenizer of the domain; the vouched output must be the provider's or the challenger's, which decides
  the side. The voucher bond is locked and the voucher appended.\<close>

theorem vouch_rules:
  assumes "chain_inv E {} s" and "isValidAddress signer"
    and "applyVouch E s signer p h = Inr (s', ev)" and "dec_vouch E p = Some msg"
    and "paramsLocked s = Inr ps"
  shows "\<exists>r res ch svc side. getRequest s (mv_request_id msg) = Inr r \<and> req_status r = StatusChallenged
    \<and> req_result r = Some res \<and> req_challenges r = [ch] \<and> getService s (req_service_id r) = Inr svc
    \<and> att_input_hash (mv_attestation msg) = req_input_hash r
    \<and> (svc_domain_id svc = 0 \<or> (\<exists>vd. getDomain s (svc_domain_id svc) = Inr vd \<and> tuple_matches vd (mv_attestation msg)
          \<and> (dom_tokenizer_id vd = '''' \<or> att_tokenizer_id (mv_attestation msg) = dom_tokenizer_id vd)))
    \<and> h <=s ch_posted_at ch + 20 \<and> signer \<notin> set (map v_voucher (req_vouchers r))
    \<and> (svc_domain_id svc = 0 \<or> (\<exists>j w. getService s j = Inr w \<and> svc_owner w = signer
          \<and> svc_domain_id w = svc_domain_id svc \<and> svc_active w))
    \<and> att_output_hash (mv_attestation msg) =
        (if side then res_output_hash res else att_output_hash (ch_attestation ch))
    \<and> getRequest s' = (getRequest s)(mv_request_id msg := Inr (r\<lparr>req_vouchers := req_vouchers r @
        [\<lparr>v_voucher = signer, v_posted_at = h, v_attestation = mv_attestation msg,
          v_bond = voucherBond ps (req_provider_bond r), v_supports_provider = side\<rparr>]\<rparr>))
    \<and> bal s' signer + unat (amount (voucherBond ps (req_provider_bond r))) = bal s signer"
  using assms(3)
proof (rule applyVouch_Inr)
  fix msg' r ch chs res svc ps' s1 side v
  assume f: "dec_vouch E p = Some msg'" "getRequest s (mv_request_id msg') = Inr r" "req_status r = StatusChallenged"
      "req_challenges r = ch # chs" "req_result r = Some res" "getService s (req_service_id r) = Inr svc"
      "svc_domain_id svc = 0 \<or> voucherEligible s signer (svc_domain_id svc)"
      "att_input_hash (mv_attestation msg') = req_input_hash r"
      "matchDomain s ''load domain'' ''voucher tuple != service domain''
               ''voucher tokenizer != domain tokenizer'' (svc_domain_id svc) (mv_attestation msg') = Inr ()"
      "voucherSide (res_output_hash res) (att_output_hash (ch_attestation ch)) (att_output_hash (mv_attestation msg')) = Inr side"
      "signer \<notin> set (map v_voucher (req_vouchers r))" "h <=s ch_posted_at ch + challengeResolutionWindowBlocks"
      "paramsLocked s = Inr ps'"
    and lock: "move (Wrapped ''locking voucher bond'') E s signer moduleEscrowAddr
           (amount (voucherBond ps' (req_provider_bond r))) = Inr s1"
    and v: "v = \<lparr>v_voucher = signer, v_posted_at = h, v_attestation = mv_attestation msg',
              v_bond = voucherBond ps' (req_provider_bond r), v_supports_provider = side\<rparr>"
    and put: "putRequest E s1 (vouched v r) = Inr s'"
  have eq: "msg' = msg" "ps' = ps" using f(1,13) assms(4,5) by simp_all
  note wf = inv_wf [OF assms(1)]
  have shape: "req_id r = mv_request_id msg" "chs = []"
    using wf_request [OF wf f(2)] f(3,4) by (simp_all add: req_ok_def req_shape_def eq)
  have lf: "bal s1 signer + unat (amount (voucherBond ps (req_provider_bond r))) = bal s signer" "same_but_accounts s s1"
    using lock_facts(6,2) [OF inv_accounts [OF assms(1)] assms(2) lock] by (simp_all add: eq)
  have "getRequest s' = (getRequest s)(mv_request_id msg := Inr (vouched v r))"
    using put gets_same_but_accounts [OF lf(2)] by (auto simp: putRequest_Inr vouched_def shape(1) fun_eq_iff)
  moreover have "att_output_hash (mv_attestation msg) =
        (if side then res_output_hash res else att_output_hash (ch_attestation ch))"
    using f(10) by (simp add: voucherSide_def eq split: if_splits)
  moreover have "bal s' = bal s1"
    using put by (auto simp: putRequest_Inr)
  ultimately show ?thesis
    using f [unfolded matchDomain_Inr] lf(1) voucherEligible_iff [OF wf_buckets(1) [OF wf]]
    by (intro exI [of _ r] exI [of _ res] exI [of _ ch] exI [of _ svc] exI [of _ side])
      (simp add: eq shape v vouched_def challengeResolutionWindowBlocks_def)
qed

theorem vouch_rules_witness:
  "\<exists>s' ev r'. applyVouch demo_env (demo_state demo_challenged) witnessA ''vch'' 10 = Inr (s', ev)
     \<and> getRequest s' 1 = Inr r' \<and> map v_voucher (req_vouchers r') = [witnessA]"
proof -
  obtain s' ev where run: "applyVouch demo_env (demo_state demo_challenged) witnessA ''vch'' 10 = Inr (s', ev)"
    using demo_vouch_run by blast
  have "dec_vouch demo_env ''vch'' = Some
      \<lparr>mv_voucher = witnessA, mv_request_id = 1, mv_attestation = demo_att ''good''\<rparr>"
    by (simp add: demo_env_def)
  from vouch_rules [OF demo_invs(3) _ run this, of defaultParams] run show ?thesis
    by auto
qed

text \<open>The bond of a voucher is the provider's bond scaled by the basis points of the parameters,
  rounded down, as long as the product fits 64 bits.\<close>

theorem voucher_bond_scaled:
  assumes "0 <s p_voucher_bond_scale_bp ps" and "isPositive b"
    and "unat (amount b) * unat (p_voucher_bond_scale_bp ps) < 2 ^ 64"
  shows "unat (amount (voucherBond ps (Some b))) = unat (amount b) * unat (p_voucher_bond_scale_bp ps) div 10000
    \<and> denom (voucherBond ps (Some b)) = denom b"
  using assms by (simp add: voucherBond_def unat_div unat_mult_fits)

theorem voucher_bond_scaled_witness:
  "unat (amount (voucherBond defaultParams (Some (aios 50)))) = 25"
  using voucher_bond_scaled [of defaultParams "aios 50"]
  by (simp add: defaultParams_def aios_def isPositive_iff word_sless_alt)

text \<open>The bound matters: the product is computed in 64 bits and wraps around, so with the default
  parameters a provider bond of \<open>2 ^ 61\<close> asks a voucher for no bond at all.\<close>

theorem voucher_bond_wraps:
  "isPositive (aios (2 ^ 61)) \<and> amount (voucherBond defaultParams (Some (aios (2 ^ 61)))) = 0"
  by (simp add: voucherBond_def defaultParams_def aios_def isPositive_iff word_sless_alt)

text \<open>C15: How the block settles an undecided dispute: once the resolution window of 20 blocks has passed,
  the challenge is dismissed if at least one voucher is on the provider's side and the provider's side
  leads by the effective margin, and the provider is slashed otherwise. The counts are compared as
  integers, the machine arithmetic does not wrap.\<close>

theorem dispute_outcome:
  assumes "chain_inv E {} (nd_db nd)" and "commitBlock E now nd = (Inr (), nd')"
    and "paramsLocked (nd_db nd) = Inr ps" and "getRequest (nd_db nd) k = Inr r"
    and "req_status r = StatusChallenged" and "req_challenges r = [ch]"
    and "ch_posted_at ch + 20 <s heightLocked (nd_db nd) + 1"
  shows "getRequest (nd_db nd') k = Inr
    (if supporters r \<noteq> [] \<and> sint (effectiveMargin (nd_db nd) ps r) \<le> int (length (supporters r)) - int (length (opponents r))
     then r\<lparr>req_status := StatusFinalized, req_finalized_at := heightLocked (nd_db nd) + 1, req_paid := Some (req_escrow r)\<rparr>
     else r\<lparr>req_status := StatusSlashed, req_finalized_at := heightLocked (nd_db nd) + 1\<rparr>)"
proof -
  let ?h = "heightLocked (nd_db nd) + 1"
  have "req_shape r"
    using wf_request [OF inv_wf [OF assms(1)] assms(4)] by (simp add: req_ok_def)
  note pp = providerPrevails_iff [OF this, of "nd_db nd" ps]
  have "\<not> ?h <=s ch_posted_at ch + challengeResolutionWindowBlocks"
    using assms(7) by (simp add: challengeResolutionWindowBlocks_def signed.not_le)
  then have sw: "sweepRequest (nd_db nd) ps ?h r =
      (if providerPrevails (nd_db nd) ps r then dismissed ?h r else slashed ?h r)"
    using assms(5,6) by (simp add: sweepRequest_def)
  obtain s' h evs where c: "commitDb E (nd_db nd) = Inr (s', h, evs)" and nd': "nd_db nd' = s'"
    using assms(2) by (rule_tac commitBlock_cases [of E nd now]) auto
  note f = commitDb_facts(1,5) [OF assms(1) c assms(3)]
  have "getRequest (nd_db nd') k = Inr (sweepRequest (nd_db nd) ps ?h r)"
    using f(2) [of k] assms(4) unfolding f(1) nd' by simp
  then show ?thesis
    unfolding sw pp by (simp add: dismissed_def slashed_def)
qed

theorem dispute_outcome_witness:
  "\<exists>nd'. commitBlock demo_env ''now'' \<lparr>nd_db = demo_late, nd_bus = empty_bus\<rparr> = (Inr (), nd')
     \<and> getRequest (nd_db nd') 1 = Inr (dismissed 41 demo_vouched)"
proof -
  let ?nd = "\<lparr>nd_db = demo_late, nd_bus = empty_bus\<rparr>"
  obtain nd' where b: "commitBlock demo_env ''now'' ?nd = (Inr (), nd')"
    using commitDb_ok [OF demo_accepts demo_late_inv] by (rule_tac commitBlock_cases [of demo_env ?nd "''now''"]) auto
  have m: "effectiveMargin demo_late defaultParams demo_vouched = 0"
    by (simp add: effectiveMargin_def demo_svc_def defaultParams_def)
  have v: "supporters demo_vouched = [demo_vo]" "opponents demo_vouched = []"
    by (simp_all add: supporters_def opponents_def demo_vo_def)
  have "getRequest (nd_db nd') 1 = Inr (dismissed 41 demo_vouched)"
    using dispute_outcome [of demo_env ?nd "''now''" nd' defaultParams 1 demo_vouched demo_ch] b
    by (simp add: demo_late_inv m v dismissed_def) (simp add: demo_ch_def word_sless_alt)
  with b show ?thesis by blast
qed

text \<open>Only the authority can settle a dispute before its time, and only a challenged request: the
  decision \<open>dismiss\<close> finalizes it for the provider, \<open>slash\<close> slashes the provider, and there is no other
  decision.\<close>

theorem resolution_by_authority:
  assumes "chain_inv E D s" and "applyResolveChallenge E s signer p h = Inr (s', evs)"
    and "dec_resolve_challenge E p = Some msg"
  shows "\<exists>r. signer \<noteq> '''' \<and> signer = authorityLocked s \<and> mrc_authority msg = signer
    \<and> getRequest s (mrc_request_id msg) = Inr r \<and> req_status r = StatusChallenged
    \<and> mrc_decision msg \<in> {''dismiss'', ''slash''}
    \<and> getRequest s' = (getRequest s)(mrc_request_id msg := Inr
        (if mrc_decision msg = ''dismiss''
         then r\<lparr>req_status := StatusFinalized, req_finalized_at := h, req_paid := Some (req_escrow r)\<rparr>
         else r\<lparr>req_status := StatusSlashed, req_finalized_at := h\<rparr>))
    \<and> cs_services s' = cs_services s \<and> cs_meta s' = cs_meta s"
  using assms(2)
proof (rule applyResolveChallenge_Inr)
  fix msg' r ev
  assume f: "dec_resolve_challenge E p = Some msg'" "requireAuthority s signer = Inr ()" "mrc_authority msg' = signer"
      "getRequest s (mrc_request_id msg') = Inr r" "req_status r = StatusChallenged"
    and run: "mrc_decision msg' = ''dismiss'' \<and> executeDismiss E h s r = Inr (s', ev)
       \<or> mrc_decision msg' = ''slash'' \<and> executeSlash E h s r = Inr (s', ev)"
  have eq: "msg' = msg" using f(1) assms(3) by simp
  have id: "req_id r = mrc_request_id msg" "getRequest s (req_id r) = Inr r"
    using f(4) wf_request [OF inv_wf [OF assms(1)] f(4)] by (simp_all add: req_ok_def eq)
  obtain svc where svc: "getService s (req_service_id r) = Inr svc"
    by (rule wf_request_service [OF inv_wf [OF assms(1)] f(4)])
  from run show ?thesis
  proof
    assume a: "mrc_decision msg' = ''dismiss'' \<and> executeDismiss E h s r = Inr (s', ev)"
    then have run: "executeDismiss E h s r = Inr (s', ev)" by simp
    note g = dismiss.step(2,4) [OF assms(1) id(2) f(5) svc run]
    show ?thesis
      using a f g(2) close_frame_fields(1,2) [OF g(1)]
      by (intro exI [of _ r]) (simp add: eq id(1) requireAuthority_Inr dismissed_def)
  next
    assume a: "mrc_decision msg' = ''slash'' \<and> executeSlash E h s r = Inr (s', ev)"
    then have run: "executeSlash E h s r = Inr (s', ev)" by simp
    note g = slash.step(2,4) [OF assms(1) id(2) f(5) svc run]
    show ?thesis
      using a f g(2) close_frame_fields(1,2) [OF g(1)]
      by (intro exI [of _ r]) (simp add: eq id(1) requireAuthority_Inr slashed_def)
  qed
qed

theorem resolution_by_authority_witness:
  "\<exists>s' evs. applyResolveChallenge demo_env (demo_state demo_vouched) provider ''dis'' 12 = Inr (s', evs)
     \<and> getRequest s' 1 = Inr (dismissed 12 demo_vouched)"
proof -
  have msg: "dec_resolve_challenge demo_env ''dis'' = Some
      \<lparr>mrc_authority = provider, mrc_request_id = 1, mrc_decision = ''dismiss''\<rparr>"
    by (simp add: demo_env_def)
  obtain s' ev where "executeDismiss demo_env 12 (demo_state demo_vouched) demo_vouched = Inr (s', ev)"
    using dismiss.step_ok [OF demo_accepts demo_invs(4), of demo_vouched 12] by auto
  then have run: "applyResolveChallenge demo_env (demo_state demo_vouched) provider ''dis'' 12 = Inr (s', [ev])"
    by (simp add: applyResolveChallenge_def decode_def msg check_def requireAuthority_Inr)
  from resolution_by_authority [OF demo_invs(4) this msg] run show ?thesis
    by (auto simp: dismissed_def)
qed

end
