(* ===== verification/MarketSpec.thy ===== *)
theory MarketSpec
  imports Demo
begin

text \<open>
  What the market promises (\<open>chain/internal/state/tx.go\<close>, \<open>state.go\<close>): services, inference requests,
  results, domains, transfers, start-up, keys and reads.
\<close>

section \<open>The market\<close>

text \<open>Registering a service takes a free, non-empty name and a positive price, requires the named
  domain to be active, moves the registration bond from the owner into the escrow and stores an active
  service under the next id, findable by its name.\<close>

theorem service_registration:
  assumes "chain_inv E {} s" and "isValidAddress signer"
    and "applyRegisterService E s signer p h = Inr (s', k, ev)" and "dec_register_service E p = Some msg"
    and "paramsLocked s = Inr ps"
  shows "map_of (cs_svc_by_name s) (mrs_name msg) = None \<and> mrs_name msg \<noteq> '''' \<and> 0 < amount (mrs_price msg)
    \<and> requireActiveDomain s (mrs_domain_id msg) = Inr () \<and> k = getMetaUint64 s keyNextSvcID
    \<and> map_of (cs_svc_by_name s') (mrs_name msg) = Some k
    \<and> (\<exists>svc. getService s' k = Inr svc \<and> svc_owner svc = signer \<and> svc_name svc = mrs_name msg \<and> svc_active svc
           \<and> svc_registration_bond svc = p_service_registration_bond ps)
    \<and> bal s' signer + unat (amount (p_service_registration_bond ps)) = bal s signer
    \<and> bal s' moduleEscrowAddr = bal s moduleEscrowAddr + unat (amount (p_service_registration_bond ps))"
  using assms(3)
proof (rule applyRegisterService_Inr)
  fix msg' ps' s1 svc
  assume f: "dec_register_service E p = Some msg'" "mrs_name msg' \<noteq> ''''" "amount (mrs_price msg') \<noteq> 0"
      "map_of (cs_svc_by_name s) (mrs_name msg') = None" "requireActiveDomain s (mrs_domain_id msg') = Inr ()"
      "paramsLocked s = Inr ps'"
    and lock: "move (Wrapped ''locking service registration bond'') E s signer moduleEscrowAddr
           (amount (p_service_registration_bond ps')) = Inr s1"
    and k: "k = getMetaUint64 s1 keyNextSvcID"
    and svc: "svc = \<lparr>svc_id = k, svc_owner = signer, svc_name = mrs_name msg',
         svc_description = mrs_description msg', svc_price = mrs_price msg',
         svc_domain_id = mrs_domain_id msg', svc_active = True, svc_created_at = h,
         svc_registration_bond = p_service_registration_bond ps'\<rparr>"
    and s': "s' = s1\<lparr>cs_meta := bput keyNextSvcID (MetaU64 (svc_id svc + 1)) (cs_meta s1),
                 cs_services := bput (svc_id svc) svc (cs_services s1),
                 cs_svc_by_name := bput (svc_name svc) (svc_id svc) (cs_svc_by_name s1)\<rparr>"
  note l = lock_facts [OF inv_accounts [OF assms(1)] assms(2) lock]
  have eq: "msg' = msg" "ps' = ps" using f(1,6) assms(4,5) by simp_all
  have "getService s' k = Inr svc" "map_of (cs_svc_by_name s') (mrs_name msg) = Some k" "bal s' = bal s1"
    by (simp_all add: s' svc eq)
  then show ?thesis
    using f l(4,6) gets_same_but_accounts(4) [OF l(2)] k by (simp add: eq svc word_gt_0)
qed

theorem service_registration_witness:
  "\<exists>s' ev. applyRegisterService demo_env (nd_db demo_funded) provider ''svc'' 0 = Inr (s', 1, ev)
     \<and> map_of (cs_svc_by_name s') ''echo'' = Some 1 \<and> bal s' moduleEscrowAddr = bal (nd_db demo_funded) moduleEscrowAddr + 100"
proof -
  have "dec_register_service demo_env ''svc'' = Some
      \<lparr>mrs_owner = provider, mrs_name = ''echo'', mrs_description = '''', mrs_price = aios 10, mrs_domain_id = 0\<rparr>"
    by (simp add: demo_env_def)
  moreover have "paramsLocked (nd_db demo_funded) = Inr defaultParams"
    by (simp add: paramsLocked_def demo_funded_def demo_genesis_def meta_keys)
  ultimately show ?thesis
    using service_registration [OF reach_inv [OF demo_funded_reach demo_sha] demo_addr_valid demo_register_run]
    by (simp add: demo_register_run) (simp add: defaultParams_def aios_def)
qed

text \<open>Service names are unique: two stored services with the same name are the same service.\<close>

theorem service_names_unique:
  assumes "chain_inv E D s" and "getService s j = Inr v" and "getService s k = Inr w" and "svc_name v = svc_name w"
  shows "j = k"
  using wf_service [OF inv_wf [OF assms(1)] assms(2)] wf_service [OF inv_wf [OF assms(1)] assms(3)] assms(4)
  by (simp add: svc_ok_def)

theorem service_names_unique_witness:
  "getService (demo_state demo_pending) 1 = Inr demo_svc \<and> (1 :: u64) = 1"
  using service_names_unique [OF demo_invs(1), of 1 demo_svc 1 demo_svc] by simp

text \<open>Requesting an inference needs an active service, a maximum price in the service's denomination
  that covers the price, and a deadline in the future; it moves exactly the service's price from the
  requester into the escrow and stores a pending request under the next id.\<close>

theorem inference_request:
  assumes "chain_inv E {} s" and "isValidAddress signer"
    and "applyRequestInference E s signer p h = Inr (s', k, ev)" and "dec_request_inference E p = Some msg"
  shows "\<exists>svc r. getService s (mri_service_id msg) = Inr svc \<and> svc_active svc
    \<and> denom (mri_max_price msg) = denom (svc_price svc) \<and> amount (svc_price svc) \<le> amount (mri_max_price msg)
    \<and> k = getMetaUint64 s keyNextReqID \<and> getRequest s' k = Inr r \<and> req_status r = StatusPending
    \<and> req_requester r = signer \<and> req_escrow r = svc_price svc \<and> h <s req_deadline r
    \<and> bal s' signer + unat (amount (svc_price svc)) = bal s signer
    \<and> bal s' moduleEscrowAddr = bal s moduleEscrowAddr + unat (amount (svc_price svc))"
  using assms(3)
proof (rule applyRequestInference_Inr)
  fix msg' svc ps s1 deadline r
  assume f: "dec_request_inference E p = Some msg'" "getService s (mri_service_id msg') = Inr svc" "svc_active svc"
      "denom (mri_max_price msg') = denom (svc_price svc)" "amount (svc_price svc) \<le> amount (mri_max_price msg')"
      "h <s deadline"
    and lock: "move id E s signer moduleEscrowAddr (amount (svc_price svc)) = Inr s1"
    and k: "k = getMetaUint64 s1 keyNextReqID"
    and r: "r = \<lparr>req_id = k, req_service_id = mri_service_id msg', req_requester = signer,
         req_input_hash = mri_input_hash msg', req_input_uri = mri_input_uri msg',
         req_input_text = mri_input_text msg', req_escrow = svc_price svc, req_deadline = deadline,
         req_status = StatusPending, req_created_at = h, req_finalized_at = 0,
         req_result = None, req_paid = None, req_submitted_at = 0, req_challenges = [],
         req_provider_bond = None, req_vouchers = []\<rparr>"
    and s': "s' = s1\<lparr>cs_meta := bput keyNextReqID (MetaU64 (req_id r + 1)) (cs_meta s1),
                 cs_requests := bput (req_id r) r (cs_requests s1)\<rparr>"
  note l = lock_facts [OF inv_accounts [OF assms(1)] assms(2) lock]
  have "getRequest s' k = Inr r" "bal s' = bal s1"
    by (simp_all add: s' r)
  then show ?thesis
    using f l(4,6) gets_same_but_accounts(4) [OF l(2)] k assms(4)
    by (intro exI [of _ svc] exI [of _ r]) (simp add: r)
qed

theorem inference_request_witness:
  "\<exists>s' ev r. applyRequestInference demo_env (demo_state demo_pending) requester ''req'' 0 = Inr (s', 2, ev)
     \<and> getRequest s' 2 = Inr r \<and> req_escrow r = aios 10 \<and> bal s' requester = 990 \<and> bal s' moduleEscrowAddr = 1010"
proof -
  obtain s' ev where run: "applyRequestInference demo_env (demo_state demo_pending) requester ''req'' 0 = Inr (s', 2, ev)"
    using demo_request_run by blast
  have "dec_request_inference demo_env ''req'' = Some \<lparr>mri_requester = requester, mri_service_id = 1, mri_input_hash = ''in'',
      mri_input_uri = '''', mri_input_text = ''hi'', mri_max_price = aios 12, mri_deadline = 1\<rparr>"
    by (simp add: demo_env_def)
  with inference_request [OF demo_invs(1) demo_addr_valid run] run show ?thesis
    by (auto simp: demo_bal demo_svc_def aios_def)
qed

text \<open>C31: A result is accepted once, from the owner of the service, for a pending request that is not
  past its deadline, with an attestation over the request's input that has the tuple and the pinned tokenizer of the
  service's domain, if it is bound to one; it locks the provider bond. With a
  challenge window the request becomes submitted; without one it is finalized at once, the owner gets
  the price and the bond back.\<close>

theorem result_submission:
  assumes "chain_inv E {} s" and "isValidAddress signer"
    and "applySubmitResult E s signer p h = Inr (s', fin, evs)" and "dec_submit_result E p = Some msg"
    and "paramsLocked s = Inr ps"
  shows "\<exists>r svc. getRequest s (msr_request_id msg) = Inr r \<and> req_status r = StatusPending
    \<and> getService s (req_service_id r) = Inr svc \<and> svc_owner svc = signer \<and> h <=s req_deadline r
    \<and> att_input_hash (res_attestation (msr_result msg)) = req_input_hash r
    \<and> (svc_domain_id svc = 0 \<or> (\<exists>vd. getDomain s (svc_domain_id svc) = Inr vd \<and> tuple_matches vd (res_attestation (msr_result msg))
          \<and> (dom_tokenizer_id vd = '''' \<or> att_tokenizer_id (res_attestation (msr_result msg)) = dom_tokenizer_id vd)))
    \<and> (fin \<longleftrightarrow> p_challenge_window ps = 0)
    \<and> getRequest s' = (getRequest s)(msr_request_id msg := Inr
         (let r1 = r\<lparr>req_provider_bond := (if isPositive (p_provider_bond ps) then Some (p_provider_bond ps)
                       else req_provider_bond r),
                     req_result := Some (msr_result msg), req_status := StatusSubmitted, req_submitted_at := h\<rparr>
          in if fin then r1\<lparr>req_status := StatusFinalized, req_finalized_at := h, req_paid := Some (req_escrow r)\<rparr>
             else r1))
    \<and> bal s' signer + (if fin then 0 else unat (amount (p_provider_bond ps)))
        = bal s signer + (if fin then unat (amount (req_escrow r)) else 0)"
  using assms(3)
proof (rule applySubmitResult_Inr)
  fix msg' r svc ps' s1 evs1
  assume f: "dec_submit_result E p = Some msg'" "getRequest s (msr_request_id msg') = Inr r" "req_status r = StatusPending"
      "getService s (req_service_id r) = Inr svc" "signer = svc_owner svc"
      "att_input_hash (res_attestation (msr_result msg')) = req_input_hash r" "h <=s req_deadline r"
      "paramsLocked s = Inr ps'"
      "matchDomain s ''loading svc domain'' ''domain expects'' ''domain tokenizer''
               (svc_domain_id svc) (res_attestation (msr_result msg')) = Inr ()"
    and lock: "move (Wrapped ''locking provider bond'') E s signer moduleEscrowAddr (amount (p_provider_bond ps')) = Inr s1"
    and fs: "finishSubmit E s1 signer h ps' (submitted h (msr_result msg') (p_provider_bond ps') r) evs1 = Inr (s', fin, evs)"
  have eq: "msg' = msg" "ps' = ps" using f(1,8) assms(4,5) by simp_all
  note l = lock_facts [OF inv_accounts [OF assms(1)] assms(2) lock]
  note g = submit_result_facts [OF assms(1-4) f(2) [unfolded eq] assms(5)]
  have id: "req_id r = msr_request_id msg" and shape: "req_shape r"
    using wf_request [OF inv_wf [OF assms(1)] f(2)] by (simp_all add: req_ok_def eq)
  have "bal s' signer + (if fin then 0 else unat (amount (p_provider_bond ps)))
        = bal s signer + (if fin then unat (amount (req_escrow r)) else 0)"
    using finishSubmit_bal [OF l(1) assms(2) fs] l(6) submitted_shape(2) [OF shape f(3)] unfolding eq by auto
  then show ?thesis
    using f [unfolded matchDomain_Inr] g(5,6) by (intro exI [of _ r] exI [of _ svc]) (simp add: eq id Let_def submitted_def dismissed_def)
qed

theorem result_submission_witness:
  "\<exists>s' evs. applySubmitResult demo_env (demo_state demo_pending) provider ''res'' 10 = Inr (s', False, evs)
     \<and> (\<exists>r'. getRequest s' 1 = Inr r' \<and> req_status r' = StatusSubmitted) \<and> bal s' provider = 950"
proof -
  obtain s' evs where run: "applySubmitResult demo_env (demo_state demo_pending) provider ''res'' 10 = Inr (s', False, evs)"
    using demo_submit_run by blast
  have "dec_submit_result demo_env ''res'' = Some \<lparr>msr_provider = provider, msr_request_id = 1, msr_result = demo_res\<rparr>"
    by (simp add: demo_env_def demo_res_def)
  from result_submission [OF demo_invs(1) _ run this, of defaultParams] run show ?thesis
    by (auto simp: demo_bal Let_def defaultParams_def aios_def)
qed

section \<open>Services, domains and accounts\<close>

text \<open>Only the owner can update a service, only while it is active and only to a positive price; the
  description and the price change, nothing else of the service, no other service and no balance.\<close>

theorem service_update:
  assumes "chain_inv E D s" and "applyUpdateService E s signer p h = Inr (s', ev)"
    and "dec_update_service E p = Some msg"
  shows "\<exists>svc. getService s (mus_service_id msg) = Inr svc \<and> svc_owner svc = signer \<and> svc_active svc
    \<and> 0 < amount (mus_price msg)
    \<and> getService s' = (getService s)(mus_service_id msg := Inr
        (svc\<lparr>svc_description := mus_description msg, svc_price := mus_price msg\<rparr>))
    \<and> map_of (cs_svc_by_name s') = map_of (cs_svc_by_name s)
    \<and> cs_accounts s' = cs_accounts s \<and> cs_requests s' = cs_requests s"
  using assms(2)
proof (rule applyUpdateService_Inr)
  fix msg' svc
  assume f: "dec_update_service E p = Some msg'" "getService s (mus_service_id msg') = Inr svc"
      "svc_owner svc = signer" "svc_active svc" "amount (mus_price msg') \<noteq> 0"
    and put: "putService E s (svc\<lparr>svc_description := mus_description msg', svc_price := mus_price msg'\<rparr>) = Inr s'"
  have eq: "msg' = msg" using f(1) assms(3) by simp
  have ok: "svc_id svc = mus_service_id msg" "map_of (cs_svc_by_name s) (svc_name svc) = Some (mus_service_id msg)"
    using wf_service [OF inv_wf [OF assms(1)] f(2)] by (simp_all add: svc_ok_def eq)
  show ?thesis
    using f put ok
    by (intro exI [of _ svc]) (auto simp: eq putService_Inr word_gt_0 fun_eq_iff)
qed

theorem service_update_witness:
  "\<exists>s' ev. applyUpdateService demo_env (demo_state demo_pending) provider ''upd'' 10 = Inr (s', ev)
     \<and> getService s' 1 = Inr (demo_svc\<lparr>svc_description := ''d'', svc_price := aios 20\<rparr>)"
proof -
  have msg: "dec_update_service demo_env ''upd'' = Some
      \<lparr>mus_owner = provider, mus_service_id = 1, mus_description = ''d'', mus_price = aios 20\<rparr>"
    by (simp add: demo_env_def)
  have "\<exists>s'. putService demo_env (demo_state demo_pending) (demo_svc\<lparr>svc_description := ''d'', svc_price := aios 20\<rparr>) = Inr s'"
    using length_uint64Key [of 1] by (force simp: putService_Inr demo_svc_def string_bytes_def)
  then obtain s' ev where run: "applyUpdateService demo_env (demo_state demo_pending) provider ''upd'' 10 = Inr (s', ev)"
    by (auto simp: applyUpdateService_def decode_def msg check_def demo_svc_def isValid_def isPositive_iff isLT_def
        aios_def defaultParams_def)
  from service_update [OF demo_invs(1) run msg] run show ?thesis
    by auto
qed

text \<open>Deactivating a service pays its registration bond exactly once: to the owner when the service
  has lived its minimal lifetime, to the treasury before, and the stored bond becomes zero.\<close>

theorem service_deactivation:
  assumes "chain_inv E D s" and "applyDeactivateService E s signer p h = Inr (s', ev)"
    and "dec_deactivate_service E p = Some msg" and "paramsLocked s = Inr ps"
  shows "\<exists>svc. getService s (mds_service_id msg) = Inr svc \<and> svc_owner svc = signer \<and> svc_active svc
    \<and> getService s' = (getService s)(mds_service_id msg := Inr
        (svc\<lparr>svc_active := False, svc_registration_bond := zero_coin\<rparr>))
    \<and> bal s' a + (if a = moduleEscrowAddr then unat (amount (svc_registration_bond svc)) else 0)
      = bal s a + (if a = (if p_min_service_lifetime ps <=s h - svc_created_at svc then signer else moduleTreasuryAddr)
                   then unat (amount (svc_registration_bond svc)) else 0)"
  using assms(2)
proof (rule applyDeactivateService_Inr)
  fix msg' svc ps' s1 c
  assume f: "dec_deactivate_service E p = Some msg'" "getService s (mds_service_id msg') = Inr svc"
      "svc_owner svc = signer" "svc_active svc" "paramsLocked s = Inr ps'"
    and pay: "settleServiceBond E s ps' svc h = Inr (s1, c)" and put: "putService E s1 (retired svc) = Inr s'"
  have eq: "msg' = msg" "ps' = ps" using f(1,5) assms(3,4) by simp_all
  have id: "svc_id svc = mds_service_id msg" "getService s (svc_id svc) = Inr svc"
    using f(2) service_id [OF assms(1) f(2)] by (simp_all add: eq)
  let ?to = "if p_min_service_lifetime ps <=s h - svc_created_at svc then signer else moduleTreasuryAddr"
  have "pays E [(?to, amount (svc_registration_bond svc))] s = Inr s1"
    using pay unfolding settleServiceBond_Inr eq f(3) by blast
  note r = retire(3,8) [OF assms(1) id(2) this put]
  then have "paid [(?to, amount (svc_registration_bond svc))] s s1" and "bal s' = bal s1"
    by (simp_all add: bal_def loadAccount_def fun_eq_iff)
  then have "bal s' a + (if a = moduleEscrowAddr then due [(?to, amount (svc_registration_bond svc))] else 0)
      = bal s a + received [(?to, amount (svc_registration_bond svc))] a"
    unfolding paid_def by simp
  then show ?thesis
    using f r(1) by (intro exI [of _ svc]) (auto simp: eq id(1) retired_def)
qed

theorem service_deactivation_witness:
  "\<exists>s' ev. applyDeactivateService demo_env (demo_state demo_pending) provider ''off'' 10 = Inr (s', ev)
     \<and> getService s' 1 = Inr (retired demo_svc) \<and> bal s' moduleEscrowAddr = 900"
proof -
  obtain s' ev where run: "applyDeactivateService demo_env (demo_state demo_pending) provider ''off'' 10 = Inr (s', ev)"
    using demo_deactivate_service_run by blast
  have "dec_deactivate_service demo_env ''off'' = Some \<lparr>mds_owner = provider, mds_service_id = 1\<rparr>"
    by (simp add: demo_env_def)
  from service_deactivation [OF demo_invs(1) run this, of defaultParams moduleEscrowAddr] run show ?thesis
    by (auto simp: retired_def demo_bal demo_svc_def aios_def split: if_splits)
qed

text \<open>The first account to register a domain becomes the authority; after that only the authority
  registers domains. A registered domain is active, has the four mandatory pins and a margin that is
  not negative, and gets the next id; the other domains stay.\<close>

theorem domain_registration:
  assumes "applyRegisterDomain E s signer p h = Inr (s', k, ev)" and "dec_register_domain E p = Some msg"
    and "signer \<noteq> ''''"
  shows "(authorityLocked s = '''' \<or> authorityLocked s = signer) \<and> authorityLocked s' = signer
    \<and> mrd_authority msg = signer \<and> k = getMetaUint64 s keyNextDomainID
    \<and> getMetaUint64 s' keyNextDomainID = k + 1
    \<and> (\<exists>d. getDomain s' = (getDomain s)(k := Inr d) \<and> dom_id d = k \<and> dom_active d \<and> 0 <=s dom_voucher_margin d
         \<and> '''' \<notin> {dom_model_sha256 d, dom_runtime_id d, dom_hardware_tag d, dom_precision d})"
  using assms(1)
proof (rule applyRegisterDomain_Inr)
  fix msg' s1 and d :: verification_domain
  assume f: "dec_register_domain E p = Some msg'" "mrd_authority msg' = signer"
      "authorityLocked s = '''' \<or> authorityLocked s = signer"
      "s1 = (if authorityLocked s = '''' then s\<lparr>cs_meta := bput keyAuthority (MetaString signer) (cs_meta s)\<rparr> else s)"
      "k = getMetaUint64 s1 keyNextDomainID" "0 <=s dom_voucher_margin d"
      "'''' \<notin> {mrd_model_sha256 msg', mrd_runtime_id msg', mrd_hardware_tag msg', mrd_precision msg'}"
    and d: "d = \<lparr>dom_id = k, dom_model_sha256 = mrd_model_sha256 msg', dom_runtime_id = mrd_runtime_id msg',
         dom_hardware_tag = mrd_hardware_tag msg', dom_precision = mrd_precision msg',
         dom_tokenizer_id = mrd_tokenizer_id msg', dom_description = mrd_description msg',
         dom_registered_at = h, dom_active = True,
         dom_voucher_margin = mrd_voucher_margin msg'\<rparr>"
    and s': "s' = s1\<lparr>cs_meta := bput keyNextDomainID (MetaU64 (dom_id d + 1)) (cs_meta s1),
                 cs_domains := bput (dom_id d) d (cs_domains s1)\<rparr>"
  have eq: "msg' = msg" using f(1) assms(2) by simp
  have "k = getMetaUint64 s keyNextDomainID" "getDomain s1 = getDomain s" "authorityLocked s1 = signer"
    using f(3,4,5) by (auto simp: authorityLocked_def getMetaString_def)
  moreover have "authorityLocked s' = authorityLocked s1" "getMetaUint64 s' keyNextDomainID = k + 1"
    by (simp_all add: s' d authorityLocked_def getMetaString_def meta_keys)
  moreover have "getDomain s' = (getDomain s1)(k := Inr d)"
    by (auto simp: s' d fun_eq_iff)
  ultimately show ?thesis
    using f(2,3,6,7) by (auto simp: eq d)
qed

theorem domain_registration_witness:
  "\<exists>s' ev. applyRegisterDomain demo_env (demo_state demo_pending) provider ''dom'' 10 = Inr (s', 1, ev)
     \<and> authorityLocked s' = provider \<and> getMetaUint64 s' keyNextDomainID = 2"
proof -
  have msg: "dec_register_domain demo_env ''dom'' = Some
      \<lparr>mrd_authority = provider, mrd_model_sha256 = ''m'', mrd_runtime_id = ''r'', mrd_hardware_tag = ''h'',
       mrd_precision = ''p'', mrd_tokenizer_id = '''', mrd_description = '''', mrd_voucher_margin = 0\<rparr>"
    by (simp add: demo_env_def)
  have "uint64Key 1 \<noteq> []" "keyNextDomainID \<noteq> []"
    using length_uint64Key [of 1] by (force, simp add: keyNextDomainID_def)
  then obtain s' ev where run: "applyRegisterDomain demo_env (demo_state demo_pending) provider ''dom'' 10 = Inr (s', 1, ev)"
    by (simp add: applyRegisterDomain_def decode_def msg check_def putMeta_def bucket_put_def putDomain_def)
  from domain_registration [OF run msg] run show ?thesis
    by auto
qed

text \<open>A transfer moves exactly the amount from the signer to the receiver, who may be the signer, and
  touches no other account and nothing else of the state.\<close>

theorem transfer_moves_amount:
  assumes "chain_inv E D s" and "applyTransfer E s signer p = Inr (s', ev)" and "dec_transfer E p = Some msg"
  shows "mt_from msg = signer \<and> 0 < amount (mt_amount msg) \<and> s' = s\<lparr>cs_accounts := cs_accounts s'\<rparr>
    \<and> bal s' a + (if a = signer then unat (amount (mt_amount msg)) else 0)
      = bal s a + (if a = mt_to msg then unat (amount (mt_amount msg)) else 0)"
  using assms(2)
proof (rule applyTransfer_Inr)
  fix msg'
  assume f: "dec_transfer E p = Some msg'" "mt_from msg' = signer" "amount (mt_amount msg') \<noteq> 0"
    and mv: "move id E s signer (mt_to msg') (amount (mt_amount msg')) = Inr s'"
  have eq: "msg' = msg" using f(1) assms(3) by simp
  note m = move_facts [OF inv_accounts [OF assms(1)] mv]
  show ?thesis
    using f m(3) m(5) [of a] unfolding eq by (simp add: word_gt_0 same_but_accounts_def)
qed

theorem transfer_moves_amount_witness:
  "\<exists>s' ev. applyTransfer demo_env (demo_state demo_pending) requester ''pay'' = Inr (s', ev)
     \<and> bal s' requester = 995 \<and> bal s' provider = 1005"
proof -
  have msg: "dec_transfer demo_env ''pay'' = Some \<lparr>mt_from = requester, mt_to = provider, mt_amount = aios 5\<rparr>"
    by (simp add: demo_env_def)
  have "\<exists>s1 s'. debit demo_env (demo_state demo_pending) requester 5 = Inr s1 \<and> credit demo_env s1 provider 5 = Inr s'"
    by (intro lg.move_ok [OF inv_accounts [OF demo_invs(1)]]) (auto simp: demo_accepts addr_okI demo_bal)
  then obtain s' ev where run: "applyTransfer demo_env (demo_state demo_pending) requester ''pay'' = Inr (s', ev)"
    by (auto simp: applyTransfer_def msg check_def move_def aios_def)
  note p = transfer_moves_amount [OF demo_invs(1) run msg]
  show ?thesis
    using run p [of requester] p [of provider] by (simp add: demo_bal demo_addr_eq aios_def)
qed

text \<open>A transfer of more than the signer has is refused with the error for insufficient funds.\<close>

theorem transfer_needs_funds:
  assumes "dec_transfer E p = Some msg" and "mt_from msg = signer" and "bal s signer < unat (amount (mt_amount msg))"
  shows "applyTransfer E s signer p = Inl ErrInsufficientFunds"
proof -
  have "amount (mt_amount msg) \<noteq> 0"
    using assms(3) by auto
  then show ?thesis
    using assms move_short [OF assms(3), of id E "mt_to msg"] by (simp add: applyTransfer_def check_def)
qed

theorem transfer_needs_funds_witness:
  "applyTransfer demo_env empty_db requester ''pay'' = Inl ErrInsufficientFunds"
proof -
  have "dec_transfer demo_env ''pay'' = Some \<lparr>mt_from = requester, mt_to = provider, mt_amount = aios 5\<rparr>"
    by (simp add: demo_env_def)
  then show ?thesis
    by (rule transfer_needs_funds) (simp_all add: bal_def loadAccount_def empty_db_def aios_def)
qed

section \<open>Start-up, keys and reads\<close>

text \<open>Opening a database initialises only what is missing: every key that had a value keeps it,
  nothing outside the meta bucket changes, and opening the same database again changes nothing.\<close>

theorem init_is_idempotent:
  assumes "initState E s = Inr s'"
  shows "initState E s' = Inr s' \<and> s' = s\<lparr>cs_meta := cs_meta s'\<rparr>
    \<and> (case map_of (cs_meta s) k of None \<Rightarrow> True | Some v \<Rightarrow> map_of (cs_meta s') k = Some v)"
proof -
  note i = initState_steps [OF assms]
  show ?thesis
    using i by (auto split: option.splits)
qed

theorem init_is_idempotent_witness:
  "initState demo_env (nd_db demo_genesis) = Inr (nd_db demo_genesis)"
proof -
  have "initState demo_env empty_db = Inr (nd_db demo_genesis)"
    by (simp add: demo_genesis_def initState_def initKey_def putMeta_def bucket_put_def empty_db_def meta_keys)
  then show ?thesis
    using init_is_idempotent by blast
qed

text \<open>The keys of the id buckets are 8 bytes, decode to the id they encode, and sort the way the ids
  do, so that a cursor walks the requests in the order of their ids.\<close>

theorem id_keys_roundtrip:
  "length (uint64Key n) = 8 \<and> getUint64 (uint64Key n) = n \<and> (uint64Key n < uint64Key m \<longleftrightarrow> n < m)"
  by (simp add: getUint64_uint64Key uint64Key_less)

text \<open>An address derived from a public key is valid and is never one of the module accounts, so no
  key can sign for the escrow or the treasury.\<close>

theorem derived_addresses_are_not_modules:
  assumes "sha_ok E"
  shows "isValidAddress (addressFromPubKey (sha256 E) pub)
    \<and> addressFromPubKey (sha256 E) pub \<notin> {moduleEscrowAddr, moduleFaucetAddr, moduleTreasuryAddr}"
  using isValidAddress_derived [of "sha256 E" pub] moduleAddr_invalid assms by (auto simp: sha_ok_def)

theorem derived_addresses_are_not_modules_witness:
  "isValidAddress (addressFromPubKey (sha256 demo_env) [1, 2])"
  using derived_addresses_are_not_modules [OF demo_sha] by blast

text \<open>Listing requests returns every stored request that matches the filters exactly once, in the
  order of the ids.\<close>

theorem list_requests_correct:
  assumes "chain_inv E D s"
  shows "(r \<in> set (listRequests s fs fv) \<longleftrightarrow> getRequest s (req_id r) = Inr r
      \<and> (if fs = '''' then True else status_text (req_status r) = fs) \<and> (if fv = 0 then True else req_service_id r = fv))
    \<and> sorted_wrt (<) (map req_id (listRequests s fs fv))"
proof
  note wf = inv_wf [OF assms]
  have "req_id q = k" if "getRequest s k = Inr q" for k q
    using wf_request [OF wf that] by (simp add: req_ok_def)
  then show "r \<in> set (listRequests s fs fv) \<longleftrightarrow> getRequest s (req_id r) = Inr r
      \<and> (if fs = '''' then True else status_text (req_status r) = fs) \<and> (if fv = 0 then True else req_service_id r = fv)"
    using listRequests_mem [OF wf_buckets(2) [OF wf], of r fs fv] by auto
  show "sorted_wrt (<) (map req_id (listRequests s fs fv))"
    by (rule listRequests_sorted [OF wf])
qed

theorem list_requests_correct_witness:
  "demo_pending \<in> set (listRequests (demo_state demo_pending) ''PENDING'' 1)"
  using list_requests_correct [OF demo_invs(1), of demo_pending "''PENDING''" 1] by simp

end
