(* ===== verification/Keyring.thy ===== *)
theory Keyring
  imports Submit
begin

text \<open>
  The development key file and signing on behalf of its users: creating and funding the keys
  (\<open>EnsureDevKeyring\<close> in \<open>chain/internal/state/state.go\<close>), finding a key (\<open>AccountByName\<close>, \<open>loadKey\<close>,
  \<open>resolveAddr\<close>), and \<open>signAndSubmit\<close> of \<open>chain/internal/api/demo.go\<close>, which builds, signs and submits
  an envelope inside the chain process. Reading and decoding the key file is the argument \<open>kr\<close>,
  key generation the argument \<open>gen\<close>, Ed25519 signing \<open>ed25519_sign\<close> and \<open>json.Marshal\<close> of a message
  \<open>marshal\<close>.
\<close>

record keyring_entry =
  ke_name :: string
  ke_address :: string
  ke_pub_key_hex :: string
  ke_priv_key_hex :: string

type_synonym key_file = "chain_error + keyring_entry list"

datatype tx_msg =
  MRegisterService msg_register_service
| MRequestInference msg_request_inference
| MSubmitResult msg_submit_result
| MRegisterDomain msg_register_domain
| MChallenge msg_challenge
| MVouch msg_vouch
| MUpdateService msg_update_service
| MDeactivateService msg_deactivate_service
| MDeactivateDomain msg_deactivate_domain
| MResolveChallenge msg_resolve_challenge

record wallet =
  ed25519_sign :: "bytes \<Rightarrow> bytes \<Rightarrow> bytes"
  marshal :: "tx_msg \<Rightarrow> string option"

text \<open>\<open>ed25519.Sign\<close> panics unless the private key has 64 bytes.\<close>

definition signWith :: "wallet \<Rightarrow> bytes \<Rightarrow> bytes \<Rightarrow> chain_error + bytes" where
  "signWith W priv msg =
     (if length priv \<noteq> 64 then Inl (Panic ''ed25519: bad private key length'') else Inr (ed25519_sign W priv msg))"

subsection \<open>The key file\<close>

definition devNames :: "string list" where
  "devNames = [''alice'', ''bob'', ''harness'', ''harness-b'']"

definition initialFunds :: u64 where
  "initialFunds = 1000000000"

fun generateKeys ::
  "env \<Rightarrow> (string \<Rightarrow> chain_error + bytes \<times> bytes) \<Rightarrow> string list \<Rightarrow> chain_error + keyring_entry list" where
  "generateKeys E gen [] = Inr []"
| "generateKeys E gen (name # names) =
     bind_r (map_err (Wrapped ''generate'') (gen name)) (\<lambda>(pub, priv).
     bind_r (generateKeys E gen names) (\<lambda>ks.
     Inr (\<lparr>ke_name = name, ke_address = addressFromPubKey (sha256 E) pub,
           ke_pub_key_hex = hexEncode pub, ke_priv_key_hex = hexEncode priv\<rparr> # ks)))"

fun fundKeys :: "env \<Rightarrow> keyring_entry list \<Rightarrow> chain_state \<Rightarrow> chain_error + chain_state" where
  "fundKeys E [] s = Inr s"
| "fundKeys E (k # ks) s = bind_r (credit E s (ke_address k) initialFunds) (fundKeys E ks)"

text \<open>
  \<open>EnsureDevKeyring\<close>: nothing if the file exists (\<open>present\<close>); otherwise the keys are generated, the
  file is written (\<open>write\<close> is the outcome) and only then are the accounts funded, in one database
  transaction. The result is the content of a file written now.
\<close>

definition ensureDevKeyring ::
  "env \<Rightarrow> bool \<Rightarrow> (string \<Rightarrow> chain_error + bytes \<times> bytes) \<Rightarrow> (keyring_entry list \<Rightarrow> chain_error + unit)
    \<Rightarrow> chain_state \<Rightarrow> keyring_entry list option \<times> (chain_error + unit) \<times> chain_state" where
  "ensureDevKeyring E present gen write s =
     (if present then (None, Inr (), s)
      else case generateKeys E gen devNames of
        Inl e \<Rightarrow> (None, Inl e, s)
      | Inr ks \<Rightarrow>
          (case map_err (Wrapped ''write keyring'') (write ks) of
             Inl e \<Rightarrow> (None, Inl e, s)
           | Inr _ \<Rightarrow>
               (case dbUpdate (\<lambda>s. bind_r (fundKeys E ks s) (\<lambda>s. Inr (s, ()))) s of
                  (r, s') \<Rightarrow> (Some ks, r, s'))))"

fun findKey :: "string \<Rightarrow> keyring_entry list \<Rightarrow> keyring_entry option" where
  "findKey name [] = None"
| "findKey name (k # ks) = (if ke_name k = name then Some k else findKey name ks)"

definition loadKey :: "key_file \<Rightarrow> string \<Rightarrow> chain_error + keyring_entry" where
  "loadKey kr name =
     bind_r kr (\<lambda>ks. case findKey name ks of None \<Rightarrow> Inl (ErrText ''key not found'') | Some k \<Rightarrow> Inr k)"

definition accountByName :: "key_file \<Rightarrow> string \<Rightarrow> chain_error + string" where
  "accountByName kr name =
     bind_r kr (\<lambda>ks. case findKey name ks of
       None \<Rightarrow> Inl (ErrText ''key not found'') | Some k \<Rightarrow> Inr (ke_address k))"

definition resolveAddr :: "key_file \<Rightarrow> string \<Rightarrow> string" where
  "resolveAddr kr name = (case loadKey kr name of Inl e \<Rightarrow> '''' | Inr k \<Rightarrow> ke_address k)"

subsection \<open>Signing on behalf of a key\<close>

definition decodeHex :: "string \<Rightarrow> string \<Rightarrow> chain_error + bytes" where
  "decodeHex w h = (case hexDecode h of None \<Rightarrow> Inl (Wrapped w (ErrText ''hex'')) | Some b \<Rightarrow> Inr b)"

definition buildTx ::
  "env \<Rightarrow> wallet \<Rightarrow> keyring_entry \<Rightarrow> bytes \<Rightarrow> string \<Rightarrow> string \<Rightarrow> u64 \<Rightarrow> chain_error + signed_tx" where
  "buildTx E W key priv ty payload nonce =
     (let tx = \<lparr>tx_type = ty, tx_nonce = nonce, tx_pub_key_hex = ke_pub_key_hex key,
                tx_signature_hex = '''', tx_payload = payload\<rparr> in
      case txCanonicalBytes (encode_tx E) tx of
        None \<Rightarrow> Inl (ErrText ''json'')
      | Some canonical \<Rightarrow>
          bind_r (signWith W priv canonical) (\<lambda>sig. Inr (tx\<lparr>tx_signature_hex := hexEncode sig\<rparr>)))"

definition prepareTx ::
  "env \<Rightarrow> wallet \<Rightarrow> key_file \<Rightarrow> string \<Rightarrow> string \<Rightarrow> tx_msg \<Rightarrow> chain_state \<Rightarrow> chain_error + signed_tx" where
  "prepareTx E W kr name ty msg s =
     bind_r (loadKey kr name) (\<lambda>key.
     bind_r (decodeHex ''decode priv'' (ke_priv_key_hex key)) (\<lambda>priv.
     bind_r (decodeHex ''decode pub'' (ke_pub_key_hex key)) (\<lambda>pub.
     bind_r (case marshal W msg of None \<Rightarrow> Inl (ErrText ''json'') | Some p \<Rightarrow> Inr p) (\<lambda>payload.
     buildTx E W key priv ty payload (accountNonce s (ke_address key))))))"

definition signAndSubmit ::
  "env \<Rightarrow> wallet \<Rightarrow> key_file \<Rightarrow> string \<Rightarrow> string \<Rightarrow> tx_msg \<Rightarrow> node \<Rightarrow> (chain_error + receipt) \<times> node" where
  "signAndSubmit E W kr name ty msg nd =
     (case prepareTx E W kr name ty msg (nd_db nd) of
        Inl e \<Rightarrow> (Inl e, nd)
      | Inr tx \<Rightarrow> submitTx E tx nd)"

subsection \<open>What signing relies on\<close>

text \<open>
  Ed25519 as documented, for one private key \<open>priv\<close>, which must come from a generated key pair: it is its
  32-byte seed followed by the 32-byte public key of that seed, a signature has 64 bytes, and a
  signature verifies under that public key. Nothing is said of other byte strings of that length.
\<close>

definition ed25519_ok :: "env \<Rightarrow> wallet \<Rightarrow> bytes \<Rightarrow> bool" where
  "ed25519_ok E W priv \<longleftrightarrow>
     length priv = 64 \<and>
     (\<forall>msg. length (ed25519_sign W priv msg) = 64
        \<and> ed25519_verify E (drop 32 priv) msg (ed25519_sign W priv msg))"

definition key_ok :: "env \<Rightarrow> keyring_entry \<Rightarrow> bool" where
  "key_ok E k \<longleftrightarrow>
     (\<exists>priv. hexDecode (ke_priv_key_hex k) = Some priv \<and> length priv = 64
       \<and> hexDecode (ke_pub_key_hex k) = Some (drop 32 priv)
       \<and> ke_address k = addressFromPubKey (sha256 E) (drop 32 priv))"

lemma hexEncode_ne: "bs \<noteq> [] \<Longrightarrow> hexEncode bs \<noteq> []"
  by (cases bs) auto

lemma checkEnvelope_buildTx:
  assumes "ed25519_ok E W priv" and "ty \<in> set known_tx_types" and "payload \<noteq> []"
    and "hexDecode (ke_pub_key_hex k) = Some (drop 32 priv)" and len: "length priv = 64"
    and "buildTx E W k priv ty payload nonce = Inr tx"
  shows "checkEnvelope E tx = Inr (addressFromPubKey (sha256 E) (drop 32 priv))"
    and "tx_type tx = ty" and "tx_payload tx = payload" and "tx_nonce tx = nonce"
proof -
  define raw where "raw = \<lparr>tx_type = ty, tx_nonce = nonce, tx_pub_key_hex = ke_pub_key_hex k,
      tx_signature_hex = '''', tx_payload = payload\<rparr>"
  obtain canonical where c: "txCanonicalBytes (encode_tx E) raw = Some canonical"
    and tx: "tx = raw\<lparr>tx_signature_hex := hexEncode (ed25519_sign W priv canonical)\<rparr>"
    using assms(6) len by (auto simp: buildTx_def signWith_def raw_def Let_def split: option.splits)
  define sig where "sig = ed25519_sign W priv canonical"
  have sig: "length sig = 64" "ed25519_verify E (drop 32 priv) canonical sig"
    using assms(1) len unfolding ed25519_ok_def sig_def by blast+
  have "sig \<noteq> []" and "drop 32 priv \<noteq> []"
    using sig(1) len by auto
  then have ne: "hexEncode sig \<noteq> []" "ke_pub_key_hex k \<noteq> []"
    using assms(4) by (auto simp: hexEncode_ne)
  show "tx_type tx = ty" "tx_payload tx = payload" "tx_nonce tx = nonce"
    by (simp_all add: tx raw_def)
  have "txCanonicalBytes (encode_tx E) tx = Some canonical"
    using c by (simp add: tx raw_def txCanonicalBytes_def)
  then show "checkEnvelope E tx = Inr (addressFromPubKey (sha256 E) (drop 32 priv))"
    using assms(2-5) sig ne
    by (simp add: checkEnvelope_Inr validateBasic_def hexDecode_Encode tx raw_def flip: sig_def)
qed

text \<open>
  A transaction prepared for a well-formed key passes every check of the envelope and of the nonce,
  so it reaches its handler.
\<close>

lemma prepareTx_runs:
  assumes "\<And>priv. hexDecode (ke_priv_key_hex k) = Some priv \<Longrightarrow> ed25519_ok E W priv"
    and "ty \<in> set known_tx_types" and "payload \<noteq> []"
    and "loadKey kr name = Inr k" and "key_ok E k" and "marshal W msg = Some payload"
    and "encode_tx E \<lparr>tx_type = ty, tx_nonce = nextNonce (nd_db nd) (ke_address k),
           tx_pub_key_hex = ke_pub_key_hex k, tx_signature_hex = '''', tx_payload = payload\<rparr> \<noteq> None"
  obtains tx where "prepareTx E W kr name ty msg (nd_db nd) = Inr tx"
    and "checkEnvelope E tx = Inr (ke_address k)" and "tx_type tx = ty" and "tx_payload tx = payload"
    and "tx_nonce tx = nextNonce (nd_db nd) (ke_address k)"
proof -
  obtain priv where k: "hexDecode (ke_priv_key_hex k) = Some priv" "length priv = 64"
      "hexDecode (ke_pub_key_hex k) = Some (drop 32 priv)"
      "ke_address k = addressFromPubKey (sha256 E) (drop 32 priv)"
    using assms(5) by (auto simp: key_ok_def)
  obtain tx where b: "buildTx E W k priv ty payload (nextNonce (nd_db nd) (ke_address k)) = Inr tx"
    using assms(7) k(2) by (auto simp: buildTx_def txCanonicalBytes_def signWith_def Let_def)
  then have "prepareTx E W kr name ty msg (nd_db nd) = Inr tx"
    using assms(4,6) k(1,3) by (simp add: prepareTx_def decodeHex_def accountNonce_def)
  with checkEnvelope_buildTx [OF assms(1) [OF k(1)] assms(2,3) k(3,2) b] k(4) that show thesis
    by simp
qed

lemma submitTx_runTx:
  assumes "checkEnvelope E tx = Inr signer"
  shows "submitTx E tx nd =
    (case runTx E signer tx (nd_db nd) of
       Inl e \<Rightarrow> (Inl e, nd)
     | Inr (s', rc) \<Rightarrow> (Inr rc, nd\<lparr>nd_db := s', nd_bus := emitAll (pendingOf rc) (nd_bus nd)\<rparr>))"
  using assms by (simp add: submitTx_def dbUpdate_def split: sum.splits)

end
