(* ===== verification/GoText.thy ===== *)
theory GoText
  imports Types
begin

text \<open>
  The Go text functions that the HTTP server and its clients are written with: decimal numbers
  (\<open>fmt.Sprintf("%d")\<close>, \<open>strconv.ParseUint\<close>), prefixes, trimming and splitting from \<open>strings\<close>, and the
  line reader of \<open>bufio\<close>. A Go string is the list of its bytes, so \<open>TrimSpace\<close> works on the UTF-8
  encodings of the Unicode spaces.
\<close>

subsection \<open>Decimal numbers\<close>

definition digitChar :: "nat \<Rightarrow> char" where
  "digitChar d = ''0123456789'' ! d"

fun formatNat :: "nat \<Rightarrow> string" where
  "formatNat n = (if n < 10 then [digitChar n] else formatNat (n div 10) @ [digitChar (n mod 10)])"

declare formatNat.simps [simp del]

definition formatUint :: "u64 \<Rightarrow> string" where
  "formatUint n = formatNat (unat n)"

definition digitVal :: "char \<Rightarrow> nat option" where
  "digitVal c = (let n = (of_char c :: nat) in if 48 \<le> n \<and> n \<le> 57 then Some (n - 48) else None)"

text \<open>
  \<open>strconv.ParseUint(s, 10, 64)\<close> returns a value together with an error: 0 for a text that is not a
  number and the largest value for one that does not fit, so a caller that drops the error sees those.
\<close>

datatype parse_error = ErrSyntax | ErrRange

fun parseDigits :: "string \<Rightarrow> nat \<Rightarrow> u64 \<times> parse_error option" where
  "parseDigits [] n = (word_of_nat n, None)"
| "parseDigits (c # cs) n =
     (case digitVal c of
        None \<Rightarrow> (0, Some ErrSyntax)
      | Some d \<Rightarrow> if n * 10 + d < 2 ^ 64 then parseDigits cs (n * 10 + d) else (- 1, Some ErrRange))"

definition parseUint :: "string \<Rightarrow> u64 \<times> parse_error option" where
  "parseUint s = (if s = [] then (0, Some ErrSyntax) else parseDigits s 0)"

lemma digitVal_digitChar: "d < 10 \<Longrightarrow> digitVal (digitChar d) = Some d"
proof -
  have "\<forall>d \<in> set [0..<10]. digitVal (digitChar d) = Some d"
    by code_simp
  then show "d < 10 \<Longrightarrow> digitVal (digitChar d) = Some d" by simp
qed

lemma formatNat_ne: "formatNat n \<noteq> []"
  by (subst formatNat.simps) simp

lemma formatNat_digits: "c \<in> set (formatNat n) \<Longrightarrow> \<exists>d < 10. c = digitChar d"
proof (induction n rule: formatNat.induct)
  case (1 n)
  show ?case
  proof (cases "n < 10")
    case True
    then show ?thesis using 1(2) by (auto simp: formatNat.simps [of n])
  next
    case False
    then have "c = digitChar (n mod 10) \<or> c \<in> set (formatNat (n div 10))"
      using 1(2) by (auto simp: formatNat.simps [of n])
    then show ?thesis using 1(1) [OF False] by (metis mod_less_divisor zero_less_numeral)
  qed
qed

lemma parseDigits_formatNat:
  "n < 2 ^ 64 \<Longrightarrow> parseDigits (formatNat n @ cs) 0 = parseDigits cs n"
proof (induction n arbitrary: cs rule: formatNat.induct)
  case (1 n)
  show ?case
  proof (cases "n < 10")
    case True
    then show ?thesis using 1(2) by (simp add: formatNat.simps [of n] digitVal_digitChar)
  next
    case False
    then have "n div 10 < 2 ^ 64" using 1(2) by simp
    then show ?thesis
      using 1(1) [OF False, of "digitChar (n mod 10) # cs"] 1(2) False
      by (simp add: formatNat.simps [of n] digitVal_digitChar mult.commute)
  qed
qed

lemma parseUint_formatUint [simp]: "parseUint (formatUint n) = (n, None)"
  using parseDigits_formatNat [of "unat n" "[]"] unat_64_less [of n] formatNat_ne [of "unat n"]
  by (simp add: parseUint_def formatUint_def)

subsection \<open>Prefixes, trimming and splitting\<close>

definition hasPrefix :: "string \<Rightarrow> string \<Rightarrow> bool" where
  "hasPrefix s p \<longleftrightarrow> take (length p) s = p"

definition trimPrefix :: "string \<Rightarrow> string \<Rightarrow> string" where
  "trimPrefix s p = (if hasPrefix s p then drop (length p) s else s)"

definition trimRight :: "string \<Rightarrow> string \<Rightarrow> string" where
  "trimRight s cutset = rev (dropWhile (\<lambda>c. c \<in> set cutset) (rev s))"

text \<open>
  The spaces of \<open>unicode.IsSpace\<close>: the six ASCII ones, U+0085, U+00A0, U+1680, U+2000 to U+200A,
  U+2028, U+2029, U+202F, U+205F and U+3000, each as its UTF-8 bytes.
\<close>

definition spaceRunes :: "string list" where
  "spaceRunes =
     [[CHR 0x09], [CHR 0x0A], [CHR 0x0B], [CHR 0x0C], [CHR 0x0D], [CHR 0x20],
      [CHR 0xC2, CHR 0x85], [CHR 0xC2, CHR 0xA0], [CHR 0xE1, CHR 0x9A, CHR 0x80],
      [CHR 0xE2, CHR 0x80, CHR 0x80], [CHR 0xE2, CHR 0x80, CHR 0x81], [CHR 0xE2, CHR 0x80, CHR 0x82],
      [CHR 0xE2, CHR 0x80, CHR 0x83], [CHR 0xE2, CHR 0x80, CHR 0x84], [CHR 0xE2, CHR 0x80, CHR 0x85],
      [CHR 0xE2, CHR 0x80, CHR 0x86], [CHR 0xE2, CHR 0x80, CHR 0x87], [CHR 0xE2, CHR 0x80, CHR 0x88],
      [CHR 0xE2, CHR 0x80, CHR 0x89], [CHR 0xE2, CHR 0x80, CHR 0x8A], [CHR 0xE2, CHR 0x80, CHR 0xA8],
      [CHR 0xE2, CHR 0x80, CHR 0xA9], [CHR 0xE2, CHR 0x80, CHR 0xAF], [CHR 0xE2, CHR 0x81, CHR 0x9F],
      [CHR 0xE3, CHR 0x80, CHR 0x80]]"

function trimLeftRunes :: "string list \<Rightarrow> string \<Rightarrow> string" where
  "trimLeftRunes rs s =
     (case find (\<lambda>r. r \<noteq> [] \<and> hasPrefix s r) rs of
        None \<Rightarrow> s
      | Some r \<Rightarrow> trimLeftRunes rs (drop (length r) s))"
  by auto

termination
proof (relation "measure (\<lambda>(rs, s). length s)")
  fix rs s r
  assume "find (\<lambda>r. r \<noteq> [] \<and> hasPrefix s r) rs = Some r"
  then have "r \<noteq> []" and "take (length r) s = r"
    by (auto simp: find_Some_iff hasPrefix_def)
  then show "((rs, drop (length r) s), rs, s) \<in> measure (\<lambda>(rs, s). length s)"
    by (cases s) auto
qed simp



declare trimLeftRunes.simps [simp del]

definition trimSpace :: "string \<Rightarrow> string" where
  "trimSpace s = rev (trimLeftRunes (map rev spaceRunes) (rev (trimLeftRunes spaceRunes s)))"

text \<open>\<open>strings.Split(s, sep)\<close> for a one-byte separator: never empty, \<open>[s]\<close> if the separator is absent.\<close>

fun splitOn :: "char \<Rightarrow> string \<Rightarrow> string list" where
  "splitOn sep [] = [[]]"
| "splitOn sep (c # cs) =
     (if c = sep then [] # splitOn sep cs
      else case splitOn sep cs of [] \<Rightarrow> [[c]] | w # ws \<Rightarrow> (c # w) # ws)"

definition joinOn :: "char \<Rightarrow> string list \<Rightarrow> string" where
  "joinOn sep ws = (case ws of [] \<Rightarrow> [] | w # ws \<Rightarrow> w @ concat (map (\<lambda>w. sep # w) ws))"

text \<open>
  \<open>reader.ReadString(delim)\<close> on the bytes still to come: the text up to and including the delimiter,
  or an error when the stream ends first.
\<close>

fun readString :: "char \<Rightarrow> string \<Rightarrow> (string \<times> string) option" where
  "readString d [] = None"
| "readString d (c # cs) =
     (if c = d then Some ([c], cs)
      else map_option (\<lambda>(l, r). (c # l, r)) (readString d cs))"

lemma readString_shorter: "readString d s = Some (l, r) \<Longrightarrow> length r < length s"
  by (induction s arbitrary: l) (fastforce split: if_splits)+

lemma readString_line: "d \<notin> set l \<Longrightarrow> readString d (l @ d # r) = Some (l @ [d], r)"
  by (induction l) auto

lemma splitOn_none: "sep \<notin> set w \<Longrightarrow> splitOn sep w = [w]"
  by (induction w) auto

lemma splitOn_append: "sep \<notin> set w \<Longrightarrow> splitOn sep (w @ sep # s) = w # splitOn sep s"
  by (induction w) auto

lemma splitOn_joinOn:
  "ws \<noteq> [] \<Longrightarrow> \<forall>w \<in> set ws. sep \<notin> set w \<Longrightarrow> splitOn sep (joinOn sep ws) = ws"
proof (induction ws)
  case (Cons w ws)
  then show ?case
    by (cases ws) (auto simp: joinOn_def splitOn_none splitOn_append)
qed simp

text \<open>A text that neither starts nor ends with a byte of a space is left as it is.\<close>

definition solid :: "string \<Rightarrow> bool" where
  "solid s \<longleftrightarrow> s \<noteq> [] \<and> (\<forall>r \<in> set spaceRunes. hd s \<noteq> hd r \<and> last s \<noteq> last r)"

lemma spaceRunes_ne: "r \<in> set spaceRunes \<Longrightarrow> r \<noteq> []"
  by (auto simp: spaceRunes_def)

lemma trimLeftRunes_none:
  assumes "\<And>r. r \<in> set rs \<Longrightarrow> r \<noteq> [] \<Longrightarrow> \<not> hasPrefix s r"
  shows "trimLeftRunes rs s = s"
proof -
  have "find (\<lambda>r. r \<noteq> [] \<and> hasPrefix s r) rs = None"
    using assms by (auto simp: find_None_iff)
  then show ?thesis by (subst trimLeftRunes.simps) simp
qed

lemma hasPrefix_hd: "r \<noteq> [] \<Longrightarrow> hasPrefix s r \<Longrightarrow> s \<noteq> [] \<and> hd s = hd r"
  by (cases s; cases r) (auto simp: hasPrefix_def)

lemma trimSpace_solid:
  assumes "solid s"
  shows "trimSpace s = s"
proof -
  have "\<not> hasPrefix s r" if "r \<in> set spaceRunes" for r
    using assms hasPrefix_hd [OF spaceRunes_ne [OF that]] that unfolding solid_def by metis
  then have "trimLeftRunes spaceRunes s = s"
    by (intro trimLeftRunes_none)
  moreover have "\<not> hasPrefix (rev s) (rev r)" if "r \<in> set spaceRunes" for r
    using assms hasPrefix_hd [of "rev r" "rev s"] spaceRunes_ne [OF that] that
    unfolding solid_def by (metis hd_rev rev_is_Nil_conv)
  then have "trimLeftRunes (map rev spaceRunes) (rev s) = rev s"
    by (intro trimLeftRunes_none) (metis (no_types, lifting) image_iff set_map)
  ultimately show ?thesis by (simp add: trimSpace_def)
qed

lemma trimSpace_space: "trimSpace (CHR 0x20 # s) = trimSpace s"
proof -
  have "find (\<lambda>r. r \<noteq> [] \<and> hasPrefix (CHR 0x20 # s) r) spaceRunes = Some [CHR 0x20]"
    by (simp add: spaceRunes_def hasPrefix_def)
  then have "trimLeftRunes spaceRunes (CHR 0x20 # s) = trimLeftRunes spaceRunes s"
    by (subst trimLeftRunes.simps) simp
  then show ?thesis by (simp add: trimSpace_def)
qed

lemma trimRight_solid: "s \<noteq> [] \<Longrightarrow> last s \<notin> set cs \<Longrightarrow> trimRight s cs = s"
  by (metis (no_types, lifting) dropWhile_eq_self_iff hd_rev rev_rev_ident trimRight_def)

lemma trimRight_drop: "c \<in> set cs \<Longrightarrow> trimRight (s @ [c]) cs = trimRight s cs"
  by (simp add: trimRight_def)

end
