(* ===== verification/Views.thy ===== *)
theory Views
  imports System GoText
begin

text \<open>
  The exported read-only calls of the state (\<open>chain/internal/state/state.go\<close>), each a read transaction of
  the database, as the HTTP server makes them; and the exported helpers of \<open>chain/internal/types\<close> that
  only tests and other programs call.
\<close>

section \<open>Read transactions\<close>

text \<open>\<open>db.View\<close>: the function sees the committed contents and cannot change them.\<close>

definition dbView :: "(chain_state \<Rightarrow> 'a) \<Rightarrow> chain_state \<Rightarrow> 'a" where
  "dbView f s = f s"

definition stateHeight :: "chain_state \<Rightarrow> i64" where
  "stateHeight s = dbView (\<lambda>s. getMetaUint64 s keyHeight) s"

definition stateParams :: "chain_state \<Rightarrow> chain_error + params" where
  "stateParams s = dbView paramsLocked s"

definition stateGetDomain :: "chain_state \<Rightarrow> u64 \<Rightarrow> chain_error + verification_domain" where
  "stateGetDomain s = dbView getDomain s"

definition stateGetService :: "chain_state \<Rightarrow> u64 \<Rightarrow> chain_error + service" where
  "stateGetService s = dbView getService s"

definition stateGetRequest :: "chain_state \<Rightarrow> u64 \<Rightarrow> chain_error + inference_request" where
  "stateGetRequest s = dbView getRequest s"

definition isVoucherEligible :: "chain_state \<Rightarrow> string \<Rightarrow> u64 \<Rightarrow> bool" where
  "isVoucherEligible s owner domainID = dbView (\<lambda>s. voucherEligible s owner domainID) s"

lemma views [simp]:
  "stateHeight s = heightLocked s" "stateParams s = paramsLocked s" "stateGetDomain s = getDomain s"
  "stateGetService s = getService s" "stateGetRequest s = getRequest s"
  "isVoucherEligible s owner domainID = voucherEligible s owner domainID"
  by (simp_all add: stateHeight_def stateParams_def stateGetDomain_def stateGetService_def stateGetRequest_def
      isVoucherEligible_def dbView_def heightLocked_def)

section \<open>Helpers\<close>

definition coinString :: "coin \<Rightarrow> string" where
  "coinString c = formatUint (amount c) @ denom c"

definition sha256Sum :: "env \<Rightarrow> bytes \<Rightarrow> bytes" where
  "sha256Sum E b = sha256 E b"

definition sha256Hex :: "env \<Rightarrow> bytes \<Rightarrow> string" where
  "sha256Hex E b = (let h = sha256Sum E b in hexEncode h)"

lemma sha256Hex_decodes: "hexDecode (sha256Hex E b) = Some (sha256Sum E b)"
  by (simp add: sha256Hex_def hexDecode_Encode)

end
