(* ===== verification/Gateway.thy ===== *)
theory Gateway
  imports Keyring Views
begin

text \<open>
  The HTTP surface of the chain (\<open>chain/internal/api/api.go\<close>, \<open>demo.go\<close> and \<open>demo_lifecycle.go\<close>):
  routing, the read handlers, \<open>POST /tx\<close> and the demo endpoints that sign with the development keys.
  A reply is its status code with the Go value that \<open>writeJSON\<close> renders; \<open>Aborted\<close> is the
  connection that \<open>net/http\<close> closes after a handler panicked. Decoding a request body is a parameter.
\<close>

datatype json_field = JUint u64 | JInt i64 | JStr string | JBool bool

datatype api_body =
  BodyError chain_error
| BodyText string
| BodyMap "(string \<times> json_field) list"
| BodyParams params
| BodyService service | BodyServices "service list" | BodySeeded "service list"
| BodyRequest inference_request | BodyRequests "inference_request list"
| BodyDomain verification_domain | BodyDomains "verification_domain list"
| BodyStream
| BodyNone

datatype reply = Reply nat api_body | Aborted

fun is_panic :: "chain_error \<Rightarrow> bool" where
  "is_panic (Panic m) = True"
| "is_panic (Wrapped m e) = is_panic e"
| "is_panic e = False"

definition writeError :: "nat \<Rightarrow> chain_error \<Rightarrow> reply" where
  "writeError status e = (if is_panic e then Aborted else Reply status (BodyError e))"

definition parse_text :: "parse_error \<Rightarrow> chain_error" where
  "parse_text e = (case e of ErrSyntax \<Rightarrow> ErrText ''invalid syntax'' | ErrRange \<Rightarrow> ErrText ''value out of range'')"

subsection \<open>Read handlers\<close>

text \<open>The shape of the three handlers that look one record up by the id in the path.\<close>

definition getById :: "string \<Rightarrow> (u64 \<Rightarrow> chain_error + 'a) \<Rightarrow> chain_error \<Rightarrow> ('a \<Rightarrow> api_body) \<Rightarrow> reply" where
  "getById seg look missing body =
     (case parseUint seg of
        (_, Some e) \<Rightarrow> writeError 400 (parse_text e)
      | (k, None) \<Rightarrow>
          (case look k of
             Inl e \<Rightarrow> if errors_is e missing then writeError 404 e else writeError 500 e
           | Inr v \<Rightarrow> Reply 200 (body v)))"

definition listServicesH :: "chain_state \<Rightarrow> reply" where
  "listServicesH s = Reply 200 (BodyServices (listServices s))"

definition listDomainsH :: "chain_state \<Rightarrow> reply" where
  "listDomainsH s = Reply 200 (BodyDomains (listDomains s))"

definition getServiceH :: "chain_state \<Rightarrow> string \<Rightarrow> reply" where
  "getServiceH s seg = getById seg (stateGetService s) ErrServiceNotFound BodyService"

definition getRequestH :: "chain_state \<Rightarrow> string \<Rightarrow> reply" where
  "getRequestH s seg = getById seg (stateGetRequest s) ErrRequestNotFound BodyRequest"

definition getDomainH :: "chain_state \<Rightarrow> string \<Rightarrow> reply" where
  "getDomainH s seg = getById seg (stateGetDomain s) ErrDomainNotFound BodyDomain"

definition listRequestsH :: "chain_state \<Rightarrow> string \<Rightarrow> string \<Rightarrow> reply" where
  "listRequestsH s st svc = Reply 200 (BodyRequests (listRequests s st (fst (parseUint svc))))"

definition getAccountH :: "chain_state \<Rightarrow> string \<Rightarrow> reply" where
  "getAccountH s addr =
     (if \<not> isValidAddress addr then writeError 400 ErrInvalidAddress
      else let acc = loadAccount s addr in
        Reply 200 (BodyMap [(''address'', JStr (acc_address acc)), (''balance'', JUint (acc_balance acc)),
          (''nonce'', JUint (accountNonce s addr))]))"

definition paramsH :: "chain_state \<Rightarrow> reply" where
  "paramsH s = (case stateParams s of Inl e \<Rightarrow> writeError 500 e | Inr p \<Rightarrow> Reply 200 (BodyParams p))"

definition statusH :: "chain_state \<Rightarrow> string \<Rightarrow> reply" where
  "statusH s now =
     Reply 200 (BodyMap [(''chain_id'', JStr (getMetaString s keyChainID)), (''height'', JInt (stateHeight s)),
       (''time'', JStr now)])"

definition getAuthorityH :: "chain_state \<Rightarrow> reply" where
  "getAuthorityH s = Reply 200 (BodyMap [(''authority'', JStr (authorityLocked s))])"

definition healthH :: reply where
  "healthH = Reply 200 (BodyMap [(''status'', JStr ''ok'')])"

subsection \<open>Submitting a transaction\<close>

definition txReply :: "receipt \<Rightarrow> i64 \<Rightarrow> (string \<times> json_field) list" where
  "txReply rc h =
     [(''type'', JStr (rc_type rc)), (''height'', JInt h)]
     @ (if rc_new_id rc \<noteq> 0 then
          (if rc_type rc = txRegisterService then [(''service_id'', JUint (rc_new_id rc))]
           else if rc_type rc = txRequestInference then [(''request_id'', JUint (rc_new_id rc))]
           else [])
        else [])
     @ (if rc_type rc = txSubmitResult then [(''finalized'', JBool (rc_finalized rc))] else [])"

definition submitTxH :: "env \<Rightarrow> (string \<Rightarrow> signed_tx option) \<Rightarrow> string \<Rightarrow> node \<Rightarrow> reply \<times> node" where
  "submitTxH E dec_tx body nd =
     (case dec_tx body of
        None \<Rightarrow> (writeError 400 (Wrapped ''decode'' (ErrText ''json'')), nd)
      | Some tx \<Rightarrow>
          (case submitTx E tx nd of
             (Inl e, nd') \<Rightarrow> (writeError 400 e, nd')
           | (Inr rc, nd') \<Rightarrow> (Reply 200 (BodyMap (txReply rc (stateHeight (nd_db nd')))), nd')))"

subsection \<open>Demo endpoints\<close>

record demo_register_domain_req =
  drd_model_sha256 :: string
  drd_runtime_id :: string
  drd_hardware_tag :: string
  drd_precision :: string
  drd_description :: string
  drd_key :: string

record demo_register_req =
  drs_name :: string
  drs_description :: string
  drs_price :: u64
  drs_key :: string

record demo_challenge_req =
  dch_request_id :: u64
  dch_output_hash :: string
  dch_key :: string

record demo_request_req =
  dri_service_id :: u64
  dri_prompt :: string
  dri_key :: string

record demo_update_service_req =
  dus_service_id :: u64
  dus_description :: string
  dus_price_amount :: u64
  dus_key :: string

record demo_deactivate_service_req =
  dds_service_id :: u64
  dds_key :: string

record demo_deactivate_domain_req =
  ddd_domain_id :: u64
  ddd_key :: string

record demo_resolve_challenge_req =
  drc_request_id :: u64
  drc_decision :: string
  drc_key :: string

definition orDefault :: "string \<Rightarrow> string \<Rightarrow> string" where
  "orDefault v d = (if v = '''' then d else v)"

text \<open>The end of every demo handler: sign, submit, and report what the receipt says.\<close>

definition demoSubmit ::
  "env \<Rightarrow> wallet \<Rightarrow> key_file \<Rightarrow> string \<Rightarrow> string \<Rightarrow> tx_msg \<Rightarrow> (receipt \<Rightarrow> (string \<times> json_field) list)
    \<Rightarrow> node \<Rightarrow> reply \<times> node" where
  "demoSubmit E W kr key ty msg ok nd =
     (case signAndSubmit E W kr key ty msg nd of
        (Inl e, nd') \<Rightarrow> (writeError 400 e, nd')
      | (Inr rc, nd') \<Rightarrow> (Reply 200 (BodyMap (ok rc)), nd'))"

definition demoRegisterDomain ::
  "env \<Rightarrow> wallet \<Rightarrow> key_file \<Rightarrow> demo_register_domain_req \<Rightarrow> node \<Rightarrow> reply \<times> node" where
  "demoRegisterDomain E W kr rq nd =
     (let key = orDefault (drd_key rq) ''bob'' in
      demoSubmit E W kr key txRegisterDomain
        (MRegisterDomain \<lparr>mrd_authority = resolveAddr kr key, mrd_model_sha256 = drd_model_sha256 rq,
           mrd_runtime_id = drd_runtime_id rq, mrd_hardware_tag = drd_hardware_tag rq,
           mrd_precision = drd_precision rq, mrd_tokenizer_id = '''',
           mrd_description = drd_description rq, mrd_voucher_margin = 0\<rparr>)
        (\<lambda>rc. [(''domain_id'', JUint (rc_new_id rc))]) nd)"

definition demoRegisterService ::
  "env \<Rightarrow> wallet \<Rightarrow> key_file \<Rightarrow> demo_register_req \<Rightarrow> node \<Rightarrow> reply \<times> node" where
  "demoRegisterService E W kr rq nd =
     (let key = orDefault (drs_key rq) ''bob'';
          price = (if drs_price rq = 0 then 100 else drs_price rq) in
      demoSubmit E W kr key txRegisterService
        (MRegisterService \<lparr>mrs_owner = resolveAddr kr key, mrs_name = drs_name rq,
           mrs_description = drs_description rq, mrs_price = aios price, mrs_domain_id = 0\<rparr>)
        (\<lambda>rc. [(''service_id'', JUint (rc_new_id rc))]) nd)"

definition no_domain :: verification_domain where
  "no_domain = \<lparr>dom_id = 0, dom_model_sha256 = '''', dom_runtime_id = '''', dom_hardware_tag = '''',
     dom_precision = '''', dom_tokenizer_id = '''', dom_description = '''', dom_registered_at = 0,
     dom_active = False, dom_voucher_margin = 0\<rparr>"

definition demoAttestation ::
  "chain_state \<Rightarrow> string \<Rightarrow> u64 \<Rightarrow> inference_request \<Rightarrow> string \<Rightarrow> attestation" where
  "demoAttestation s addr domain full output_hash =
     (let dom = (case stateGetDomain s domain of Inl _ \<Rightarrow> no_domain | Inr d \<Rightarrow> d) in
      \<lparr>att_provider = addr, att_domain_id = domain, att_model_sha256 = dom_model_sha256 dom,
       att_runtime_id = dom_runtime_id dom, att_hardware_tag = dom_hardware_tag dom,
       att_precision = dom_precision dom, att_tokenizer_id = '''', att_input_hash = req_input_hash full,
       att_output_hash = output_hash, att_produced_at = stateHeight s, att_signature_hex = ''''\<rparr>)"

definition demoChallenge ::
  "env \<Rightarrow> wallet \<Rightarrow> key_file \<Rightarrow> demo_challenge_req \<Rightarrow> node \<Rightarrow> reply \<times> node" where
  "demoChallenge E W kr rq nd =
     (let key = orDefault (dch_key rq) ''harness''; s = nd_db nd in
      case stateGetRequest s (dch_request_id rq) of
        Inl e \<Rightarrow> (writeError 400 e, nd)
      | Inr full \<Rightarrow>
          if req_status full \<noteq> StatusSubmitted then
            (writeError 400 (ErrText ''request not in SUBMITTED state''), nd)
          else (case stateGetService s (req_service_id full) of
            Inl e \<Rightarrow> (writeError 400 e, nd)
          | Inr svc \<Rightarrow>
              demoSubmit E W kr key txChallenge
                (MChallenge \<lparr>mc_challenger = resolveAddr kr key, mc_request_id = dch_request_id rq,
                   mc_attestation = demoAttestation s (resolveAddr kr key) (svc_domain_id svc) full
                     (dch_output_hash rq)\<rparr>)
                (\<lambda>rc. [(''ok'', JBool True), (''type'', JStr (rc_type rc))]) nd))"

definition demoRequestInference ::
  "env \<Rightarrow> wallet \<Rightarrow> key_file \<Rightarrow> demo_request_req \<Rightarrow> node \<Rightarrow> reply \<times> node" where
  "demoRequestInference E W kr rq nd =
     (let key = orDefault (dri_key rq) ''alice'';
          svc_id = (if dri_service_id rq = 0 then 1 else dri_service_id rq);
          prompt = orDefault (dri_prompt rq) ''Translate 'hello world' to French.'' in
      case stateGetService (nd_db nd) svc_id of
        Inl e \<Rightarrow> (writeError 400 e, nd)
      | Inr svc \<Rightarrow>
          let inputHash = hexEncode (sha256 E (string_bytes prompt)) in
          demoSubmit E W kr key txRequestInference
            (MRequestInference \<lparr>mri_requester = resolveAddr kr key, mri_service_id = svc_id,
               mri_input_hash = inputHash, mri_input_uri = ''inline:'' @ inputHash, mri_input_text = prompt,
               mri_max_price = svc_price svc, mri_deadline = 0\<rparr>)
            (\<lambda>rc. [(''request_id'', JUint (rc_new_id rc))]) nd)"

definition demoUpdateService ::
  "env \<Rightarrow> wallet \<Rightarrow> key_file \<Rightarrow> demo_update_service_req \<Rightarrow> node \<Rightarrow> reply \<times> node" where
  "demoUpdateService E W kr rq nd =
     (let key = orDefault (dus_key rq) ''bob'';
          price = (if dus_price_amount rq = 0 then 100 else dus_price_amount rq) in
      demoSubmit E W kr key txUpdateService
        (MUpdateService \<lparr>mus_owner = resolveAddr kr key, mus_service_id = dus_service_id rq,
           mus_description = dus_description rq, mus_price = aios price\<rparr>)
        (\<lambda>rc. [(''ok'', JBool True)]) nd)"

definition demoDeactivateService ::
  "env \<Rightarrow> wallet \<Rightarrow> key_file \<Rightarrow> demo_deactivate_service_req \<Rightarrow> node \<Rightarrow> reply \<times> node" where
  "demoDeactivateService E W kr rq nd =
     (let key = orDefault (dds_key rq) ''bob'' in
      demoSubmit E W kr key txDeactivateService
        (MDeactivateService \<lparr>mds_owner = resolveAddr kr key, mds_service_id = dds_service_id rq\<rparr>)
        (\<lambda>rc. [(''ok'', JBool True)]) nd)"

definition demoDeactivateDomain ::
  "env \<Rightarrow> wallet \<Rightarrow> key_file \<Rightarrow> demo_deactivate_domain_req \<Rightarrow> node \<Rightarrow> reply \<times> node" where
  "demoDeactivateDomain E W kr rq nd =
     (let key = orDefault (ddd_key rq) ''bob'' in
      demoSubmit E W kr key txDeactivateDomain
        (MDeactivateDomain \<lparr>mdd_authority = resolveAddr kr key, mdd_domain_id = ddd_domain_id rq\<rparr>)
        (\<lambda>rc. [(''ok'', JBool True)]) nd)"

definition demoResolveChallenge ::
  "env \<Rightarrow> wallet \<Rightarrow> key_file \<Rightarrow> demo_resolve_challenge_req \<Rightarrow> node \<Rightarrow> reply \<times> node" where
  "demoResolveChallenge E W kr rq nd =
     (let key = orDefault (drc_key rq) ''bob'' in
      if drc_decision rq \<noteq> ''dismiss'' \<and> drc_decision rq \<noteq> ''slash'' then
        (writeError 400 (ErrText ''decision must be dismiss or slash''), nd)
      else demoSubmit E W kr key txResolveChallenge
        (MResolveChallenge \<lparr>mrc_authority = resolveAddr kr key, mrc_request_id = drc_request_id rq,
           mrc_decision = drc_decision rq\<rparr>)
        (\<lambda>rc. [(''ok'', JBool True), (''decision'', JStr (drc_decision rq))]) nd)"

subsection \<open>Seeding the demo\<close>

definition seedDomain :: "key_file \<Rightarrow> string \<Rightarrow> tx_msg" where
  "seedDomain kr modelSHA =
     MRegisterDomain \<lparr>mrd_authority = resolveAddr kr ''bob'', mrd_model_sha256 = modelSHA,
       mrd_runtime_id = ''llama.cpp-server'', mrd_hardware_tag = ''cpu-x86_64-tinyllama-q4'',
       mrd_precision = ''q4_k_m'', mrd_tokenizer_id = ''llama.cpp-bpe-v1'',
       mrd_description = ''TinyLlama-1.1B Q4_K_M on CPU via llama.cpp'', mrd_voucher_margin = 0\<rparr>"

definition seedService :: "key_file \<Rightarrow> string \<Rightarrow> string \<Rightarrow> string \<Rightarrow> u64 \<Rightarrow> u64 \<Rightarrow> tx_msg" where
  "seedService kr key name description price domain =
     MRegisterService \<lparr>mrs_owner = resolveAddr kr key, mrs_name = name, mrs_description = description,
       mrs_price = aios price, mrs_domain_id = domain\<rparr>"

text \<open>The arrow of the description is the three bytes of its UTF-8 encoding.\<close>

definition seedDescription :: string where
  "seedDescription = ''EN'' @ [CHR 0xE2, CHR 0x86, CHR 0x92] @ ''FR translation (TinyLlama demo)''"

definition orElse500 ::
  "(chain_error + receipt) \<times> node \<Rightarrow> (chain_error \<Rightarrow> chain_error) \<Rightarrow> (receipt \<Rightarrow> node \<Rightarrow> reply \<times> node)
    \<Rightarrow> reply \<times> node" where
  "orElse500 r w k = (case r of (Inl e, nd) \<Rightarrow> (writeError 500 (w e), nd) | (Inr rc, nd) \<Rightarrow> k rc nd)"

definition demoSeed :: "env \<Rightarrow> wallet \<Rightarrow> key_file \<Rightarrow> string \<Rightarrow> node \<Rightarrow> reply \<times> node" where
  "demoSeed E W kr model_sha nd =
     (let existing = listServices (nd_db nd) in
      if length existing > 0 then (Reply 200 (BodySeeded existing), nd)
      else
        orElse500 (signAndSubmit E W kr ''bob'' txRegisterDomain
            (seedDomain kr (orDefault model_sha ''unverified-tinyllama-q4'')) nd)
          (Wrapped ''register domain'') (\<lambda>dr nd.
        orElse500 (signAndSubmit E W kr ''bob'' txRegisterService
            (seedService kr ''bob'' ''translate-en-fr'' seedDescription 100 (rc_new_id dr)) nd)
          id (\<lambda>svc nd.
        orElse500 (signAndSubmit E W kr ''harness'' txRegisterService
            (seedService kr ''harness'' ''harness-witness''
              ''determinism-harness domain-residency marker (price set high to deter buyers)''
              1000000000 (rc_new_id dr)) nd)
          (Wrapped ''register harness witness'') (\<lambda>h nd.
        orElse500 (signAndSubmit E W kr ''harness-b'' txRegisterService
            (seedService kr ''harness-b'' ''harness-witness-b''
              ''second determinism-harness domain-residency marker'' 1000000000 (rc_new_id dr)) nd)
          (Wrapped ''register harness-b witness'') (\<lambda>hb nd.
        (Reply 200 (BodyMap [(''status'', JStr ''seeded''), (''service_id'', JUint (rc_new_id svc)),
           (''domain_id'', JUint (rc_new_id dr)), (''harness_witness_id'', JUint (rc_new_id h)),
           (''harness_b_witness_id'', JUint (rc_new_id hb))]), nd))))))"

subsection \<open>Routing\<close>

record http_request =
  hr_method :: string
  hr_path :: string
  hr_query :: "(string \<times> string) list"
  hr_body :: string

text \<open>What the handlers decode from request bodies, and the environment variable \<open>MODEL_SHA256\<close>.\<close>

record api_codec =
  ac_dec_tx :: "string \<Rightarrow> signed_tx option"
  ac_dec_register_domain :: "string \<Rightarrow> demo_register_domain_req option"
  ac_dec_register :: "string \<Rightarrow> demo_register_req option"
  ac_dec_challenge :: "string \<Rightarrow> demo_challenge_req option"
  ac_dec_request :: "string \<Rightarrow> demo_request_req option"
  ac_dec_update_service :: "string \<Rightarrow> demo_update_service_req option"
  ac_dec_deactivate_service :: "string \<Rightarrow> demo_deactivate_service_req option"
  ac_dec_deactivate_domain :: "string \<Rightarrow> demo_deactivate_domain_req option"
  ac_dec_resolve_challenge :: "string \<Rightarrow> demo_resolve_challenge_req option"
  ac_model_sha :: string

definition queryGet :: "http_request \<Rightarrow> string \<Rightarrow> string" where
  "queryGet r k = (case map_of (hr_query r) k of None \<Rightarrow> '''' | Some v \<Rightarrow> v)"

definition withBody :: "(string \<Rightarrow> 'a option) \<Rightarrow> string \<Rightarrow> ('a \<Rightarrow> node \<Rightarrow> reply \<times> node) \<Rightarrow> node \<Rightarrow> reply \<times> node" where
  "withBody dec body f nd =
     (case dec body of None \<Rightarrow> (writeError 400 (ErrText ''json''), nd) | Some rq \<Rightarrow> f rq nd)"

text \<open>
  \<open>GET /events\<close> subscribes to the bus when it is called and cancels the subscription when its loop, the
  \<open>eventsH\<close> of the theory \<open>EventStream\<close>, returns. In between the reply is \<open>BodyStream\<close>.
\<close>

definition openEvents :: "node \<Rightarrow> reply \<times> node" where
  "openEvents nd = (Reply 200 BodyStream, nd\<lparr>nd_bus := fst (subscribe (nd_bus nd))\<rparr>)"

definition closeEvents :: "nat \<Rightarrow> node \<Rightarrow> node" where
  "closeEvents i nd = nd\<lparr>nd_bus := cancel i (nd_bus nd)\<rparr>"

definition routeGet :: "http_request \<Rightarrow> string \<Rightarrow> node \<Rightarrow> (reply \<times> node) option" where
  "routeGet r now nd =
     (let path = hr_path r; segs = splitOn (CHR ''/'') path; s = nd_db nd;
          reads = (\<lambda>rep. Some (rep, nd)) in
      if path = ''/health'' then reads healthH
      else if path = ''/status'' then reads (statusH s now)
      else if path = ''/params'' then reads (paramsH s)
      else if path = ''/services'' then reads (listServicesH s)
      else if path = ''/requests'' then reads (listRequestsH s (queryGet r ''status'') (queryGet r ''service_id''))
      else if path = ''/domains'' then reads (listDomainsH s)
      else if path = ''/authority'' then reads (getAuthorityH s)
      else if path = ''/events'' then Some (openEvents nd)
      else (case segs of
        [root, kind, seg] \<Rightarrow>
          if root \<noteq> '''' \<or> seg = '''' then None
          else if kind = ''services'' then reads (getServiceH s seg)
          else if kind = ''requests'' then reads (getRequestH s seg)
          else if kind = ''accounts'' then reads (getAccountH s seg)
          else if kind = ''domains'' then reads (getDomainH s seg)
          else None
      | _ \<Rightarrow> None))"

definition routePost ::
  "env \<Rightarrow> wallet \<Rightarrow> api_codec \<Rightarrow> key_file \<Rightarrow> http_request \<Rightarrow> node \<Rightarrow> (reply \<times> node) option" where
  "routePost E W A kr r nd =
     (let path = hr_path r; body = hr_body r in
      if path = ''/tx'' then Some (submitTxH E (ac_dec_tx A) body nd)
      else if path = ''/demo/seed'' then Some (demoSeed E W kr (ac_model_sha A) nd)
      else if path = ''/demo/register-service'' then
        Some (withBody (ac_dec_register A) body (demoRegisterService E W kr) nd)
      else if path = ''/demo/request-inference'' then
        Some (withBody (ac_dec_request A) body (demoRequestInference E W kr) nd)
      else if path = ''/demo/register-domain'' then
        Some (withBody (ac_dec_register_domain A) body (demoRegisterDomain E W kr) nd)
      else if path = ''/demo/challenge'' then
        Some (withBody (ac_dec_challenge A) body (demoChallenge E W kr) nd)
      else if path = ''/demo/update-service'' then
        Some (withBody (ac_dec_update_service A) body (demoUpdateService E W kr) nd)
      else if path = ''/demo/deactivate-service'' then
        Some (withBody (ac_dec_deactivate_service A) body (demoDeactivateService E W kr) nd)
      else if path = ''/demo/deactivate-domain'' then
        Some (withBody (ac_dec_deactivate_domain A) body (demoDeactivateDomain E W kr) nd)
      else if path = ''/demo/resolve-challenge'' then
        Some (withBody (ac_dec_resolve_challenge A) body (demoResolveChallenge E W kr) nd)
      else None)"

text \<open>
  The server: \<open>withCORS\<close> answers every \<open>OPTIONS\<close> itself, \<open>withLogging\<close> only logs, and the router
  answers 405 when the path exists for another method and 404 otherwise. Paths are clean ones without escapes, and the clock is the argument \<open>now\<close>.
\<close>

definition getMethod :: "string \<Rightarrow> bool" where
  "getMethod m \<longleftrightarrow> m = ''GET'' \<or> m = ''HEAD''"

definition notRouted :: "bool \<Rightarrow> reply" where
  "notRouted known = (if known then Reply 405 (BodyText ''Method Not Allowed'') else Reply 404 (BodyText ''404 page not found''))"

definition serve ::
  "env \<Rightarrow> wallet \<Rightarrow> api_codec \<Rightarrow> key_file \<Rightarrow> string \<Rightarrow> http_request \<Rightarrow> node \<Rightarrow> reply \<times> node" where
  "serve E W A kr now r nd =
     (if hr_method r = ''OPTIONS'' then (Reply 204 BodyNone, nd)
      else case (routeGet r now nd, routePost E W A kr r nd) of
        (Some res, _) \<Rightarrow> if getMethod (hr_method r) then res else (notRouted True, nd)
      | (None, Some res) \<Rightarrow> if hr_method r = ''POST'' then res else (notRouted True, nd)
      | (None, None) \<Rightarrow> (notRouted False, nd))"

end
