(* ===== verification/Net.thy ===== *)
theory Net
  imports Keyring GoText
begin

text \<open>
  The network as the clients of the chain meet it. A call returns a transport error, or a status code
  with a body; the rest of the world, of which the callee is a part, may have changed by then, so it
  is threaded through every call as a value of an arbitrary type. The addresses are the paths after
  the base URL. Marshalling and the HTTP protocol itself are outside the model.
\<close>

type_synonym http_answer = "string + nat \<times> string"

record 'w net =
  net_get :: "string \<Rightarrow> 'w \<Rightarrow> http_answer \<times> 'w"
  net_post :: "string \<Rightarrow> string \<Rightarrow> 'w \<Rightarrow> http_answer \<times> 'w"

text \<open>
  A client operation that may fail: the error or the value, with the world after it. \<open>wbind\<close> is the
  early return on an error, and \<open>wlift\<close> a step that does not touch the world.
\<close>

type_synonym ('a, 'w) action = "'w \<Rightarrow> (chain_error + 'a) \<times> 'w"

definition wbind :: "('a, 'w) action \<Rightarrow> ('a \<Rightarrow> ('b, 'w) action) \<Rightarrow> ('b, 'w) action" where
  "wbind m f w = (case m w of (Inl e, w') \<Rightarrow> (Inl e, w') | (Inr x, w') \<Rightarrow> f x w')"

definition wlift :: "chain_error + 'a \<Rightarrow> ('a, 'w) action" where
  "wlift r w = (r, w)"

definition wrapErr :: "string \<Rightarrow> ('a, 'w) action \<Rightarrow> ('a, 'w) action" where
  "wrapErr m act w = (case act w of (Inl e, w') \<Rightarrow> (Inl (Wrapped m e), w') | (Inr x, w') \<Rightarrow> (Inr x, w'))"

definition jsonOf :: "'a option \<Rightarrow> ('a, 'w) action" where
  "jsonOf r = wlift (case r of None \<Rightarrow> Inl (ErrText ''json'') | Some x \<Rightarrow> Inr x)"

text \<open>\<open>GET\<close> a path, insist on status 200 and decode the body.\<close>

definition getDecode :: "'w net \<Rightarrow> (string \<Rightarrow> 'a option) \<Rightarrow> string \<Rightarrow> ('a, 'w) action" where
  "getDecode N dec path w =
     (case net_get N path w of
        (Inl e, w') \<Rightarrow> (Inl (ErrText e), w')
      | (Inr (status, body), w') \<Rightarrow>
          if status \<noteq> 200 then (Inl (ErrText ''status''), w') else jsonOf (dec body) w')"

text \<open>\<open>POST\<close> a body, insist on status 200 and hand on the body of the reply.\<close>

definition postBody :: "'w net \<Rightarrow> string \<Rightarrow> string \<Rightarrow> (string, 'w) action" where
  "postBody N path body w =
     (case net_post N path body w of
        (Inl e, w') \<Rightarrow> (Inl (ErrText e), w')
      | (Inr (status, rb), w') \<Rightarrow> if status \<noteq> 200 then (Inl (ErrText ''POST''), w') else (Inr rb, w'))"

text \<open>
  What both the inference node and the harness ask of their model servers. The two floating-point
  settings are the constants 0 and 1.
\<close>

record completion_request =
  cq_prompt :: string
  cq_n_predict :: int
  cq_temperature :: int
  cq_top_k :: int
  cq_top_p :: int
  cq_stream :: bool

subsection \<open>Submitting as a client\<close>

text \<open>
  The loaded key of a client. The harness keeps the public key as the text of the key file, the
  inference node re-encodes its bytes.
\<close>

record signer =
  sg_name :: string
  sg_addr :: string
  sg_pub_hex :: string
  sg_priv :: bytes

record client_codec =
  cc_marshal_tx :: "signed_tx \<Rightarrow> string option"
  cc_dec_nonce :: "string \<Rightarrow> u64 option"

text \<open>
  Sign a raw envelope: the signature is over the marshalled envelope without its signature.
  \<open>json.Marshal\<close> may refuse the payload; signing panics on a key of the wrong size.
\<close>

definition signRaw :: "client_codec \<Rightarrow> wallet \<Rightarrow> signer \<Rightarrow> string \<Rightarrow> u64 \<Rightarrow> string \<Rightarrow> chain_error + signed_tx" where
  "signRaw K W sg ty nonce payload =
     (let tx = \<lparr>tx_type = ty, tx_nonce = nonce, tx_pub_key_hex = sg_pub_hex sg, tx_signature_hex = '''',
                tx_payload = payload\<rparr> in
      case cc_marshal_tx K tx of
        None \<Rightarrow> Inl (ErrText ''json'')
      | Some canonical \<Rightarrow>
          bind_r (signWith W (sg_priv sg) (string_bytes canonical)) (\<lambda>sig.
          Inr (tx\<lparr>tx_signature_hex := hexEncode sig\<rparr>)))"

lemma wbind_Inr: "wbind m f w = (Inr y, w2) \<longleftrightarrow> (\<exists>x w1. m w = (Inr x, w1) \<and> f x w1 = (Inr y, w2))"
  by (auto simp: wbind_def split: prod.splits sum.splits)

lemma wlift_Inr: "wlift r w = (Inr y, w') \<longleftrightarrow> r = Inr y \<and> w' = w"
  by (auto simp: wlift_def)

lemma wrapErr_Inr: "wrapErr m act w = (Inr y, w') \<longleftrightarrow> act w = (Inr y, w')"
  by (auto simp: wrapErr_def split: prod.splits sum.splits)

lemma getDecode_ok:
  "net_get N path w = (Inr (200, body), w') \<Longrightarrow> dec body = Some x \<Longrightarrow> getDecode N dec path w = (Inr x, w')"
  by (simp add: getDecode_def jsonOf_def wlift_def)

end
