(* ===== verification/ChainNet.thy ===== *)
theory ChainNet
  imports Gateway Net System
begin

text \<open>
  The running chain as its clients reach it: \<open>chainNet\<close> is a network whose world is the chain process
  itself, answered by the HTTP server of the theory \<open>Gateway\<close>, with \<open>json\<close> as the rendering of a body.
  The lemmas say what a client gets back for the paths it asks, and when a transaction that it signs
  is accepted.
\<close>

definition render :: "(api_body \<Rightarrow> string) \<Rightarrow> reply \<Rightarrow> http_answer" where
  "render json r = (case r of Reply status body \<Rightarrow> Inr (status, json body) | Aborted \<Rightarrow> Inl ''EOF'')"

definition httpCall :: "string \<Rightarrow> string \<Rightarrow> string \<Rightarrow> http_request" where
  "httpCall m path body = \<lparr>hr_method = m, hr_path = path, hr_query = [], hr_body = body\<rparr>"

definition chainNet ::
  "env \<Rightarrow> wallet \<Rightarrow> api_codec \<Rightarrow> key_file \<Rightarrow> string \<Rightarrow> (api_body \<Rightarrow> string) \<Rightarrow> node net" where
  "chainNet E W A kr now json =
     \<lparr>net_get = (\<lambda>path nd. apfst (render json) (serve E W A kr now (httpCall ''GET'' path '''') nd)),
      net_post = (\<lambda>path body nd. apfst (render json) (serve E W A kr now (httpCall ''POST'' path body) nd))\<rparr>"

subsection \<open>Paths\<close>

lemma digitChar_slash: "d < 10 \<Longrightarrow> digitChar d \<noteq> CHR ''/''"
proof -
  have "\<forall>d \<in> set [0..<10]. digitChar d \<noteq> CHR ''/''"
    by code_simp
  then show "d < 10 \<Longrightarrow> digitChar d \<noteq> CHR ''/''" by simp
qed

lemma formatUint_slash: "CHR ''/'' \<notin> set (formatUint n)"
  using formatNat_digits digitChar_slash unfolding formatUint_def by metis

lemma formatUint_ne: "formatUint n \<noteq> []"
  by (simp add: formatUint_def formatNat_ne)

lemma splitOn_path:
  assumes "CHR ''/'' \<notin> set kind" and "CHR ''/'' \<notin> set seg"
  shows "splitOn (CHR ''/'') (kind @ CHR ''/'' # seg) = [kind, seg]"
  using splitOn_append [OF assms(1)] splitOn_none [OF assms(2)] by simp

lemma address_slash:
  assumes "isValidAddress a"
  shows "CHR ''/'' \<notin> set a"
proof -
  have dec: "hexDecode cs = Some bs \<Longrightarrow> c \<in> set cs \<Longrightarrow> fromHexChar c \<noteq> None" for cs bs c
    by (induction cs arbitrary: bs rule: hexDecode.induct) (auto split: option.splits)
  have "a = take 5 a @ drop 5 a" by simp
  moreover have "take 5 a = ''aios1''" and "hexDecode (drop 5 a) \<noteq> None"
    using assms by (auto simp: isValidAddress_def Let_def split: if_splits)
  moreover have "fromHexChar (CHR ''/'') = None" by code_simp
  ultimately have "CHR ''/'' \<notin> set (drop 5 a)" and "CHR ''/'' \<notin> set (take 5 a)"
    using dec by (fastforce, simp)
  then show ?thesis
    by (metis \<open>a = take 5 a @ drop 5 a\<close> Un_iff set_append)
qed

text \<open>A path of the form \<open>/kind/segment\<close> is none of the fixed paths.\<close>

lemma routeGet_segment:
  assumes "CHR ''/'' \<notin> set kind" and "CHR ''/'' \<notin> set seg" and "seg \<noteq> []" and "kind \<noteq> []"
  shows "routeGet (httpCall m (CHR ''/'' # kind @ CHR ''/'' # seg) b) now nd =
    (if kind = ''services'' then Some (getServiceH (nd_db nd) seg, nd)
     else if kind = ''requests'' then Some (getRequestH (nd_db nd) seg, nd)
     else if kind = ''accounts'' then Some (getAccountH (nd_db nd) seg, nd)
     else if kind = ''domains'' then Some (getDomainH (nd_db nd) seg, nd)
     else None)"
proof -
  have one: "kind @ CHR ''/'' # seg \<noteq> p" if "CHR ''/'' \<notin> set p" for p
    using that by (metis in_set_conv_decomp)
  show ?thesis
    unfolding routeGet_def Let_def httpCall_def
    by (simp add: splitOn_path [OF assms(1,2)] one assms(3))
qed

lemma net_get_segment:
  assumes "CHR ''/'' \<notin> set kind" and "CHR ''/'' \<notin> set seg" and "seg \<noteq> []" and "kind \<noteq> []"
    and "routeGet (httpCall ''GET'' (CHR ''/'' # kind @ CHR ''/'' # seg) '''') now nd = Some (rep, nd)"
  shows "net_get (chainNet E W A kr now json) (CHR ''/'' # kind @ CHR ''/'' # seg) nd = (render json rep, nd)"
  using assms(5) by (simp add: chainNet_def serve_def getMethod_def) (simp add: httpCall_def)

lemma get_path:
  "net_get (chainNet E W A kr now json) (''/requests/'' @ formatUint k) nd
     = (render json (getRequestH (nd_db nd) (formatUint k)), nd)"
  "net_get (chainNet E W A kr now json) (''/services/'' @ formatUint k) nd
     = (render json (getServiceH (nd_db nd) (formatUint k)), nd)"
  "net_get (chainNet E W A kr now json) (''/domains/'' @ formatUint k) nd
     = (render json (getDomainH (nd_db nd) (formatUint k)), nd)"
  using net_get_segment [of "''requests''" "formatUint k"] net_get_segment [of "''services''" "formatUint k"]
    net_get_segment [of "''domains''" "formatUint k"] formatUint_slash formatUint_ne
  by (simp_all add: routeGet_segment [of "''requests''", simplified] routeGet_segment [of "''services''", simplified]
      routeGet_segment [of "''domains''", simplified])

definition accountBody :: "chain_state \<Rightarrow> string \<Rightarrow> api_body" where
  "accountBody s a =
     BodyMap [(''address'', JStr (acc_address (loadAccount s a))), (''balance'', JUint (acc_balance (loadAccount s a))),
       (''nonce'', JUint (nextNonce s a))]"

lemma get_account:
  assumes "isValidAddress a"
  shows "net_get (chainNet E W A kr now json) (''/accounts/'' @ a) nd = (Inr (200, json (accountBody (nd_db nd) a)), nd)"
proof -
  have "a \<noteq> []" using isValidAddress_length [OF assms] by auto
  then show ?thesis
    using net_get_segment [of "''accounts''" a] address_slash [OF assms] assms
    by (simp add: routeGet_segment [of "''accounts''", simplified] getAccountH_def Let_def render_def
        accountBody_def accountNonce_def)
qed

lemma get_request:
  "getRequest (nd_db nd) k = Inr r \<Longrightarrow>
   net_get (chainNet E W A kr now json) (''/requests/'' @ formatUint k) nd = (Inr (200, json (BodyRequest r)), nd)"
  unfolding get_path by (simp add: getRequestH_def getById_def render_def)

lemma get_service:
  "getService (nd_db nd) k = Inr v \<Longrightarrow>
   net_get (chainNet E W A kr now json) (''/services/'' @ formatUint k) nd = (Inr (200, json (BodyService v)), nd)"
  unfolding get_path by (simp add: getServiceH_def getById_def render_def)

lemma get_domain:
  "getDomain (nd_db nd) k = Inr d \<Longrightarrow>
   net_get (chainNet E W A kr now json) (''/domains/'' @ formatUint k) nd = (Inr (200, json (BodyDomain d)), nd)"
  unfolding get_path by (simp add: getDomainH_def getById_def render_def)

lemma post_tx:
  "net_post (chainNet E W A kr now json) ''/tx'' body nd = apfst (render json) (submitTxH E (ac_dec_tx A) body nd)"
  by (simp add: chainNet_def serve_def httpCall_def routeGet_def routePost_def Let_def)

subsection \<open>Transactions that the chain accepts\<close>

text \<open>
  An envelope travels: the chain's canonical bytes are those the client signed, because both modules
  declare the same struct, and the body the client posts decodes to the envelope.
\<close>

definition travels :: "env \<Rightarrow> api_codec \<Rightarrow> client_codec \<Rightarrow> signed_tx \<Rightarrow> bool" where
  "travels E A K tx \<longleftrightarrow>
     (\<exists>body. cc_marshal_tx K tx = Some body \<and> ac_dec_tx A body = Some tx)
     \<and> txCanonicalBytes (encode_tx E) tx = map_option string_bytes (cc_marshal_tx K (tx\<lparr>tx_signature_hex := ''''\<rparr>))"

text \<open>A client key is usable: 64 private bytes, whose public half gives the address.\<close>

definition signer_ok :: "env \<Rightarrow> signer \<Rightarrow> bool" where
  "signer_ok E sg \<longleftrightarrow>
     length (sg_priv sg) = 64 \<and> hexDecode (sg_pub_hex sg) = Some (drop 32 (sg_priv sg))
     \<and> sg_addr sg = addressFromPubKey (sha256 E) (drop 32 (sg_priv sg))"

lemma signRaw_envelope:
  assumes "ed25519_ok E W (sg_priv sg)" and "signer_ok E sg" and "ty \<in> set known_tx_types" and "payload \<noteq> []"
    and sign: "signRaw K W sg ty nonce payload = Inr tx" and "travels E A K tx"
  shows "checkEnvelope E tx = Inr (sg_addr sg)" and "tx_type tx = ty" and "tx_payload tx = payload"
    and "tx_nonce tx = nonce"
proof -
  let ?key = "\<lparr>ke_name = '''', ke_address = '''', ke_pub_key_hex = sg_pub_hex sg, ke_priv_key_hex = ''''\<rparr>"
  let ?raw = "\<lparr>tx_type = ty, tx_nonce = nonce, tx_pub_key_hex = sg_pub_hex sg, tx_signature_hex = '''',
      tx_payload = payload\<rparr>"
  obtain canonical sig where c: "cc_marshal_tx K ?raw = Some canonical"
    and s: "signWith W (sg_priv sg) (string_bytes canonical) = Inr sig"
    and tx: "tx = ?raw\<lparr>tx_signature_hex := hexEncode sig\<rparr>"
    using sign by (auto simp: signRaw_def Let_def split: option.splits)
  have "txCanonicalBytes (encode_tx E) ?raw = Some (string_bytes canonical)"
    using assms(6) c by (simp add: travels_def tx txCanonicalBytes_def)
  then have "buildTx E W ?key (sg_priv sg) ty payload nonce = Inr tx"
    using s by (simp add: buildTx_def Let_def tx)
  from checkEnvelope_buildTx [OF assms(1,3,4) _ _ this] assms(2)
  show "checkEnvelope E tx = Inr (sg_addr sg)" "tx_type tx = ty" "tx_payload tx = payload" "tx_nonce tx = nonce"
    by (simp_all add: signer_ok_def)
qed

text \<open>The envelope checks and the nonce reduce a submission to its handler.\<close>

lemma submitTx_handler:
  assumes "put_accepts E" and "checkEnvelope E tx = Inr signer" and "isValidAddress signer"
    and "tx_nonce tx = nextNonce (nd_db nd) signer"
    and "dispatch E (nd_db nd) signer tx (heightLocked (nd_db nd)) = Inr (s', rc)"
  shows "\<exists>nd'. submitTx E tx nd = (Inr rc, nd') \<and> getRequest (nd_db nd') = getRequest s'
    \<and> getService (nd_db nd') = getService s' \<and> bal (nd_db nd') = bal s'"
proof -
  have "put_err E BktNonces (string_bytes signer) = None"
    by (rule put_accepts_None [OF assms(1)]) (simp_all add: isValidAddress_length [OF assms(3)])
  then have "runTx E signer tx (nd_db nd) =
      Inr (s'\<lparr>cs_nonces := bput signer (nextNonce s' signer + 1) (cs_nonces s')\<rparr>, rc)"
    using assms(4,5) by (simp add: runTx_def incNonce_def bucket_put_def)
  then show ?thesis
    by (simp add: submitTx_runTx [OF assms(2)])
qed

lemma lock_ok:
  assumes "put_accepts E" and "accounts_ok s" and "isValidAddress a" and "unat n \<le> bal s a"
  shows "\<exists>s1. move w E s a moduleEscrowAddr n = Inr s1"
proof -
  have "\<exists>s1 s'. debit E s a n = Inr s1 \<and> credit E s1 moduleEscrowAddr n = Inr s'"
    using assms by (intro lg.move_ok [OF assms(2)]) (auto simp: addr_ok_module addr_okI)
  then show ?thesis by (auto simp: move_Inr_iff)
qed

text \<open>A challenge that meets every condition is accepted.\<close>

lemma challenge_ok:
  assumes "put_accepts E" and inv: "chain_inv E {} s" and "isValidAddress signer"
    and "dec_challenge E p = Some msg" and "mc_challenger msg = signer"
    and r: "getRequest s (mc_request_id msg) = Inr r" and st: "req_status r = StatusSubmitted"
    and "req_result r = Some res" and "paramsLocked s = Inr ps"
    and "h <=s req_submitted_at r + p_challenge_window ps"
    and "att_input_hash (mc_attestation msg) = req_input_hash r"
    and "att_output_hash (mc_attestation msg) \<noteq> res_output_hash res"
    and "getService s (req_service_id r) = Inr svc"
    and "matchDomain s ''load domain'' ''challenger tuple != service domain''
               ''challenger tokenizer != domain tokenizer'' (svc_domain_id svc) (mc_attestation msg) = Inr ()"
    and "unat (amount (p_challenger_bond ps)) \<le> bal s signer"
  shows "\<exists>s' ev. applyChallenge E s signer p h = Inr (s', ev)"
proof -
  obtain s1 where "move (Wrapped ''locking challenger bond'') E s signer moduleEscrowAddr (amount (p_challenger_bond ps)) = Inr s1"
    using lock_ok [OF assms(1) inv_accounts [OF inv] assms(3,15)] by blast
  moreover have "req_challenges r = []"
    using wf_request [OF inv_wf [OF inv] r] st by (simp add: req_ok_def req_shape_def)
  moreover have "put_err E BktRequests (uint64Key (req_id r)) = None"
    by (rule put_accepts_None [OF assms(1)]) (simp_all add: length_uint64Key)
  ultimately show ?thesis
    using assms(4-14)
    by (simp add: applyChallenge_def decode_def check_def lockBond_move appendSlice_def putRequest_def
        bucket_put_def signed.not_less)
qed

end
