(* ===== verification/EventStream.thy ===== *)
theory EventStream
  imports Types GoText
begin

text \<open>
  Both ends of the event stream: the server side of \<open>GET /events\<close> (\<open>events\<close> in
  \<open>chain/internal/api/api.go\<close>), which writes server-sent events with an optional filter and a
  heartbeat, and the reading loop that the three clients share (\<open>SubscribeEvents\<close> of the inference
  node, \<open>subscribe\<close> of the indexer and of the harness) with its reconnection. \<open>enc\<close> is
  \<open>json.Marshal\<close> of an event.
\<close>

subsection \<open>The server\<close>

text \<open>What the \<open>select\<close> of the handler can meet next.\<close>

datatype stream_input = ClientGone | Heartbeat | Incoming event | ChannelClosed

definition wantedTypes :: "string \<Rightarrow> string list" where
  "wantedTypes types =
     (let filt = trimSpace types in
      if filt = '''' then [] else map trimSpace (splitOn (CHR '','') filt))"

definition newline :: char where "newline = CHR 0x0A"

definition pingFrame :: string where
  "pingFrame = '': ping'' @ [newline, newline]"

definition eventFrame :: "event \<Rightarrow> string \<Rightarrow> string" where
  "eventFrame ev bz = ''event: '' @ ev_type ev @ [newline] @ ''data: '' @ bz @ [newline, newline]"

definition wants :: "string list \<Rightarrow> event \<Rightarrow> bool" where
  "wants wanted ev \<longleftrightarrow> \<not> (length wanted > 0 \<and> ev_type ev \<notin> set wanted)"

fun eventsLoop :: "(event \<Rightarrow> string option) \<Rightarrow> string list \<Rightarrow> stream_input list \<Rightarrow> string" where
  "eventsLoop enc wanted [] = ''''"
| "eventsLoop enc wanted (ClientGone # ins) = ''''"
| "eventsLoop enc wanted (ChannelClosed # ins) = ''''"
| "eventsLoop enc wanted (Heartbeat # ins) = pingFrame @ eventsLoop enc wanted ins"
| "eventsLoop enc wanted (Incoming ev # ins) =
     (if \<not> wants wanted ev then eventsLoop enc wanted ins
      else case enc ev of
        None \<Rightarrow> eventsLoop enc wanted ins
      | Some bz \<Rightarrow> eventFrame ev bz @ eventsLoop enc wanted ins)"

definition eventsH :: "(event \<Rightarrow> string option) \<Rightarrow> string \<Rightarrow> stream_input list \<Rightarrow> string" where
  "eventsH enc types ins = eventsLoop enc (wantedTypes types) ins"

subsection \<open>The reading loop\<close>

definition lineData :: "string \<Rightarrow> string option" where
  "lineData raw =
     (let line = trimRight raw [CHR 0x0D, newline] in
      if \<not> hasPrefix line ''data:'' then None
      else let data = trimSpace (trimPrefix line ''data:'') in
        if data = '''' then None else Some data)"

text \<open>
  The loop over the lines still to come. \<open>cancelled i\<close> says whether the context is found done
  before line \<open>i\<close> is read; the loop then returns nil, and it returns an error when the stream ends.
\<close>

function sseLoop ::
  "(nat \<Rightarrow> bool) \<Rightarrow> (string \<Rightarrow> 's \<Rightarrow> 's) \<Rightarrow> nat \<Rightarrow> string \<Rightarrow> 's \<Rightarrow> (string + unit) \<times> 's" where
  "sseLoop cancelled on_data i stream st =
     (if cancelled i then (Inr (), st)
      else case readString newline stream of
        None \<Rightarrow> (Inl ''read stream'', st)
      | Some (line, rest) \<Rightarrow>
          sseLoop cancelled on_data (Suc i) rest
            (case lineData line of None \<Rightarrow> st | Some d \<Rightarrow> on_data d st))"
  by auto

termination
  by (relation "measure (\<lambda>(c, f, i, stream, st). length stream)") (auto dest: readString_shorter)

declare sseLoop.simps [simp del]

text \<open>
  \<open>SubscribeEvents\<close>: the address it asks, and the loop with the decoder \<open>dec\<close> of an event; a text that
  does not decode is skipped, any other event is handed on.
\<close>

definition subscribePath :: "string list \<Rightarrow> string" where
  "subscribePath types = ''/events'' @ (if length types > 0 then ''?types='' @ joinOn (CHR '','') types else '''')"

definition subscribeEvents ::
  "(string \<Rightarrow> 'e option) \<Rightarrow> (nat \<Rightarrow> bool) \<Rightarrow> ('e \<Rightarrow> 's \<Rightarrow> 's) \<Rightarrow> string \<Rightarrow> 's \<Rightarrow> (string + unit) \<times> 's" where
  "subscribeEvents dec cancelled handler stream st =
     sseLoop cancelled (\<lambda>d st. case dec d of None \<Rightarrow> st | Some ev \<Rightarrow> handler ev st) 0 stream st"

subsection \<open>Reconnection\<close>

text \<open>
  How one attempt ends: the context is done or the subscription returned nil, it failed and the
  context is done while waiting, or it failed and the wait ran out. The result is the list of the
  waits, in nanoseconds as a \<open>time.Duration\<close>.
\<close>

datatype attempt = Ended | FailedThenDone | Failed

definition second :: i64 where "second = 1000000000"
definition maxBackoff :: i64 where "maxBackoff = 30 * second"

fun reconnectLoop :: "i64 \<Rightarrow> attempt list \<Rightarrow> i64 list" where
  "reconnectLoop backoff [] = []"
| "reconnectLoop backoff (Ended # as) = []"
| "reconnectLoop backoff (FailedThenDone # as) = [backoff]"
| "reconnectLoop backoff (Failed # as) =
     backoff # reconnectLoop (if backoff <s maxBackoff then backoff * 2 else backoff) as"

definition reconnect :: "attempt list \<Rightarrow> i64 list" where
  "reconnect as = reconnectLoop (1 * second) as"

subsection \<open>What a client sees of what the server writes\<close>

text \<open>
  The texts \<open>json.Marshal\<close> gives for a struct: one line that starts and ends with a byte that is no
  part of a space (an opening and a closing brace).
\<close>

definition one_line :: "string \<Rightarrow> bool" where
  "one_line s \<longleftrightarrow> newline \<notin> set s \<and> solid s"

definition enc_ok :: "(event \<Rightarrow> string option) \<Rightarrow> bool" where
  "enc_ok enc \<longleftrightarrow> (\<forall>ev j. enc ev = Some j \<longrightarrow> one_line j)"

fun delivered :: "stream_input list \<Rightarrow> event list" where
  "delivered [] = []"
| "delivered (ClientGone # ins) = []"
| "delivered (ChannelClosed # ins) = []"
| "delivered (Heartbeat # ins) = delivered ins"
| "delivered (Incoming ev # ins) = ev # delivered ins"

lemma sseLoop_line:
  assumes "\<not> cancelled i" and "newline \<notin> set l"
  shows "sseLoop cancelled f i (l @ newline # rest) st =
    sseLoop cancelled f (Suc i) rest (case lineData (l @ [newline]) of None \<Rightarrow> st | Some d \<Rightarrow> f d st)"
  using assms by (subst sseLoop.simps) (simp add: readString_line)

lemma sseLoop_end: "\<not> cancelled i \<Longrightarrow> sseLoop cancelled f i [] st = (Inl ''read stream'', st)"
  by (subst sseLoop.simps) simp

lemma lineData_other:
  assumes "\<not> hasPrefix l ''data:''" and "l = [] \<or> last l \<noteq> CHR 0x0D \<and> last l \<noteq> newline"
  shows "lineData (l @ [newline]) = None"
proof -
  have "trimRight (l @ [newline]) [CHR 0x0D, newline] = l"
    using assms(2) trimRight_solid [of l "[CHR 0x0D, newline]"]
    by (cases "l = []") (auto simp: trimRight_drop, auto simp: trimRight_def newline_def)
  then show ?thesis
    using assms(1) by (simp add: lineData_def)
qed

lemma solid_last: "solid s \<Longrightarrow> last s \<noteq> CHR 0x0D \<and> last s \<noteq> newline"
  by (simp add: solid_def spaceRunes_def newline_def)

lemma lineData_data:
  assumes "one_line j"
  shows "lineData (''data: '' @ j @ [newline]) = Some j"
proof -
  have j: "solid j" "j \<noteq> []" using assms by (auto simp: one_line_def solid_def)
  have "trimRight ((''data: '' @ j) @ [newline]) [CHR 0x0D, newline] = ''data: '' @ j"
    using solid_last [OF j(1)] j(2) trimRight_solid [of "''data: '' @ j" "[CHR 0x0D, newline]"]
      trimRight_drop [of newline "[CHR 0x0D, newline]" "''data: '' @ j"]
    by simp
  moreover have "trimPrefix (''data: '' @ j) ''data:'' = CHR 0x20 # j"
    by (simp add: trimPrefix_def hasPrefix_def)
  ultimately show ?thesis
    using j by (simp add: lineData_def hasPrefix_def trimSpace_space trimSpace_solid)
qed

lemma sseLoop_ping:
  assumes "\<And>n. \<not> cancelled n"
  shows "sseLoop cancelled f i (pingFrame @ rest) st = sseLoop cancelled f (i + 2) rest st"
proof -
  have "lineData ('': ping'' @ [newline]) = None" "lineData ([] @ [newline]) = None"
    by (rule lineData_other; simp add: newline_def hasPrefix_def)+
  then show ?thesis
    using sseLoop_line [of cancelled i "'': ping''" f "newline # rest" st, OF assms]
      sseLoop_line [of cancelled "Suc i" "[]" f rest st, OF assms]
    by (simp add: pingFrame_def newline_def)
qed

lemma sseLoop_event:
  assumes "\<And>n. \<not> cancelled n" and "newline \<notin> set (ev_type ev)" and "CHR 0x0D \<notin> set (ev_type ev)" and "one_line j"
  shows "sseLoop cancelled f i (eventFrame ev j @ rest) st = sseLoop cancelled f (i + 3) rest (f j st)"
proof -
  have other: "lineData ((''event: '' @ ev_type ev) @ [newline]) = None" "lineData ([] @ [newline]) = None"
  proof -
    have "last (''event: '' @ ev_type ev) \<in> insert (CHR 0x20) (set (ev_type ev))"
      by (cases "ev_type ev = []") auto
    then have "last (''event: '' @ ev_type ev) \<noteq> CHR 0x0D \<and> last (''event: '' @ ev_type ev) \<noteq> newline"
      using assms(2,3) by (auto simp: newline_def)
    then show "lineData ((''event: '' @ ev_type ev) @ [newline]) = None"
      by (intro lineData_other) (auto simp: hasPrefix_def)
    show "lineData ([] @ [newline]) = None"
      by (rule lineData_other) (auto simp: hasPrefix_def)
  qed
  have "newline \<notin> set (''event: '' @ ev_type ev)" and "newline \<notin> set (''data: '' @ j)"
    using assms(2,4) by (auto simp: newline_def one_line_def)
  then show ?thesis
    using other lineData_data [OF assms(4)]
      sseLoop_line [of cancelled i "''event: '' @ ev_type ev" f "''data: '' @ j @ newline # newline # rest" st, OF assms(1)]
      sseLoop_line [of cancelled "Suc i" "''data: '' @ j" f "newline # rest" st, OF assms(1)]
      sseLoop_line [of cancelled "Suc (Suc i)" "[]" f rest "f j st", OF assms(1)]
    by (simp add: eventFrame_def numeral_3_eq_3)
qed

text \<open>
  An uninterrupted reader hands on exactly the texts of the wanted events, in order, and then reports
  the end of the stream.
\<close>

lemma sseLoop_eventsLoop:
  assumes "\<And>n. \<not> cancelled n" and "enc_ok enc"
    and "\<And>ev. Incoming ev \<in> set ins \<Longrightarrow> newline \<notin> set (ev_type ev) \<and> CHR 0x0D \<notin> set (ev_type ev)"
  shows "sseLoop cancelled f i (eventsLoop enc wanted ins) st =
    (Inl ''read stream'', fold f (List.map_filter enc (filter (wants wanted) (delivered ins))) st)"
  using assms(2,3)
proof (induction enc wanted ins arbitrary: i st rule: eventsLoop.induct)
  case (1 enc wanted)
  then show ?case by (simp add: sseLoop_end [OF assms(1)] List.map_filter_simps)
next
  case (2 enc wanted ins)
  then show ?case by (simp add: sseLoop_end [OF assms(1)] List.map_filter_simps)
next
  case (3 enc wanted ins)
  then show ?case by (simp add: sseLoop_end [OF assms(1)] List.map_filter_simps)
next
  case (4 enc wanted ins)
  then show ?case by (simp add: sseLoop_ping [OF assms(1)])
next
  case (5 enc wanted ev ins)
  note plain = 5(5) [of ev]
  have rest: "\<And>e. Incoming e \<in> set ins \<Longrightarrow> newline \<notin> set (ev_type e) \<and> CHR 0x0D \<notin> set (ev_type e)"
    using 5(5) by simp
  consider "\<not> wants wanted ev" | "wants wanted ev" "enc ev = None" | j where "wants wanted ev" "enc ev = Some j"
    by blast
  then show ?case
  proof cases
    case 1
    then show ?thesis using 5(1) [OF _ 5(4) rest] by simp
  next
    case 2
    then show ?thesis using 5(2) [OF _ _ 5(4) rest] by (simp add: List.map_filter_simps)
  next
    case 3
    then have "one_line j" using 5(4) by (auto simp: enc_ok_def)
    then show ?thesis
      using 3 plain 5(3) [OF _ _ 5(4) rest]
      by (simp add: sseLoop_event [OF assms(1)] List.map_filter_simps)
  qed
qed

lemma event_type_plain: "newline \<notin> set (event_type_of p) \<and> CHR 0x0D \<notin> set (event_type_of p)"
  by (cases p) (simp_all add: newline_def)

end
