(* ===== verification/GatewaySpec.thy ===== *)
theory GatewaySpec
  imports ChainNet EventStream Demo
begin

text \<open>
  Properties of the HTTP surface: what a call can do to the chain, what the reads answer, what the demo
  challenge can achieve, and what a client reads of the event stream.
\<close>

section \<open>Calls and the state of the chain\<close>

text \<open>An accepted transaction as a step of the node.\<close>

definition submission :: "env \<Rightarrow> node \<Rightarrow> node \<Rightarrow> bool" where
  "submission E nd nd' \<longleftrightarrow> (\<exists>tx rc. submitTx E tx nd = (Inr rc, nd'))"

text \<open>
  A handler is sound for a node when it gets where it gets by accepted transactions, and a reply other
  than 200 means that it did not move.
\<close>

definition only_submits :: "env \<Rightarrow> node \<Rightarrow> reply \<times> node \<Rightarrow> bool" where
  "only_submits E nd res \<longleftrightarrow>
     (submission E)\<^sup>*\<^sup>* nd (snd res) \<and> ((\<nexists>b. fst res = Reply 200 b) \<longrightarrow> snd res = nd)"

lemma only_submits_same [simp]: "only_submits E nd (rep, nd)"
  by (simp add: only_submits_def)

lemma submitTx_step:
  assumes "submitTx E tx nd = (r, nd')"
  shows "case r of Inl e \<Rightarrow> nd' = nd | Inr rc \<Rightarrow> submission E nd nd'"
  using assms by (cases rule: submitTx_cases [of E tx nd]) (auto simp: submission_def intro!: exI [of _ tx])

lemma signAndSubmit_step:
  assumes "signAndSubmit E W kr name ty msg nd = (r, nd')"
  shows "case r of Inl e \<Rightarrow> nd' = nd | Inr rc \<Rightarrow> submission E nd nd'"
proof (cases "prepareTx E W kr name ty msg (nd_db nd)")
  case (Inr tx)
  then show ?thesis using assms submitTx_step [of E tx nd r nd'] by (simp add: signAndSubmit_def)
qed (use assms in \<open>auto simp: signAndSubmit_def\<close>)

lemma reply_only_submits:
  assumes "case r of Inl e \<Rightarrow> nd' = nd | Inr rc \<Rightarrow> submission E nd nd'"
  shows "only_submits E nd (case r of Inl e \<Rightarrow> (writeError 400 e, nd') | Inr rc \<Rightarrow> (Reply 200 (b rc), nd'))"
  using assms by (auto simp: only_submits_def split: sum.splits)

lemma demoSubmit_only: "only_submits E nd (demoSubmit E W kr key ty msg ok nd)"
proof -
  obtain r nd' where s: "signAndSubmit E W kr key ty msg nd = (r, nd')" by fastforce
  have "demoSubmit E W kr key ty msg ok nd =
      (case r of Inl e \<Rightarrow> (writeError 400 e, nd') | Inr rc \<Rightarrow> (Reply 200 (BodyMap (ok rc)), nd'))"
    by (simp add: demoSubmit_def s split: sum.splits)
  then show ?thesis using reply_only_submits [OF signAndSubmit_step [OF s]] by simp
qed

lemma submitTxH_only: "only_submits E nd (submitTxH E dec body nd)"
proof (cases "dec body")
  case (Some tx)
  obtain r nd' where s: "submitTx E tx nd = (r, nd')" by fastforce
  have "submitTxH E dec body nd = (case r of Inl e \<Rightarrow> (writeError 400 e, nd')
      | Inr rc \<Rightarrow> (Reply 200 (BodyMap (txReply rc (heightLocked (nd_db nd')))), nd'))"
    by (simp add: submitTxH_def s Some split: sum.splits)
  then show ?thesis using reply_only_submits [OF submitTx_step [OF s]] by simp
qed (simp add: submitTxH_def)

lemma withBody_only: "(\<And>rq. only_submits E nd (f rq nd)) \<Longrightarrow> only_submits E nd (withBody dec body f nd)"
  by (simp add: withBody_def split: option.splits)

lemmas demo_handlers = demoRegisterService_def demoRequestInference_def demoRegisterDomain_def demoChallenge_def
  demoUpdateService_def demoDeactivateService_def demoDeactivateDomain_def demoResolveChallenge_def

lemma demo_only:
  "only_submits E nd (demoRegisterService E W kr q1 nd)" "only_submits E nd (demoRequestInference E W kr q2 nd)"
  "only_submits E nd (demoRegisterDomain E W kr q3 nd)" "only_submits E nd (demoChallenge E W kr q4 nd)"
  "only_submits E nd (demoUpdateService E W kr q5 nd)" "only_submits E nd (demoDeactivateService E W kr q6 nd)"
  "only_submits E nd (demoDeactivateDomain E W kr q7 nd)" "only_submits E nd (demoResolveChallenge E W kr q8 nd)"
  by (simp_all add: demo_handlers Let_def demoSubmit_only split: sum.splits)

text \<open>The seeding submits up to four transactions; it is the one call that can fail half-way.\<close>

lemma orElse500_steps:
  assumes "(submission E)\<^sup>*\<^sup>* nd0 nd"
    and "\<And>rc nd1. (submission E)\<^sup>*\<^sup>* nd0 nd1 \<Longrightarrow> (submission E)\<^sup>*\<^sup>* nd0 (snd (k rc nd1))"
  shows "(submission E)\<^sup>*\<^sup>* nd0 (snd (orElse500 (signAndSubmit E W kr key ty msg nd) w k))"
  using assms signAndSubmit_step [of E W kr key ty msg nd]
  by (auto simp: orElse500_def split: prod.splits sum.splits) (meson rtranclp.rtrancl_into_rtrancl)

lemma demoSeed_steps: "(submission E)\<^sup>*\<^sup>* nd (snd (demoSeed E W kr sha nd))"
  unfolding demoSeed_def Let_def by (auto intro!: orElse500_steps)

lemma routePost_steps:
  assumes "routePost E W A kr r nd = Some res"
  shows "(submission E)\<^sup>*\<^sup>* nd (snd res)" and "hr_path r \<noteq> ''/demo/seed'' \<Longrightarrow> only_submits E nd res"
proof -
  show "only_submits E nd res" if "hr_path r \<noteq> ''/demo/seed''"
    using assms that by (auto simp: routePost_def Let_def submitTxH_only withBody_only demo_only split: if_splits)
  then show "(submission E)\<^sup>*\<^sup>* nd (snd res)"
    using assms demoSeed_steps [of E nd W kr "ac_model_sha A"]
    by (cases "hr_path r = ''/demo/seed''") (auto simp: only_submits_def routePost_def Let_def)
qed

lemma routeGet_node:
  assumes "routeGet r now nd = Some res"
  shows "snd res = (if hr_path r = ''/events'' then nd\<lparr>nd_bus := fst (subscribe (nd_bus nd))\<rparr> else nd)"
  using assms by (auto simp: routeGet_def Let_def openEvents_def split: if_splits list.splits)

lemma events_routed: "hr_path r = ''/events'' \<Longrightarrow> routeGet r now nd = Some (openEvents nd)"
  by (simp add: routeGet_def Let_def)

lemma close_open:
  assumes "bus_ok b"
  shows "bus_subs (cancel (length (bus_chans b)) (fst (subscribe b))) = bus_subs b"
  using assms by (auto simp: bus_ok_def cancel_def subscribe_def filter_id_conv)

text \<open>C21: Whatever is sent to the HTTP server, the chain changes only by transactions that
  \<open>SubmitTx\<close> accepts. Apart from the stream of events, the node after a call is reached from the node
  before it by accepted transactions; a call that is not a \<open>POST\<close> changes nothing at all, and neither does
  a call that is not answered with status 200, except for \<open>/demo/seed\<close>, which may fail after some of
  its transactions. A call of \<open>/events\<close> registers one new subscriber, leaves the database and the replay
  log alone, and when it ends the subscribers are those there were.\<close>

theorem http_changes_only_by_tx:
  "let nd' = snd (serve E W A kr now r nd); n = length (bus_chans (nd_bus nd)) in
   if getMethod (hr_method r) \<and> hr_path r = ''/events''
   then nd_db nd' = nd_db nd \<and> bus_log (nd_bus nd') = bus_log (nd_bus nd)
     \<and> bus_subs (nd_bus nd') = bus_subs (nd_bus nd) @ [n]
     \<and> bus_chans (nd_bus nd') = bus_chans (nd_bus nd) @ [\<lparr>ch_buf = [], ch_closed = False\<rparr>]
     \<and> nd_db (closeEvents n nd') = nd_db nd
     \<and> (if bus_ok (nd_bus nd) then bus_subs (nd_bus (closeEvents n nd')) = bus_subs (nd_bus nd) else True)
   else (submission E)\<^sup>*\<^sup>* nd nd'
     \<and> (if hr_method r = ''POST'' \<and> (hr_path r = ''/demo/seed'' \<or> (\<exists>b. fst (serve E W A kr now r nd) = Reply 200 b))
        then True else nd' = nd)"
proof (cases "getMethod (hr_method r) \<and> hr_path r = ''/events''")
  case True
  then have "serve E W A kr now r nd = openEvents nd"
    by (auto simp: serve_def events_routed getMethod_def)
  with True show ?thesis
    using close_open [of "nd_bus nd"]
    by (simp add: openEvents_def closeEvents_def Let_def) (simp add: subscribe_def cancel_def)
next
  case False
  then show ?thesis
    using routePost_steps [of E W A kr r nd] routeGet_node [of r now nd] unfolding serve_def only_submits_def Let_def
    by (auto split: option.splits)
qed

section \<open>Reads\<close>

lemma getById_malformed:
  assumes "snd (parseUint seg) = Some e"
  shows "getById seg look missing body = Reply 400 (BodyError (parse_text e))"
proof -
  have "\<not> is_panic (parse_text e)"
    by (cases e) (simp_all add: parse_text_def)
  then show ?thesis
    using assms by (cases "parseUint seg") (simp add: getById_def writeError_def)
qed

lemma getById_found:
  assumes "\<And>e. look k = Inl e \<Longrightarrow> e = missing" and "\<not> is_panic missing" and "errors_is missing missing"
  shows "render json (getById (formatUint k) look missing body) =
    (case look k of Inr v \<Rightarrow> Inr (200, json (body v)) | Inl e \<Rightarrow> Inr (404, json (BodyError e)))"
  using assms by (auto simp: getById_def writeError_def render_def split: sum.splits)

lemma by_id_found:
  "render json (getRequestH s (formatUint k)) =
    (case getRequest s k of Inr r \<Rightarrow> Inr (200, json (BodyRequest r)) | Inl e \<Rightarrow> Inr (404, json (BodyError e)))"
  "render json (getServiceH s (formatUint k)) =
    (case getService s k of Inr v \<Rightarrow> Inr (200, json (BodyService v)) | Inl e \<Rightarrow> Inr (404, json (BodyError e)))"
  "render json (getDomainH s (formatUint k)) =
    (case getDomain s k of Inr d \<Rightarrow> Inr (200, json (BodyDomain d)) | Inl e \<Rightarrow> Inr (404, json (BodyError e)))"
  unfolding getRequestH_def getServiceH_def getDomainH_def views
  by (rule getById_found; auto simp: getRequest_def getService_def getDomain_def split: option.splits)+

text \<open>Reading a record by its id: for the decimal text of any id, \<open>GET /services/k\<close>,
  \<open>/requests/k\<close> and \<open>/domains/k\<close> answer a client 200 with exactly the stored record, or 404 when there is
  none, and leave the chain alone; a segment that is no 64-bit decimal number is answered 400.\<close>

theorem http_get_by_id:
  "net_get (chainNet E W A kr now json) (''/requests/'' @ formatUint k) nd =
      (case getRequest (nd_db nd) k of
         Inr r \<Rightarrow> Inr (200, json (BodyRequest r)) | Inl e \<Rightarrow> Inr (404, json (BodyError e)), nd)
   \<and> net_get (chainNet E W A kr now json) (''/services/'' @ formatUint k) nd =
      (case getService (nd_db nd) k of
         Inr v \<Rightarrow> Inr (200, json (BodyService v)) | Inl e \<Rightarrow> Inr (404, json (BodyError e)), nd)
   \<and> net_get (chainNet E W A kr now json) (''/domains/'' @ formatUint k) nd =
      (case getDomain (nd_db nd) k of
         Inr d \<Rightarrow> Inr (200, json (BodyDomain d)) | Inl e \<Rightarrow> Inr (404, json (BodyError e)), nd)
   \<and> (case snd (parseUint seg) of None \<Rightarrow> True
      | Some e \<Rightarrow> getRequestH s seg = Reply 400 (BodyError (parse_text e))
          \<and> getServiceH s seg = Reply 400 (BodyError (parse_text e))
          \<and> getDomainH s seg = Reply 400 (BodyError (parse_text e)))"
proof -
  have "case snd (parseUint seg) of None \<Rightarrow> True
      | Some e \<Rightarrow> getRequestH s seg = Reply 400 (BodyError (parse_text e))
          \<and> getServiceH s seg = Reply 400 (BodyError (parse_text e))
          \<and> getDomainH s seg = Reply 400 (BodyError (parse_text e))"
    by (auto simp: getRequestH_def getServiceH_def getDomainH_def getById_malformed split: option.splits)
  then show ?thesis
    unfolding get_path by (simp only: by_id_found simp_thms)
qed

section \<open>The demo challenge\<close>

lemma prepareTx_Inr:
  assumes "prepareTx E W kr name ty msg s = Inr tx"
  shows "tx_type tx = ty \<and> marshal W msg = Some (tx_payload tx)"
  using assms
  by (auto simp: prepareTx_def buildTx_def Let_def split: option.splits)

text \<open>C40: \<open>POST /demo/challenge\<close> cannot challenge a request of a service whose domain pins a tokenizer,
  whatever the key, the hash and the state of the dispute: the attestation it builds carries no
  tokenizer id, so the call is answered with an error (or aborted) and changes nothing. The domain that
  \<open>/demo/seed\<close> registers pins one.\<close>

theorem demo_challenge_never_pins:
  assumes "\<forall>m p. marshal W (MChallenge m) = Some p \<longrightarrow> dec_challenge E p = Some m"
    and "getRequest (nd_db nd) (dch_request_id rq) = Inr r" and "getService (nd_db nd) (req_service_id r) = Inr svc"
    and "svc_domain_id svc \<noteq> 0" and "getDomain (nd_db nd) (svc_domain_id svc) = Inr d" and "dom_tokenizer_id d \<noteq> ''''"
  shows "\<exists>rep. demoChallenge E W kr rq nd = (rep, nd) \<and> (\<nexists>b. rep = Reply 200 b)"
proof -
  let ?key = "orDefault (dch_key rq) ''harness''"
  let ?att = "demoAttestation (nd_db nd) (resolveAddr kr ?key) (svc_domain_id svc) r (dch_output_hash rq)"
  let ?msg = "MChallenge \<lparr>mc_challenger = resolveAddr kr ?key, mc_request_id = dch_request_id rq, mc_attestation = ?att\<rparr>"
  have pin: "matchDomain (nd_db nd) l t k (svc_domain_id svc) ?att \<noteq> Inr ()" for l t k
    using assms(4-6) by (auto simp: matchDomain_Inr demoAttestation_def Let_def)
  have "\<exists>e. signAndSubmit E W kr ?key txChallenge ?msg nd = (Inl e, nd)"
  proof (cases "prepareTx E W kr ?key txChallenge ?msg (nd_db nd)")
    case (Inr tx)
    then have tx: "tx_type tx = txChallenge" "marshal W ?msg = Some (tx_payload tx)"
      using prepareTx_Inr by blast+
    have dec: "decode (dec_challenge E) (tx_payload tx) = Inr \<lparr>mc_challenger = resolveAddr kr ?key,
        mc_request_id = dch_request_id rq, mc_attestation = ?att\<rparr>"
      using assms(1) tx(2) by (simp add: decode_def)
    have "applyChallenge E (nd_db nd) a (tx_payload tx) h \<noteq> Inr x" for a h x
      using pin assms(2,3) by (auto simp: applyChallenge_def dec split: option.splits)
    then have "dispatch E (nd_db nd) a tx h \<noteq> Inr x" for a h x
      by (auto simp: dispatch_def tx(1) tx_names)
    then have "runTx E a tx (nd_db nd) \<noteq> Inr x" for a x
      by (auto simp: runTx_def split: if_splits)
    then show ?thesis
      using Inr by (cases rule: submitTx_cases [of E tx nd]) (auto simp: signAndSubmit_def)
  qed (simp add: signAndSubmit_def)
  then show ?thesis
    using assms(2,3) by (auto simp: demoChallenge_def Let_def demoSubmit_def writeError_def)
qed

text \<open>The seeded domain in the run of the theory \<open>Demo\<close>, and a key file with the key of the harness.\<close>

definition pinned_node :: node where
  "pinned_node = \<lparr>nd_db = (demo_dom_state demo_submitted)
     \<lparr>cs_domains := [(1, demo_vd\<lparr>dom_tokenizer_id := ''llama.cpp-bpe-v1''\<rparr>)]\<rparr>, nd_bus = empty_bus\<rparr>"

definition demo_keys :: key_file where
  "demo_keys = Inr [\<lparr>ke_name = ''harness'', ke_address = challenger, ke_pub_key_hex = hexEncode (demo_pub 3),
     ke_priv_key_hex = hexEncode (demo_pub 3 @ demo_pub 3)\<rparr>]"

definition pinned_msg :: msg_challenge where
  "pinned_msg = \<lparr>mc_challenger = challenger, mc_request_id = 1,
     mc_attestation = demoAttestation (nd_db pinned_node) challenger 1 demo_submitted ''bad''\<rparr>"

definition pinned_wallet :: wallet where
  "pinned_wallet = \<lparr>ed25519_sign = (\<lambda>priv m. priv),
     marshal = (\<lambda>m. if m = MChallenge pinned_msg then Some ''chl'' else None)\<rparr>"

definition pinned_env :: env where
  "pinned_env = demo_env\<lparr>dec_challenge := (\<lambda>p. if p = ''chl'' then Some pinned_msg else None)\<rparr>"

theorem demo_challenge_never_pins_witness:
  "let rq = \<lparr>dch_request_id = 1, dch_output_hash = ''bad'', dch_key = ''''\<rparr> in
   isOverdue defaultParams 10 demo_submitted = False
   \<and> (\<exists>rep. demoChallenge pinned_env pinned_wallet demo_keys rq pinned_node = (rep, pinned_node) \<and> (\<nexists>b. rep = Reply 200 b))"
proof -
  let ?rq = "\<lparr>dch_request_id = 1, dch_output_hash = ''bad'', dch_key = ''''\<rparr>"
  have gets: "getRequest (nd_db pinned_node) = getRequest (demo_dom_state demo_submitted)"
    "getService (nd_db pinned_node) = getService (demo_dom_state demo_submitted)"
    by (auto simp: pinned_node_def getRequest_def getService_def)
  have "\<exists>rep. demoChallenge pinned_env pinned_wallet demo_keys ?rq pinned_node = (rep, pinned_node) \<and> (\<nexists>b. rep = Reply 200 b)"
  proof (rule demo_challenge_never_pins [where r = demo_submitted and svc = demo_dom_svc])
    show "\<forall>m p. marshal pinned_wallet (MChallenge m) = Some p \<longrightarrow> dec_challenge pinned_env p = Some m"
      by (simp add: pinned_wallet_def pinned_env_def)
    show "getDomain (nd_db pinned_node) (svc_domain_id demo_dom_svc) = Inr (demo_vd\<lparr>dom_tokenizer_id := ''llama.cpp-bpe-v1''\<rparr>)"
      by (simp add: pinned_node_def getDomain_def demo_dom_svc_def)
  qed (simp_all add: gets demo_dom_svc_def)
  moreover have "isOverdue defaultParams 10 demo_submitted = False"
    by (simp add: isOverdue_def) (simp add: demo_reqs defaultParams_def word_sless_alt)
  ultimately show ?thesis by simp
qed

section \<open>The event stream\<close>

lemma event_type_solid: "p \<noteq> NoPayload \<Longrightarrow> solid (event_type_of p) \<and> CHR '','' \<notin> set (event_type_of p)"
  by (cases p) (simp_all add: solid_def spaceRunes_def)

lemma joinOn_Cons: "ws \<noteq> [] \<Longrightarrow> joinOn sep (w # ws) = w @ sep # joinOn sep ws"
  by (cases ws) (simp_all add: joinOn_def)

lemma solid_append: "solid u \<Longrightarrow> solid v \<Longrightarrow> solid (u @ s @ v)"
  by (simp add: solid_def)

lemma solid_joinOn: "ws \<noteq> [] \<Longrightarrow> \<forall>w \<in> set ws. solid w \<Longrightarrow> solid (joinOn sep ws)"
proof (induction ws)
  case (Cons w ws)
  show ?case
  proof (cases "ws = []")
    case False
    then show ?thesis
      using Cons solid_append [of w "joinOn sep ws" "[sep]"] by (simp add: joinOn_Cons)
  qed (use Cons in \<open>simp add: joinOn_def\<close>)
qed simp

text \<open>The filter a client asks for with the names of events is read back as those names.\<close>

lemma wantedTypes_joinOn:
  assumes "ps \<noteq> []" and "NoPayload \<notin> set ps"
  shows "wantedTypes (joinOn (CHR '','') (map event_type_of ps)) = map event_type_of ps"
proof -
  have w: "solid (event_type_of p) \<and> CHR '','' \<notin> set (event_type_of p)" if "p \<in> set ps" for p
    using event_type_solid [of p] that assms(2) by auto
  then have s: "solid (joinOn (CHR '','') (map event_type_of ps))"
    using assms(1) by (intro solid_joinOn) auto
  then have "joinOn (CHR '','') (map event_type_of ps) \<noteq> ''''"
    by (auto simp: solid_def)
  moreover have "splitOn (CHR '','') (joinOn (CHR '','') (map event_type_of ps)) = map event_type_of ps"
    using w assms(1) by (intro splitOn_joinOn) auto
  moreover have "map trimSpace (map event_type_of ps) = map event_type_of ps"
    using w by (auto simp: trimSpace_solid)
  ultimately show ?thesis
    by (simp only: wantedTypes_def Let_def trimSpace_solid [OF s] if_False)
qed

lemma fold_decoded:
  "\<forall>ev \<in> set evs. \<exists>j. enc ev = Some j \<and> dec j = Some (view ev) \<Longrightarrow>
   fold (\<lambda>d got. case dec d of None \<Rightarrow> got | Some x \<Rightarrow> got @ [x]) (List.map_filter enc evs) acc = acc @ map view evs"
proof (induction evs arbitrary: acc)
  case (Cons ev evs)
  then obtain j where "enc ev = Some j" "dec j = Some (view ev)" by auto
  then show ?case using Cons by (simp add: List.map_filter_simps)
qed (simp add: List.map_filter_simps)

text \<open>C24: A client that asks for some types of events and is not interrupted gets exactly the events
  of those types that the handler took from its channel, each decoded, in order and once, whatever
  heartbeats come in between, and is told of the end of the stream with an error.\<close>

theorem stream_delivers_wanted_events:
  assumes "enc_ok enc" and "\<forall>h p. \<exists>j. enc (mk_event h p) = Some j \<and> dec j = Some (view (mk_event h p))"
    and "\<forall>ev. Incoming ev \<in> set ins \<longrightarrow> (\<exists>h p. ev = mk_event h p)"
    and "ps \<noteq> []" and "NoPayload \<notin> set ps"
  shows "subscribeEvents dec (\<lambda>_. False) (\<lambda>x got. got @ [x])
      (eventsH enc (joinOn (CHR '','') (map event_type_of ps)) ins) [] =
    (Inl ''read stream'', map view (filter (\<lambda>ev. ev_type ev \<in> event_type_of ` set ps) (delivered ins)))"
proof -
  let ?w = "map event_type_of ps"
  let ?evs = "filter (wants ?w) (delivered ins)"
  have plain: "newline \<notin> set (ev_type ev) \<and> CHR 0x0D \<notin> set (ev_type ev)" if "Incoming ev \<in> set ins" for ev
    using assms(3) that event_type_plain by (auto simp: mk_event_def)
  have "set (delivered ins) \<subseteq> {ev. Incoming ev \<in> set ins}"
    by (induction ins rule: delivered.induct) auto
  then have "\<forall>ev \<in> set ?evs. \<exists>j. enc ev = Some j \<and> dec j = Some (view ev)"
    using assms(2,3) by fastforce
  note dec = fold_decoded [OF this, of "[]"]
  have "?evs = filter (\<lambda>ev. ev_type ev \<in> event_type_of ` set ps) (delivered ins)"
    using assms(4) by (intro filter_cong) (auto simp: wants_def)
  with dec show ?thesis
    unfolding subscribeEvents_def eventsH_def wantedTypes_joinOn [OF assms(4,5)]
    by (subst sseLoop_eventsLoop [OF not_False_eq_True [THEN iffD2] assms(1) plain])
      (simp_all only: append_Nil not_False_eq_True)
qed

text \<open>A stream with a heartbeat and an event of another type; an event is encoded as its type in braces.\<close>

definition brace :: "event \<Rightarrow> string option" where
  "brace ev = (if newline \<in> set (ev_type ev) then None else Some (CHR ''{'' # ev_type ev @ ''}''))"

definition unbrace :: "string \<Rightarrow> string option" where
  "unbrace j = Some (butlast (tl j))"

definition sample_result :: event_payload where
  "sample_result = ResultSubmitted
     \<lparr>ers_request_id = 7, ers_provider = '''', ers_output_hash = ''good'', ers_output_uri = ''''\<rparr>"

definition sample_input :: "stream_input list" where
  "sample_input = [Heartbeat, Incoming (mk_event 3 (BlockCommitted \<lparr>ebc_height = 3, ebc_time = ''now''\<rparr>)),
     Incoming (mk_event 3 sample_result), ClientGone]"

theorem stream_delivers_wanted_events_witness:
  "subscribeEvents unbrace (\<lambda>_. False) (\<lambda>x got. got @ [x])
     (eventsH brace (joinOn (CHR '','') (map event_type_of [sample_result])) sample_input) [] =
   (Inl ''read stream'', [''ResultSubmitted''])"
proof -
  have "enc_ok brace"
    by (auto simp: enc_ok_def brace_def one_line_def solid_def spaceRunes_def newline_def)
  moreover have "\<forall>h p. \<exists>j. brace (mk_event h p) = Some j \<and> unbrace j = Some (ev_type (mk_event h p))"
    using event_type_plain by (simp add: mk_event_def brace_def unbrace_def)
  moreover have "\<forall>ev. Incoming ev \<in> set sample_input \<longrightarrow> (\<exists>h p. ev = mk_event h p)"
    by (auto simp: sample_input_def)
  ultimately show ?thesis
    using stream_delivers_wanted_events [of brace unbrace ev_type sample_input "[sample_result]"]
    by (simp add: sample_result_def) (simp add: sample_input_def sample_result_def mk_event_def)
qed

section \<open>Reconnection\<close>

lemma backoff_next:
  "(if 2 ^ min i 5 * second <s maxBackoff then 2 ^ min i 5 * second * 2 else 2 ^ min i 5 * second) = 2 ^ min (Suc i) 5 * second"
proof (cases "i < 5")
  case True
  then have "i \<in> set [0..<5]" by simp
  then show ?thesis
    by (auto simp: upt_rec second_def maxBackoff_def word_sless_alt)
qed (simp add: second_def maxBackoff_def word_sless_alt min_def)

lemma reconnectLoop_waits:
  "reconnectLoop (2 ^ min i 5 * second) as =
   map (\<lambda>k. 2 ^ min k 5 * second) [i..<i + length (reconnectLoop (2 ^ min i 5 * second) as)]"
proof (induction as arbitrary: i)
  case (Cons a as)
  show ?case
  proof (cases a)
    case Failed
    have "reconnectLoop (2 ^ min i 5 * second) (a # as) = 2 ^ min i 5 * second # reconnectLoop (2 ^ min (Suc i) 5 * second) as"
      unfolding Failed reconnectLoop.simps backoff_next ..
    then show ?thesis
      using Cons [of "Suc i"] by (simp only: length_Cons upt_conv_Cons list.map add_Suc_right add_Suc less_add_Suc1)
  qed (simp_all add: upt_conv_Cons)
qed simp

text \<open>Whatever happens to its connections, a client waits one second before its first
  reconnection and twice as long each time, up to 32 seconds, which it then waits every time: the
  intended maximum of 30 seconds is overshot, and no success ever brings the wait back to one second.\<close>

theorem reconnect_backoff:
  "reconnect as = map (\<lambda>k. 2 ^ min k 5 * second) [0..<length (reconnect as)]
   \<and> list_all (\<lambda>w. second <=s w \<and> w <=s 32 * second) (reconnect as)
   \<and> maxBackoff <s 32 * second \<and> reconnect (replicate 6 Failed) ! 5 = 32 * second"
proof -
  have all: "reconnect as = map (\<lambda>k. 2 ^ min k 5 * second) [0..<length (reconnect as)]" for as
    using reconnectLoop_waits [of 0 as] by (simp only: reconnect_def min_0L power_0 mult_1 add_0)
  have "second <=s 2 ^ min k 5 * second \<and> 2 ^ min k 5 * second <=s 32 * second" for k
  proof -
    have "min k 5 \<in> set [0..<6]" by auto
    then show ?thesis by (auto simp: upt_rec second_def word_sle_eq)
  qed
  then have "list_all (\<lambda>w. second <=s w \<and> w <=s 32 * second) (map (\<lambda>k. 2 ^ min k 5 * second) [0..<n])" for n
    by (simp add: list_all_iff)
  then have "list_all (\<lambda>w. second <=s w \<and> w <=s 32 * second) (reconnect as)"
    by (subst all)
  moreover have "length (reconnectLoop b (replicate n Failed)) = n" for b n
    by (induction n arbitrary: b) auto
  then have "length (reconnect (replicate 6 Failed)) = 6"
    by (simp only: reconnect_def)
  then have "reconnect (replicate 6 Failed) = map (\<lambda>k. 2 ^ min k 5 * second) [0..<6]"
    using all [of "replicate 6 Failed"] by (simp only:)
  then have "reconnect (replicate 6 Failed) ! 5 = 32 * second"
    by (simp only: nth_map_upt) (simp add: second_def)
  moreover have "maxBackoff <s 32 * second"
    by (simp add: maxBackoff_def second_def word_sless_alt)
  ultimately show ?thesis
    using all by blast
qed

end
