(* ===== verification/Indexer.thy ===== *)
theory Indexer
  imports EventStream Net
begin

text \<open>
  The indexer: the SQLite read model (\<open>indexer/internal/store/store.go\<close>), the subscriber that fills it
  from the chain's events (\<open>indexer/internal/sub/sub.go\<close>) and its REST interface
  (\<open>indexer/internal/api/api.go\<close>). A table is the list of its rows in increasing id order. The schema's
  constraints are part of the statements: the unique service name and the foreign key from requests
  to services. \<open>stmt_err\<close> is the database driver: whether it refuses a statement, given the method that
  runs it and its unsigned arguments. The columns \<open>updated_at\<close> are written and never read, and are
  left out.
\<close>

record svc_row =
  sr_id :: u64
  sr_owner :: string
  sr_name :: string
  sr_description :: string
  sr_price_denom :: string
  sr_price_amount :: u64
  sr_domain_id :: u64
  sr_active :: bool
  sr_created_at :: i64

record req_row =
  rr_id :: u64
  rr_service_id :: u64
  rr_requester :: string
  rr_input_hash :: string
  rr_input_uri :: string
  rr_input_text :: string
  rr_escrow_denom :: string
  rr_escrow_amount :: u64
  rr_deadline :: i64
  rr_status :: string
  rr_created_at :: i64
  rr_finalized_at :: "i64 option"
  rr_output_hash :: "string option"
  rr_output_uri :: "string option"
  rr_output_text :: "string option"
  rr_provider :: "string option"
  rr_paid_denom :: "string option"
  rr_paid_amount :: "u64 option"

record store =
  st_services :: "(u64, svc_row) bucket"
  st_requests :: "(u64, req_row) bucket"

definition empty_store :: store where
  "empty_store = \<lparr>st_services = [], st_requests = []\<rparr>"

datatype store_error = ErrNotFound | ErrConstraint string | ErrDriver string

type_synonym driver = "string \<Rightarrow> u64 list \<Rightarrow> string option"

definition runStmt :: "driver \<Rightarrow> string \<Rightarrow> u64 list \<Rightarrow> store_error + 'a \<Rightarrow> store_error + 'a" where
  "runStmt Q name args res = (case Q name args of Some m \<Rightarrow> Inl (ErrDriver m) | None \<Rightarrow> res)"

subsection \<open>Writing\<close>

text \<open>
  \<open>INSERT ... ON CONFLICT(id) DO UPDATE\<close>: a row with that id is updated in the listed columns only;
  otherwise the row is inserted, if the other constraints allow it.
\<close>

definition upsertService :: "driver \<Rightarrow> svc_row \<Rightarrow> store \<Rightarrow> store_error + store" where
  "upsertService Q svc st =
     runStmt Q ''UpsertService'' [sr_id svc, sr_price_amount svc, sr_domain_id svc]
       (case map_of (st_services st) (sr_id svc) of
          Some old \<Rightarrow>
            Inr (st\<lparr>st_services := bput (sr_id svc)
              (old\<lparr>sr_owner := sr_owner svc, sr_description := sr_description svc,
                 sr_price_denom := sr_price_denom svc, sr_price_amount := sr_price_amount svc,
                 sr_active := sr_active svc\<rparr>) (st_services st)\<rparr>)
        | None \<Rightarrow>
            if sr_name svc \<in> sr_name ` snd ` set (st_services st)
            then Inl (ErrConstraint ''UNIQUE constraint failed: services.name'')
            else Inr (st\<lparr>st_services := bput (sr_id svc) svc (st_services st)\<rparr>))"

text \<open>The inserted columns; the others are NULL.\<close>

definition inserted :: "req_row \<Rightarrow> req_row" where
  "inserted r = r\<lparr>rr_finalized_at := None, rr_output_hash := None, rr_output_uri := None,
     rr_output_text := None, rr_provider := None, rr_paid_denom := None, rr_paid_amount := None\<rparr>"

definition upsertRequest :: "driver \<Rightarrow> req_row \<Rightarrow> store \<Rightarrow> store_error + store" where
  "upsertRequest Q r st =
     runStmt Q ''UpsertRequest'' [rr_id r, rr_service_id r, rr_escrow_amount r]
       (case map_of (st_requests st) (rr_id r) of
          Some old \<Rightarrow>
            Inr (st\<lparr>st_requests := bput (rr_id r) (old\<lparr>rr_status := rr_status r\<rparr>) (st_requests st)\<rparr>)
        | None \<Rightarrow>
            if map_of (st_services st) (rr_service_id r) = None
            then Inl (ErrConstraint ''FOREIGN KEY constraint failed'')
            else Inr (st\<lparr>st_requests := bput (rr_id r) (inserted r) (st_requests st)\<rparr>))"

text \<open>\<open>UPDATE ... WHERE id = ?\<close>: nothing happens if there is no such row.\<close>

definition updateRequest :: "u64 \<Rightarrow> (req_row \<Rightarrow> req_row) \<Rightarrow> store \<Rightarrow> store" where
  "updateRequest k f st =
     (case map_of (st_requests st) k of
        None \<Rightarrow> st
      | Some old \<Rightarrow> st\<lparr>st_requests := bput k (f old) (st_requests st)\<rparr>)"

definition markFinalized ::
  "string \<Rightarrow> string \<Rightarrow> string \<Rightarrow> string \<Rightarrow> string \<Rightarrow> u64 \<Rightarrow> i64 \<Rightarrow> req_row \<Rightarrow> req_row" where
  "markFinalized provider outputHash outputURI outputText paidDenom paidAmount height r =
     r\<lparr>rr_status := ''FINALIZED'', rr_finalized_at := Some height, rr_output_hash := Some outputHash,
       rr_output_uri := Some outputURI, rr_output_text := Some outputText, rr_provider := Some provider,
       rr_paid_denom := Some paidDenom, rr_paid_amount := Some paidAmount\<rparr>"

definition storeFinalize ::
  "driver \<Rightarrow> u64 \<Rightarrow> string \<Rightarrow> string \<Rightarrow> string \<Rightarrow> string \<Rightarrow> string \<Rightarrow> u64 \<Rightarrow> i64 \<Rightarrow> store \<Rightarrow> store_error + store" where
  "storeFinalize Q k provider outputHash outputURI outputText paidDenom paidAmount height st =
     runStmt Q ''FinalizeRequest'' [paidAmount, k]
       (Inr (updateRequest k
          (markFinalized provider outputHash outputURI outputText paidDenom paidAmount height) st))"

definition storeRefund :: "driver \<Rightarrow> u64 \<Rightarrow> i64 \<Rightarrow> store \<Rightarrow> store_error + store" where
  "storeRefund Q k height st =
     runStmt Q ''RefundRequest'' [k]
       (Inr (updateRequest k (\<lambda>r. r\<lparr>rr_status := ''REFUNDED'', rr_finalized_at := Some height\<rparr>) st))"

subsection \<open>Reading\<close>

definition storeGetService :: "driver \<Rightarrow> store \<Rightarrow> u64 \<Rightarrow> store_error + svc_row" where
  "storeGetService Q st k =
     runStmt Q ''GetService'' [k]
       (case map_of (st_services st) k of None \<Rightarrow> Inl ErrNotFound | Some r \<Rightarrow> Inr r)"

definition storeListServices :: "driver \<Rightarrow> store \<Rightarrow> store_error + svc_row list" where
  "storeListServices Q st = runStmt Q ''ListServices'' [] (Inr (map snd (st_services st)))"

definition storeGetRequest :: "driver \<Rightarrow> store \<Rightarrow> u64 \<Rightarrow> store_error + req_row" where
  "storeGetRequest Q st k =
     runStmt Q ''GetRequest'' [k]
       (case map_of (st_requests st) k of None \<Rightarrow> Inl ErrNotFound | Some r \<Rightarrow> Inr r)"

text \<open>\<open>WHERE 1=1 [AND status = ?] [AND service_id = ?] ORDER BY id DESC LIMIT 200\<close>.\<close>

definition storeListRequests :: "driver \<Rightarrow> store \<Rightarrow> string \<Rightarrow> u64 \<Rightarrow> store_error + req_row list" where
  "storeListRequests Q st status serviceID =
     runStmt Q ''ListRequests'' (if serviceID \<noteq> 0 then [serviceID] else [])
       (Inr (take 200 (rev (filter (\<lambda>r. (status \<noteq> '''' \<longrightarrow> rr_status r = status)
          \<and> (serviceID \<noteq> 0 \<longrightarrow> rr_service_id r = serviceID)) (map snd (st_requests st))))))"

record stats =
  sts_services_total :: nat
  sts_requests_total :: nat
  sts_requests_finalized :: nat
  sts_requests_pending :: nat
  sts_requests_refunded :: nat

definition countStatus :: "store \<Rightarrow> string \<Rightarrow> nat" where
  "countStatus st status = length (filter (\<lambda>r. rr_status r = status) (map snd (st_requests st)))"

definition statsSummary :: "driver \<Rightarrow> store \<Rightarrow> store_error + stats" where
  "statsSummary Q st =
     runStmt Q ''StatsSummary'' []
       (Inr \<lparr>sts_services_total = length (st_services st), sts_requests_total = length (st_requests st),
         sts_requests_finalized = countStatus st ''FINALIZED'',
         sts_requests_pending = countStatus st ''PENDING'',
         sts_requests_refunded = countStatus st ''REFUNDED''\<rparr>)"

subsection \<open>The subscriber\<close>

record indexed_event =
  ie_type :: string
  ie_height :: i64
  ie_payload :: string

record idx_service_registered =
  isr_service_id :: u64
  isr_owner :: string
  isr_name :: string
  isr_description :: string
  isr_price_denom :: string
  isr_price_amount :: u64

record idx_inference_requested =
  iir_request_id :: u64
  iir_service_id :: u64
  iir_requester :: string
  iir_input_hash :: string
  iir_input_uri :: string
  iir_input_text :: string
  iir_escrow_denom :: string
  iir_escrow_amount :: u64
  iir_deadline :: i64

record idx_request_finalized =
  irf_request_id :: u64
  irf_provider :: string
  irf_paid_denom :: string
  irf_paid_amount :: u64

text \<open>The result part of a fetched request: its hash, its address and its text.\<close>

record idx_result =
  ifr_output_hash :: string
  ifr_output_uri :: string
  ifr_output_text :: string

text \<open>
  What \<open>json.Unmarshal\<close> makes of the texts. A request body that does not decode leaves the result
  absent (\<open>ic_full\<close> returns \<open>None\<close> for that and for a missing result).
\<close>

record idx_codec =
  ic_event :: "string \<Rightarrow> indexed_event option"
  ic_service_registered :: "string \<Rightarrow> idx_service_registered option"
  ic_inference_requested :: "string \<Rightarrow> idx_inference_requested option"
  ic_request_finalized :: "string \<Rightarrow> idx_request_finalized option"
  ic_request_refunded :: "string \<Rightarrow> u64 option"
  ic_full :: "string \<Rightarrow> idx_result option"

text \<open>A failing statement is logged and the store stays as it was.\<close>

definition orKeep :: "store \<Rightarrow> store_error + store \<Rightarrow> store" where
  "orKeep st r = (case r of Inl _ \<Rightarrow> st | Inr st' \<Rightarrow> st')"

definition service_row_of :: "idx_service_registered \<Rightarrow> i64 \<Rightarrow> svc_row" where
  "service_row_of p height =
     \<lparr>sr_id = isr_service_id p, sr_owner = isr_owner p, sr_name = isr_name p,
      sr_description = isr_description p, sr_price_denom = isr_price_denom p,
      sr_price_amount = isr_price_amount p, sr_domain_id = 0, sr_active = True, sr_created_at = height\<rparr>"

definition request_row_of :: "idx_inference_requested \<Rightarrow> i64 \<Rightarrow> req_row" where
  "request_row_of p height =
     \<lparr>rr_id = iir_request_id p, rr_service_id = iir_service_id p, rr_requester = iir_requester p,
      rr_input_hash = iir_input_hash p, rr_input_uri = iir_input_uri p, rr_input_text = iir_input_text p,
      rr_escrow_denom = iir_escrow_denom p, rr_escrow_amount = iir_escrow_amount p,
      rr_deadline = iir_deadline p, rr_status = ''PENDING'', rr_created_at = height,
      rr_finalized_at = None, rr_output_hash = None, rr_output_uri = None, rr_output_text = None,
      rr_provider = None, rr_paid_denom = None, rr_paid_amount = None\<rparr>"

definition handleServiceRegistered :: "driver \<Rightarrow> idx_codec \<Rightarrow> string \<Rightarrow> i64 \<Rightarrow> store \<Rightarrow> store" where
  "handleServiceRegistered Q C payload height st =
     (case ic_service_registered C payload of
        None \<Rightarrow> st
      | Some p \<Rightarrow> orKeep st (upsertService Q (service_row_of p height) st))"

definition handleInferenceRequested :: "driver \<Rightarrow> idx_codec \<Rightarrow> string \<Rightarrow> i64 \<Rightarrow> store \<Rightarrow> store" where
  "handleInferenceRequested Q C payload height st =
     (case ic_inference_requested C payload of
        None \<Rightarrow> st
      | Some p \<Rightarrow> orKeep st (upsertRequest Q (request_row_of p height) st))"

definition handleResultSubmitted :: "string \<Rightarrow> i64 \<Rightarrow> store \<Rightarrow> store" where
  "handleResultSubmitted payload height st = st"

definition no_result :: idx_result where
  "no_result = \<lparr>ifr_output_hash = '''', ifr_output_uri = '''', ifr_output_text = ''''\<rparr>"

text \<open>The result part comes from the chain; whatever goes wrong there leaves it empty.\<close>

definition fetchResult :: "idx_codec \<Rightarrow> 'w net \<Rightarrow> u64 \<Rightarrow> 'w \<Rightarrow> idx_result \<times> 'w" where
  "fetchResult C N k w =
     (case net_get N (''/requests/'' @ formatUint k) w of
        (Inl _, w') \<Rightarrow> (no_result, w')
      | (Inr (status, body), w') \<Rightarrow>
          if status \<noteq> 200 then (no_result, w')
          else (case ic_full C body of None \<Rightarrow> (no_result, w') | Some f \<Rightarrow> (f, w')))"

definition handleRequestFinalized ::
  "driver \<Rightarrow> idx_codec \<Rightarrow> 'w net \<Rightarrow> string \<Rightarrow> i64 \<Rightarrow> store \<times> 'w \<Rightarrow> store \<times> 'w" where
  "handleRequestFinalized Q C N payload height stw =
     (case stw of (st, w) \<Rightarrow>
      case ic_request_finalized C payload of
        None \<Rightarrow> (st, w)
      | Some p \<Rightarrow>
          (case fetchResult C N (irf_request_id p) w of (f, w') \<Rightarrow>
             (orKeep st (storeFinalize Q (irf_request_id p) (irf_provider p) (ifr_output_hash f)
                (ifr_output_uri f) (ifr_output_text f) (irf_paid_denom p) (irf_paid_amount p) height st), w')))"

definition handleRequestRefunded :: "driver \<Rightarrow> idx_codec \<Rightarrow> string \<Rightarrow> i64 \<Rightarrow> store \<Rightarrow> store" where
  "handleRequestRefunded Q C payload height st =
     (case ic_request_refunded C payload of
        None \<Rightarrow> st
      | Some k \<Rightarrow> orKeep st (storeRefund Q k height st))"

definition handleIndexed :: "driver \<Rightarrow> idx_codec \<Rightarrow> 'w net \<Rightarrow> indexed_event \<Rightarrow> store \<times> 'w \<Rightarrow> store \<times> 'w" where
  "handleIndexed Q C N ev stw =
     (let h = ie_height ev; p = ie_payload ev in
      if ie_type ev = ''ServiceRegistered'' then apfst (handleServiceRegistered Q C p h) stw
      else if ie_type ev = ''InferenceRequested'' then apfst (handleInferenceRequested Q C p h) stw
      else if ie_type ev = ''ResultSubmitted'' then apfst (handleResultSubmitted p h) stw
      else if ie_type ev = ''RequestFinalized'' then handleRequestFinalized Q C N p h stw
      else if ie_type ev = ''RequestRefunded'' then apfst (handleRequestRefunded Q C p h) stw
      else stw)"

definition ingestText :: "driver \<Rightarrow> idx_codec \<Rightarrow> 'w net \<Rightarrow> string \<Rightarrow> store \<times> 'w \<Rightarrow> store \<times> 'w" where
  "ingestText Q C N data stw = (case ic_event C data of None \<Rightarrow> stw | Some ev \<Rightarrow> handleIndexed Q C N ev stw)"

definition subscribeIndexer ::
  "driver \<Rightarrow> idx_codec \<Rightarrow> 'w net \<Rightarrow> (nat \<Rightarrow> bool) \<Rightarrow> string \<Rightarrow> store \<times> 'w \<Rightarrow> (string + unit) \<times> store \<times> 'w" where
  "subscribeIndexer Q C N cancelled stream stw = sseLoop cancelled (ingestText Q C N) 0 stream stw"

subsection \<open>The REST interface\<close>

datatype idx_body =
  IdxError "store_error + parse_error"
| IdxStatus string
| IdxServices "svc_row list" | IdxService svc_row
| IdxRequests "req_row list" | IdxRequest req_row
| IdxStats stats
| IdxNone

type_synonym idx_reply = "nat \<times> idx_body"

definition idxResult :: "store_error + 'a \<Rightarrow> ('a \<Rightarrow> idx_body) \<Rightarrow> idx_reply" where
  "idxResult r body = (case r of Inl e \<Rightarrow> (500, IdxError (Inl e)) | Inr x \<Rightarrow> (200, body x))"

definition idxById :: "string \<Rightarrow> (u64 \<Rightarrow> store_error + 'a) \<Rightarrow> ('a \<Rightarrow> idx_body) \<Rightarrow> idx_reply" where
  "idxById seg look body =
     (case parseUint seg of
        (_, Some e) \<Rightarrow> (400, IdxError (Inr e))
      | (k, None) \<Rightarrow>
          (case look k of
             Inl e \<Rightarrow> if e = ErrNotFound then (404, IdxError (Inl e)) else (500, IdxError (Inl e))
           | Inr x \<Rightarrow> (200, body x)))"

definition idxListServices :: "driver \<Rightarrow> store \<Rightarrow> idx_reply" where
  "idxListServices Q st = idxResult (storeListServices Q st) IdxServices"

definition idxGetService :: "driver \<Rightarrow> store \<Rightarrow> string \<Rightarrow> idx_reply" where
  "idxGetService Q st seg = idxById seg (storeGetService Q st) IdxService"

definition idxListRequests :: "driver \<Rightarrow> store \<Rightarrow> string \<Rightarrow> string \<Rightarrow> idx_reply" where
  "idxListRequests Q st status svc =
     idxResult (storeListRequests Q st status (fst (parseUint svc))) IdxRequests"

definition idxGetRequest :: "driver \<Rightarrow> store \<Rightarrow> string \<Rightarrow> idx_reply" where
  "idxGetRequest Q st seg = idxById seg (storeGetRequest Q st) IdxRequest"

definition idxStats :: "driver \<Rightarrow> store \<Rightarrow> idx_reply" where
  "idxStats Q st = idxResult (statsSummary Q st) IdxStats"

definition idxHealth :: idx_reply where
  "idxHealth = (200, IdxStatus ''ok'')"

text \<open>The routes, behind \<open>withCORS\<close>, which answers every \<open>OPTIONS\<close> itself.\<close>

definition idxRoute :: "driver \<Rightarrow> store \<Rightarrow> string \<Rightarrow> (string \<Rightarrow> string) \<Rightarrow> idx_reply option" where
  "idxRoute Q st path query =
     (if path = ''/health'' then Some idxHealth
      else if path = ''/services'' then Some (idxListServices Q st)
      else if path = ''/requests'' then Some (idxListRequests Q st (query ''status'') (query ''service_id''))
      else if path = ''/stats/summary'' then Some (idxStats Q st)
      else (case splitOn (CHR ''/'') path of
        [root, kind, seg] \<Rightarrow>
          if root \<noteq> '''' \<or> seg = '''' then None
          else if kind = ''services'' then Some (idxGetService Q st seg)
          else if kind = ''requests'' then Some (idxGetRequest Q st seg)
          else None
      | _ \<Rightarrow> None))"

definition idxServe :: "driver \<Rightarrow> store \<Rightarrow> string \<Rightarrow> string \<Rightarrow> (string \<Rightarrow> string) \<Rightarrow> idx_reply" where
  "idxServe Q st m path query =
     (if m = ''OPTIONS'' then (204, IdxNone)
      else case idxRoute Q st path query of
        None \<Rightarrow> (404, IdxStatus ''404 page not found'')
      | Some rep \<Rightarrow> if m = ''GET'' \<or> m = ''HEAD'' then rep else (405, IdxStatus ''Method Not Allowed''))"

end
