(* ===== verification/IndexerLaws.thy ===== *)
theory IndexerLaws
  imports Indexer
begin

text \<open>
  What the indexer's store promises. Every statement keeps the constraints of the schema
  (\<open>store_ok\<close>). A subscriber that reconnects is sent the recent events again, so ingestion has to be
  idempotent: the locale \<open>overwriting\<close> is the contract of an update that only overwrites columns, the
  request rows and the service rows interpret it, and \<open>ops_again\<close> is the conclusion for the store.
\<close>

subsection \<open>The constraints of the schema\<close>

definition keyed :: "('v \<Rightarrow> u64) \<Rightarrow> (u64, 'v) bucket \<Rightarrow> bool" where
  "keyed f b \<longleftrightarrow> bucket_ok b \<and> (\<forall>kv \<in> set b. f (snd kv) = fst kv)"

definition indexed_status :: "string \<Rightarrow> bool" where
  "indexed_status t \<longleftrightarrow> t = ''PENDING'' \<or> t = ''FINALIZED'' \<or> t = ''REFUNDED''"

definition store_ok :: "store \<Rightarrow> bool" where
  "store_ok st \<longleftrightarrow>
     keyed sr_id (st_services st) \<and> keyed rr_id (st_requests st)
     \<and> inj_on (sr_name \<circ> snd) (set (st_services st))
     \<and> (\<forall>kv \<in> set (st_requests st). map_of (st_services st) (rr_service_id (snd kv)) \<noteq> None
          \<and> indexed_status (rr_status (snd kv)))"

lemma set_bput: "bucket_ok b \<Longrightarrow> set (bput k v b) = insert (k, v) {e \<in> set b. fst e \<noteq> k}"
proof (induction b)
  case (Cons e b)
  then have lt: "\<And>x. x \<in> set b \<Longrightarrow> fst e < fst x" and "bucket_ok b"
    by (auto simp: bucket_ok_Cons)
  consider "k < fst e" | "k = fst e" | "fst e < k" by (rule linorder_cases)
  then show ?case
  proof cases
    case 1
    then show ?thesis using lt by fastforce
  next
    case 2
    then show ?thesis using lt by fastforce
  next
    case 3
    then show ?thesis using Cons.IH [OF \<open>bucket_ok b\<close>] by auto
  qed
qed simp

lemma keyed_bput: "keyed f b \<Longrightarrow> f v = k \<Longrightarrow> keyed f (bput k v b)"
  by (auto simp: keyed_def set_bput)

lemma keyed_get: "keyed f b \<Longrightarrow> map_of b k = Some v \<Longrightarrow> f v = k \<and> (k, v) \<in> set b"
  unfolding keyed_def by (metis fst_conv map_of_SomeD snd_conv)

lemma names_bput:
  assumes "bucket_ok b" and "inj_on (g \<circ> snd) (set b)"
    and "\<And>j w. (j, w) \<in> set b \<Longrightarrow> j \<noteq> k \<Longrightarrow> g w \<noteq> g v"
  shows "inj_on (g \<circ> snd) (set (bput k v b))"
proof (rule inj_onI)
  fix x y
  assume "x \<in> set (bput k v b)" and "y \<in> set (bput k v b)" and eq: "(g \<circ> snd) x = (g \<circ> snd) y"
  then consider "x = (k, v)" "y = (k, v)" | "x = (k, v)" "y \<in> set b" "fst y \<noteq> k"
    | "y = (k, v)" "x \<in> set b" "fst x \<noteq> k" | "x \<in> set b" "y \<in> set b"
    by (auto simp: set_bput [OF assms(1)])
  then show "x = y"
  proof cases
    case 2
    then show ?thesis using assms(3) [of "fst y" "snd y"] eq by simp
  next
    case 3
    then show ?thesis using assms(3) [of "fst x" "snd x"] eq by simp
  qed (use inj_onD [OF assms(2) eq] in auto)
qed

lemma orKeep_cases: "P st \<Longrightarrow> (\<And>st'. r = Inr st' \<Longrightarrow> P st') \<Longrightarrow> P (orKeep st r)"
  by (cases r) (auto simp: orKeep_def)

lemma runStmt_Inr: "runStmt Q n a r = Inr x \<longleftrightarrow> Q n a = None \<and> r = Inr x"
  by (auto simp: runStmt_def split: option.splits)

lemma upsertService_ok:
  assumes "store_ok st" and "upsertService Q svc st = Inr st'"
  shows "store_ok st'"
proof (cases "map_of (st_services st) (sr_id svc)")
  case None
  then have st': "st' = st\<lparr>st_services := bput (sr_id svc) svc (st_services st)\<rparr>"
    and new: "sr_name svc \<notin> sr_name ` snd ` set (st_services st)"
    using assms(2) by (auto simp: upsertService_def runStmt_Inr split: if_splits)
  have "inj_on (sr_name \<circ> snd) (set (st_services st'))"
    unfolding st' using assms(1) new
    by (auto simp: store_ok_def keyed_def intro!: names_bput) (metis image_eqI snd_conv)
  then show ?thesis
    using assms(1) by (auto simp: st' store_ok_def keyed_bput)
next
  case (Some old)
  then have st': "st' = st\<lparr>st_services := bput (sr_id svc)
      (old\<lparr>sr_owner := sr_owner svc, sr_description := sr_description svc, sr_price_denom := sr_price_denom svc,
         sr_price_amount := sr_price_amount svc, sr_active := sr_active svc\<rparr>) (st_services st)\<rparr>"
    using assms(2) by (auto simp: upsertService_def runStmt_Inr)
  have old: "sr_id old = sr_id svc" "(sr_id svc, old) \<in> set (st_services st)"
    using keyed_get [of sr_id] Some assms(1) by (auto simp: store_ok_def)
  have "inj_on (sr_name \<circ> snd) (set (st_services st'))"
  proof -
    have "sr_name w \<noteq> sr_name old" if "(j, w) \<in> set (st_services st)" "j \<noteq> sr_id svc" for j w
      using inj_onD [of "sr_name \<circ> snd" "set (st_services st)" "(j, w)" "(sr_id svc, old)"] assms(1) old(2) that
      by (auto simp: store_ok_def)
    then show ?thesis
      unfolding st' using assms(1) by (auto simp: store_ok_def keyed_def intro!: names_bput)
  qed
  then show ?thesis
    using assms(1) old(1) by (auto simp: st' store_ok_def keyed_bput)
qed

lemma requests_ok:
  assumes "store_ok st" and "rr_id r = k" and "map_of (st_services st) (rr_service_id r) \<noteq> None"
    and "indexed_status (rr_status r)"
  shows "store_ok (st\<lparr>st_requests := bput k r (st_requests st)\<rparr>)"
  using assms by (auto simp: store_ok_def keyed_bput) (auto simp: keyed_def set_bput)

lemma stored_request:
  assumes "store_ok st" and "map_of (st_requests st) k = Some r"
  shows "rr_id r = k" and "map_of (st_services st) (rr_service_id r) \<noteq> None"
  using assms keyed_get [of rr_id "st_requests st" k r] by (auto simp: store_ok_def)

lemma upsertRequest_ok:
  assumes "store_ok st" and "indexed_status (rr_status r)" and "upsertRequest Q r st = Inr st'"
  shows "store_ok st'"
proof (cases "map_of (st_requests st) (rr_id r)")
  case None
  then show ?thesis
    using assms(2,3) requests_ok [OF assms(1), of "inserted r" "rr_id r"]
    by (auto simp: upsertRequest_def runStmt_Inr inserted_def split: if_splits)
next
  case (Some old)
  then show ?thesis
    using assms(2,3) requests_ok [OF assms(1), of "old\<lparr>rr_status := rr_status r\<rparr>" "rr_id r"]
      stored_request [OF assms(1) Some]
    by (auto simp: upsertRequest_def runStmt_Inr)
qed

lemma updateRequest_ok:
  assumes "store_ok st" and "\<And>r. rr_id (f r) = rr_id r \<and> rr_service_id (f r) = rr_service_id r \<and> indexed_status (rr_status (f r))"
  shows "store_ok (updateRequest k f st)"
proof (cases "map_of (st_requests st) k")
  case (Some r)
  then show ?thesis
    using requests_ok [OF assms(1), of "f r"] stored_request [OF assms(1) Some] assms(2) [of r]
    by (simp add: updateRequest_def)
qed (simp add: updateRequest_def assms(1))

lemma handleIndexed_ok:
  assumes "store_ok (fst stw)"
  shows "store_ok (fst (handleIndexed Q C N ev stw))"
proof -
  obtain st w where stw: "stw = (st, w)" by fastforce
  have st: "store_ok st" using assms stw by simp
  note keep = orKeep_cases [where P = store_ok, OF st]
  have reg: "store_ok (handleServiceRegistered Q C p h st)" for p h
    by (cases "ic_service_registered C p")
      (auto simp: handleServiceRegistered_def st intro: keep upsertService_ok [OF st])
  have rq: "store_ok (handleInferenceRequested Q C p h st)" for p h
    by (cases "ic_inference_requested C p")
      (auto simp: handleInferenceRequested_def st indexed_status_def request_row_of_def
        intro!: keep elim!: upsertRequest_ok [OF st, rotated])
  have refund: "store_ok (handleRequestRefunded Q C p h st)" for p h
    by (cases "ic_request_refunded C p")
      (auto simp: handleRequestRefunded_def storeRefund_def st runStmt_Inr indexed_status_def
        intro!: keep updateRequest_ok [OF st])
  have final: "store_ok (fst (handleRequestFinalized Q C N p h (st, w)))" for p h
    by (cases "ic_request_finalized C p")
      (auto simp: handleRequestFinalized_def storeFinalize_def markFinalized_def st runStmt_Inr indexed_status_def
        split: prod.splits intro!: keep updateRequest_ok [OF st])
  show ?thesis
    using st reg rq refund final
    by (simp add: stw handleIndexed_def handleResultSubmitted_def Let_def)
qed

text \<open>What every call of the data handler keeps, the whole loop keeps.\<close>

lemma sseLoop_keeps:
  assumes "\<And>d s. P s \<Longrightarrow> P (on_data d s)" and "P st"
  shows "P (snd (sseLoop cancelled on_data i stream st))"
  using assms
proof (induction cancelled on_data i stream st rule: sseLoop.induct)
  case (1 cancelled on_data i stream st)
  show ?case
  proof (cases "cancelled i \<or> readString newline stream = None")
    case True
    then show ?thesis using 1(3) by (subst sseLoop.simps) auto
  next
    case False
    then obtain line rest where "\<not> cancelled i" and "readString newline stream = Some (line, rest)" by auto
    then show ?thesis
      using 1(1) [of "(line, rest)" line rest] 1(2,3)
      by (subst sseLoop.simps) (simp split: option.split)
  qed
qed

lemma ingestText_ok: "store_ok (fst stw) \<Longrightarrow> store_ok (fst (ingestText Q C N d stw))"
  by (simp add: ingestText_def handleIndexed_ok split: option.split)

lemma subscribeIndexer_ok:
  "store_ok (fst stw) \<Longrightarrow> store_ok (fst (snd (subscribeIndexer Q C N cancelled stream stw)))"
  unfolding subscribeIndexer_def
  by (rule sseLoop_keeps [where P = "\<lambda>stw. store_ok (fst stw)"]) (simp_all add: ingestText_ok)

lemma store_ok_empty: "store_ok empty_store"
  by (simp add: store_ok_def empty_store_def keyed_def)

subsection \<open>Updates that overwrite columns\<close>

locale overwriting =
  fixes assign :: "'a \<Rightarrow> 'r \<Rightarrow> 'r"
    and merge :: "'a \<Rightarrow> 'a \<Rightarrow> 'a"
  assumes assign_merge: "assign b (assign a r) = assign (merge a b) r"
    and assign_again: "assign a (assign a r) = assign a r"
begin

lemma fold_one: "as \<noteq> [] \<Longrightarrow> \<exists>m. \<forall>r. fold assign as r = assign m r"
proof (induction as)
  case (Cons a as)
  show ?case
  proof (cases "as = []")
    case False
    then obtain m where "\<forall>r. fold assign as r = assign m r" using Cons by blast
    then have "\<forall>r. fold assign (a # as) r = assign (merge a m) r" by (simp add: assign_merge)
    then show ?thesis by blast
  qed auto
qed simp

lemma fold_again: "fold assign as (fold assign as r) = fold assign as r"
proof (cases "as = []")
  case False
  then obtain m where "\<forall>r. fold assign as r = assign m r" using fold_one by blast
  then show ?thesis by (simp add: assign_again)
qed simp

end

record req_columns =
  q_status :: string
  q_final :: "i64 option"
  q_result :: "(string \<times> string \<times> string \<times> string \<times> string \<times> u64) option"

definition orElse :: "'a option \<Rightarrow> 'a option \<Rightarrow> 'a option" where
  "orElse a b = (case b of None \<Rightarrow> a | Some _ \<Rightarrow> b)"

definition setResult ::
  "(string \<times> string \<times> string \<times> string \<times> string \<times> u64) option \<Rightarrow> req_row \<Rightarrow> req_row" where
  "setResult x r =
     (case x of None \<Rightarrow> r
      | Some (p, oh, uri, txt, d, n) \<Rightarrow>
          r\<lparr>rr_provider := Some p, rr_output_hash := Some oh, rr_output_uri := Some uri,
            rr_output_text := Some txt, rr_paid_denom := Some d, rr_paid_amount := Some n\<rparr>)"

definition assignReq :: "req_columns \<Rightarrow> req_row \<Rightarrow> req_row" where
  "assignReq a r =
     setResult (q_result a)
       (r\<lparr>rr_status := q_status a, rr_finalized_at := orElse (rr_finalized_at r) (q_final a)\<rparr>)"

definition mergeReq :: "req_columns \<Rightarrow> req_columns \<Rightarrow> req_columns" where
  "mergeReq a b = \<lparr>q_status = q_status b, q_final = orElse (q_final a) (q_final b),
     q_result = orElse (q_result a) (q_result b)\<rparr>"

interpretation req_over: overwriting assignReq mergeReq
  by unfold_locales
    (auto simp: assignReq_def mergeReq_def setResult_def orElse_def split: option.splits prod.splits)

text \<open>A service event overwrites its columns with those of its row.\<close>

definition assignSvc :: "svc_row \<Rightarrow> svc_row \<Rightarrow> svc_row" where
  "assignSvc svc old =
     old\<lparr>sr_owner := sr_owner svc, sr_description := sr_description svc,
         sr_price_denom := sr_price_denom svc, sr_price_amount := sr_price_amount svc,
         sr_active := sr_active svc\<rparr>"

interpretation svc_over: overwriting assignSvc "\<lambda>a b. b"
  by unfold_locales (auto simp: assignSvc_def)

subsection \<open>Ingestion as a sequence of operations\<close>

text \<open>What an event asks of the store when no statement fails.\<close>

datatype idx_op = PutService svc_row | PutRequest req_row | ChangeRequest u64 req_columns

fun run_op :: "idx_op \<Rightarrow> store \<Rightarrow> store" where
  "run_op (PutService svc) st =
     (case map_of (st_services st) (sr_id svc) of
        Some old \<Rightarrow> st\<lparr>st_services := bput (sr_id svc) (assignSvc svc old) (st_services st)\<rparr>
      | None \<Rightarrow> st\<lparr>st_services := bput (sr_id svc) svc (st_services st)\<rparr>)"
| "run_op (PutRequest r) st =
     (case map_of (st_requests st) (rr_id r) of
        Some old \<Rightarrow> st\<lparr>st_requests := bput (rr_id r) (old\<lparr>rr_status := rr_status r\<rparr>) (st_requests st)\<rparr>
      | None \<Rightarrow> st\<lparr>st_requests := bput (rr_id r) (inserted r) (st_requests st)\<rparr>)"
| "run_op (ChangeRequest k a) st = updateRequest k (assignReq a) st"

text \<open>
  When an operation meets what it needs: a new service has a new name, a new request a known service,
  a change a known request. This is how the chain emits its events.
\<close>

fun fits :: "idx_op \<Rightarrow> store \<Rightarrow> bool" where
  "fits (PutService svc) st \<longleftrightarrow>
     map_of (st_services st) (sr_id svc) \<noteq> None \<or> sr_name svc \<notin> sr_name ` snd ` set (st_services st)"
| "fits (PutRequest r) st \<longleftrightarrow>
     map_of (st_requests st) (rr_id r) \<noteq> None \<or> map_of (st_services st) (rr_service_id r) \<noteq> None"
| "fits (ChangeRequest k a) st \<longleftrightarrow> map_of (st_requests st) k \<noteq> None"

fun ops_fit :: "idx_op list \<Rightarrow> store \<Rightarrow> bool" where
  "ops_fit [] st = True"
| "ops_fit (op # ops) st \<longleftrightarrow> fits op st \<and> ops_fit ops (run_op op st)"

fun known :: "idx_op \<Rightarrow> store \<Rightarrow> bool" where
  "known (PutService svc) st \<longleftrightarrow> map_of (st_services st) (sr_id svc) \<noteq> None"
| "known (PutRequest r) st \<longleftrightarrow> map_of (st_requests st) (rr_id r) \<noteq> None"
| "known (ChangeRequest k a) st \<longleftrightarrow> map_of (st_requests st) k \<noteq> None"

definition run_ops :: "idx_op list \<Rightarrow> store \<Rightarrow> store" where
  "run_ops ops st = fold run_op ops st"

lemma known_fits: "known op st \<Longrightarrow> fits op st"
  by (cases op) auto

lemma run_op_grows:
  "map_of (st_services st) k \<noteq> None \<Longrightarrow> map_of (st_services (run_op op st)) k \<noteq> None"
  "map_of (st_requests st) k \<noteq> None \<Longrightarrow> map_of (st_requests (run_op op st)) k \<noteq> None"
  by (cases op; auto simp: updateRequest_def split: option.splits)+

lemma known_run: "known op st \<Longrightarrow> known op (run_op op' st)"
  by (cases op) (auto simp del: not_None_eq simp: run_op_grows)

lemma known_after: "fits op st \<Longrightarrow> known op (run_op op st)"
  by (cases op) (auto simp: updateRequest_def split: option.splits)

lemma ops_known: "ops_fit ops st \<Longrightarrow> op \<in> set ops \<Longrightarrow> known op (run_ops ops st)"
proof (induction ops arbitrary: st)
  case (Cons a ops)
  have keep: "known op st \<Longrightarrow> known op (run_ops ops st)" for st
    unfolding run_ops_def by (induction ops arbitrary: st) (auto simp: known_run)
  show ?case
    using Cons keep known_after [of a st] by (auto simp: run_ops_def)
qed simp

lemma known_ops_fit: "(\<And>op. op \<in> set ops \<Longrightarrow> known op st) \<Longrightarrow> ops_fit ops st"
  by (induction ops arbitrary: st) (auto simp: known_fits known_run)

text \<open>The columns that an operation overwrites in the row of a request, and of a service.\<close>

fun req_touch :: "u64 \<Rightarrow> idx_op \<Rightarrow> req_columns option" where
  "req_touch k (PutRequest r) =
     (if rr_id r = k then Some \<lparr>q_status = rr_status r, q_final = None, q_result = None\<rparr> else None)"
| "req_touch k (ChangeRequest j a) = (if j = k then Some a else None)"
| "req_touch k (PutService svc) = None"

fun svc_touch :: "u64 \<Rightarrow> idx_op \<Rightarrow> svc_row option" where
  "svc_touch k (PutService svc) = (if sr_id svc = k then Some svc else None)"
| "svc_touch k op = None"

fun first_row :: "u64 \<Rightarrow> idx_op list \<Rightarrow> req_row option" where
  "first_row k [] = None"
| "first_row k (PutRequest r # ops) = (if rr_id r = k then Some (inserted r) else first_row k ops)"
| "first_row k (_ # ops) = first_row k ops"

fun first_svc :: "u64 \<Rightarrow> idx_op list \<Rightarrow> svc_row option" where
  "first_svc k [] = None"
| "first_svc k (PutService svc # ops) = (if sr_id svc = k then Some svc else first_svc k ops)"
| "first_svc k (_ # ops) = first_svc k ops"

lemma row_after:
  "ops_fit ops st \<Longrightarrow> map_of (st_requests (run_ops ops st)) k =
     map_option (fold assignReq (List.map_filter (req_touch k) ops))
       (case map_of (st_requests st) k of None \<Rightarrow> first_row k ops | Some r \<Rightarrow> Some r)"
proof (induction ops arbitrary: st)
  case Nil
  then show ?case by (auto simp: run_ops_def List.map_filter_simps option.map_id0 split: option.split)
next
  case (Cons op ops)
  then have IH: "map_of (st_requests (run_ops (op # ops) st)) k =
     map_option (fold assignReq (List.map_filter (req_touch k) ops))
       (case map_of (st_requests (run_op op st)) k of None \<Rightarrow> first_row k ops | Some r \<Rightarrow> Some r)"
    by (simp add: run_ops_def)
  have ins: "(inserted r)\<lparr>rr_status := rr_status r\<rparr> = inserted r" for r
    by (simp add: inserted_def)
  have status: "assignReq \<lparr>q_status = t, q_final = None, q_result = None\<rparr> r = r\<lparr>rr_status := t\<rparr>" for t r
    by (simp add: assignReq_def setResult_def orElse_def)
  show ?case
    unfolding IH using Cons.prems
    by (cases op) (auto simp: List.map_filter_simps ins status updateRequest_def split: option.splits)
qed

lemma svc_after:
  "map_of (st_services (run_ops ops st)) k =
     map_option (fold assignSvc (List.map_filter (svc_touch k) ops))
       (case map_of (st_services st) k of None \<Rightarrow> first_svc k ops | Some r \<Rightarrow> Some r)"
proof (induction ops arbitrary: st)
  case Nil
  then show ?case by (auto simp: run_ops_def List.map_filter_simps option.map_id0 split: option.split)
next
  case (Cons op ops)
  then have IH: "map_of (st_services (run_ops (op # ops) st)) k =
     map_option (fold assignSvc (List.map_filter (svc_touch k) ops))
       (case map_of (st_services (run_op op st)) k of None \<Rightarrow> first_svc k ops | Some r \<Rightarrow> Some r)"
    by (simp add: run_ops_def)
  have ins: "assignSvc svc svc = svc" for svc by (simp add: assignSvc_def)
  show ?case
    unfolding IH
    by (cases op) (auto simp: List.map_filter_simps ins updateRequest_def split: option.splits)
qed

lemma bucket_eqI:
  assumes "bucket_ok b" and "bucket_ok c" and "map_of b = map_of c"
  shows "b = c"
proof (rule map_sorted_distinct_set_unique [of fst])
  have eq: "set b = set c"
    using map_of_bucket [OF assms(1)] map_of_bucket [OF assms(2)] assms(3) by auto
  then show "set b = set c" .
  show "inj_on fst (set b \<union> set c)"
    using bucket_ok_distinct [OF assms(1)] eq by (simp add: distinct_map)
  show "sorted (map fst b)" "sorted (map fst c)"
    using assms(1,2) by (simp_all add: bucket_ok_def strict_sorted_iff)
  show "distinct (map fst b)" "distinct (map fst c)"
    using assms(1,2) by (simp_all add: bucket_ok_distinct)
qed

lemma run_op_buckets:
  "bucket_ok (st_services st) \<Longrightarrow> bucket_ok (st_services (run_op op st))"
  "bucket_ok (st_requests st) \<Longrightarrow> bucket_ok (st_requests (run_op op st))"
  by (cases op; auto simp: updateRequest_def split: option.splits)+

lemma run_ops_buckets:
  "bucket_ok (st_services st) \<Longrightarrow> bucket_ok (st_services (run_ops ops st))"
  "bucket_ok (st_requests st) \<Longrightarrow> bucket_ok (st_requests (run_ops ops st))"
  unfolding run_ops_def by (induction ops arbitrary: st) (auto simp: run_op_buckets)

lemma again_row:
  assumes "\<And>r. F (F r) = F r"
    and "m = map_option F (case m0 of None \<Rightarrow> f | Some r \<Rightarrow> Some r)"
    and "m' = map_option F (case m of None \<Rightarrow> f | Some r \<Rightarrow> Some r)"
  shows "m' = m"
  using assms by (cases m0; cases f) auto

text \<open>Running a sequence that has just been run changes nothing.\<close>

lemma ops_again:
  assumes "ops_fit ops st" and "bucket_ok (st_services st)" and "bucket_ok (st_requests st)"
  shows "run_ops ops (run_ops ops st) = run_ops ops st"
proof -
  let ?s = "run_ops ops st"
  have fit: "ops_fit ops ?s" by (rule known_ops_fit) (rule ops_known [OF assms(1)])
  have "map_of (st_requests (run_ops ops ?s)) k = map_of (st_requests ?s) k" for k
    by (rule again_row [OF _ row_after [OF assms(1)] row_after [OF fit]]) (simp add: req_over.fold_again)
  moreover have "map_of (st_services (run_ops ops ?s)) k = map_of (st_services ?s) k" for k
    by (rule again_row [OF _ svc_after svc_after]) (simp add: svc_over.fold_again)
  ultimately have "st_requests (run_ops ops ?s) = st_requests ?s" "st_services (run_ops ops ?s) = st_services ?s"
    by (auto intro!: bucket_eqI simp: run_ops_buckets assms fun_eq_iff)
  then show ?thesis by (intro store.equality) simp_all
qed

end
