(* ===== verification/IndexerSpec.thy ===== *)
theory IndexerSpec
  imports IndexerLaws GatewaySpec
begin

text \<open>
  Properties of the indexer: the invariant of its store for any bytes that it may read, what its
  listings and statistics say, that reading the recent events again after a reconnection changes
  nothing, and what it never learns of disputes.
\<close>

section \<open>The store\<close>

text \<open>The store and the world after a series of connections, each cancelled and fed as it may be.\<close>

definition afterConnections ::
  "driver \<Rightarrow> idx_codec \<Rightarrow> 'w net \<Rightarrow> ((nat \<Rightarrow> bool) \<times> string) list \<Rightarrow> store \<times> 'w \<Rightarrow> store \<times> 'w" where
  "afterConnections Q C N conns stw = fold (\<lambda>(cancelled, stream) stw. snd (subscribeIndexer Q C N cancelled stream stw)) conns stw"

lemma afterConnections_ok:
  "store_ok (fst stw) \<Longrightarrow> store_ok (fst (afterConnections Q C N conns stw))"
proof (induction conns arbitrary: stw)
  case (Cons c conns)
  have "store_ok (fst (snd (subscribeIndexer Q C N (fst c) (snd c) stw)))"
    by (rule subscribeIndexer_ok [OF Cons.prems])
  then show ?case
    using Cons.IH by (simp add: afterConnections_def case_prod_beta)
qed (simp add: afterConnections_def)

lemma status_counts:
  "\<forall>kv \<in> set b. indexed_status (rr_status (snd kv)) \<Longrightarrow>
   length (filter (\<lambda>r. rr_status r = ''FINALIZED'') (map snd b)) + length (filter (\<lambda>r. rr_status r = ''PENDING'') (map snd b))
     + length (filter (\<lambda>r. rr_status r = ''REFUNDED'') (map snd b)) = length b"
  by (induction b) (auto simp: indexed_status_def)

lemma keyed_descending:
  assumes "keyed rr_id b"
  shows "sorted_wrt (\<lambda>x y. rr_id y < rr_id x) (rev (filter P (map snd b)))"
proof -
  have "sorted_wrt (<) (map fst b)" and eq: "map rr_id (map snd b) = map fst b"
    using assms by (auto simp: keyed_def bucket_ok_def)
  then have "sorted_wrt (\<lambda>x y. rr_id x < rr_id y) (map snd b)"
    by (metis (mono_tags, lifting) sorted_wrt_map sorted_wrt_mono_rel)
  then show ?thesis
    by (simp add: sorted_wrt_filter sorted_wrt_rev)
qed

text \<open>C23: Whatever bytes the indexer reads over whatever connections, its store satisfies the schema:
  one row per id, distinct service names, every request refers to a stored service and is pending,
  finalized or refunded. So the three counts of \<open>/stats/summary\<close> add up to the total, and a listing of
  requests holds at most 200 rows, latest first, all of them stored and as asked, and all such rows if
  it holds fewer than 200.\<close>

theorem indexer_store_invariant:
  "let st = fst (afterConnections Q C N conns (empty_store, w)) in
   store_ok st
   \<and> (case statsSummary Q st of Inl e \<Rightarrow> True
      | Inr x \<Rightarrow> sts_requests_total x = sts_requests_finalized x + sts_requests_pending x + sts_requests_refunded x)
   \<and> (case storeListRequests Q st status svc of Inl e \<Rightarrow> True
      | Inr rows \<Rightarrow>
          let asked = {r \<in> snd ` set (st_requests st). (if status = '''' then True else rr_status r = status)
                        \<and> (if svc = 0 then True else rr_service_id r = svc)} in
          length rows \<le> 200 \<and> sorted_wrt (\<lambda>a b. rr_id b < rr_id a) rows \<and> set rows \<subseteq> asked
          \<and> (if length rows < 200 then set rows = asked else True))"
proof -
  define st where "st = fst (afterConnections Q C N conns (empty_store, w))"
  have ok: "store_ok st"
    unfolding st_def by (rule afterConnections_ok) (simp add: store_ok_empty)
  have counts: "case statsSummary Q st of Inl e \<Rightarrow> True
      | Inr x \<Rightarrow> sts_requests_total x = sts_requests_finalized x + sts_requests_pending x + sts_requests_refunded x"
    using status_counts [of "st_requests st"] ok
    by (auto simp: statsSummary_def runStmt_def countStatus_def store_ok_def split: option.splits)
  let ?P = "\<lambda>r. (status \<noteq> '''' \<longrightarrow> rr_status r = status) \<and> (svc \<noteq> 0 \<longrightarrow> rr_service_id r = svc)"
  let ?all = "rev (filter ?P (map snd (st_requests st)))"
  have "sorted_wrt (\<lambda>a b. rr_id b < rr_id a) ?all"
    using ok by (intro keyed_descending) (simp add: store_ok_def)
  then have sorted: "sorted_wrt (\<lambda>a b. rr_id b < rr_id a) (take 200 ?all)"
    by (rule sorted_wrt_take)
  have "set ?all = {r \<in> snd ` set (st_requests st). (if status = '''' then True else rr_status r = status)
                        \<and> (if svc = 0 then True else rr_service_id r = svc)}"
    by auto
  moreover have "set (take 200 ?all) \<subseteq> set ?all"
    by (rule set_take_subset)
  moreover have "length (take 200 ?all) < 200 \<Longrightarrow> take 200 ?all = ?all"
    by (simp add: min_def split: if_splits)
  ultimately have "case storeListRequests Q st status svc of Inl e \<Rightarrow> True
      | Inr rows \<Rightarrow>
          let asked = {r \<in> snd ` set (st_requests st). (if status = '''' then True else rr_status r = status)
                        \<and> (if svc = 0 then True else rr_service_id r = svc)} in
          length rows \<le> 200 \<and> sorted_wrt (\<lambda>a b. rr_id b < rr_id a) rows \<and> set rows \<subseteq> asked
          \<and> (if length rows < 200 then set rows = asked else True)"
    using sorted unfolding storeListRequests_def runStmt_def Let_def
    by (cases "Q ''ListRequests'' (if svc \<noteq> 0 then [svc] else [])") simp_all
  with ok counts show ?thesis
    unfolding st_def [symmetric] Let_def by blast
qed

section \<open>Ingesting the events of the chain\<close>

text \<open>What \<open>json.Unmarshal\<close> keeps of the payloads that the indexer reads.\<close>

definition service_payload :: "service_registered_payload \<Rightarrow> idx_service_registered" where
  "service_payload x =
     \<lparr>isr_service_id = esr_service_id x, isr_owner = esr_owner x, isr_name = esr_name x,
      isr_description = esr_description x, isr_price_denom = denom (esr_price x), isr_price_amount = amount (esr_price x)\<rparr>"

definition request_payload :: "inference_requested_payload \<Rightarrow> idx_inference_requested" where
  "request_payload x =
     \<lparr>iir_request_id = eir_request_id x, iir_service_id = eir_service_id x, iir_requester = eir_requester x,
      iir_input_hash = eir_input_hash x, iir_input_uri = eir_input_uri x, iir_input_text = eir_input_text x,
      iir_escrow_denom = denom (eir_escrow x), iir_escrow_amount = amount (eir_escrow x), iir_deadline = eir_deadline x\<rparr>"

definition finalized_payload :: "request_finalized_payload \<Rightarrow> idx_request_finalized" where
  "finalized_payload x =
     \<lparr>irf_request_id = erf_request_id x, irf_provider = erf_provider x, irf_paid_denom = denom (erf_paid x),
      irf_paid_amount = amount (erf_paid x)\<rparr>"

definition payload_agrees :: "idx_codec \<Rightarrow> event_payload \<Rightarrow> string \<Rightarrow> bool" where
  "payload_agrees C p t =
     (case p of
        ServiceRegistered x \<Rightarrow> ic_service_registered C t = Some (service_payload x)
      | InferenceRequested x \<Rightarrow> ic_inference_requested C t = Some (request_payload x)
      | RequestFinalized x \<Rightarrow> ic_request_finalized C t = Some (finalized_payload x)
      | RequestRefunded x \<Rightarrow> ic_request_refunded C t = Some (err_request_id x)
      | _ \<Rightarrow> True)"

text \<open>The chain's encoder and the indexer's decoders agree on the wire format of these events.\<close>

definition idx_wire :: "idx_codec \<Rightarrow> (event \<Rightarrow> string option) \<Rightarrow> (i64 \<times> event_payload) list \<Rightarrow> bool" where
  "idx_wire C enc evs \<longleftrightarrow> enc_ok enc \<and>
     list_all (\<lambda>(h, p). \<exists>j t. enc (mk_event h p) = Some j
        \<and> ic_event C j = Some \<lparr>ie_type = event_type_of p, ie_height = h, ie_payload = t\<rparr> \<and> payload_agrees C p t) evs"

text \<open>The SQLite driver takes every integer below \<open>2 ^ 63\<close>, and the ids and amounts of the event are such.\<close>

definition takes_small :: "driver \<Rightarrow> bool" where
  "takes_small Q \<longleftrightarrow> (\<forall>name args. list_all (\<lambda>x. x < 2 ^ 63) args \<longrightarrow> Q name args = None)"

fun small_event :: "event_payload \<Rightarrow> bool" where
  "small_event (ServiceRegistered x) \<longleftrightarrow> esr_service_id x < 2 ^ 63 \<and> amount (esr_price x) < 2 ^ 63"
| "small_event (InferenceRequested x) \<longleftrightarrow>
     eir_request_id x < 2 ^ 63 \<and> eir_service_id x < 2 ^ 63 \<and> amount (eir_escrow x) < 2 ^ 63"
| "small_event (RequestFinalized x) \<longleftrightarrow> erf_request_id x < 2 ^ 63 \<and> amount (erf_paid x) < 2 ^ 63"
| "small_event (RequestRefunded x) \<longleftrightarrow> err_request_id x < 2 ^ 63"
| "small_event _ \<longleftrightarrow> True"

text \<open>What an event of the chain asks of the store, when the chain answers \<open>ans k\<close> for the result of \<open>k\<close>.\<close>

fun op_of :: "(u64 \<Rightarrow> idx_result) \<Rightarrow> i64 \<times> event_payload \<Rightarrow> idx_op option" where
  "op_of ans (h, ServiceRegistered x) = Some (PutService (service_row_of (service_payload x) h))"
| "op_of ans (h, InferenceRequested x) = Some (PutRequest (request_row_of (request_payload x) h))"
| "op_of ans (h, RequestFinalized x) =
     (let f = ans (erf_request_id x) in
      Some (ChangeRequest (erf_request_id x) \<lparr>q_status = ''FINALIZED'', q_final = Some h,
        q_result = Some (erf_provider x, ifr_output_hash f, ifr_output_uri f, ifr_output_text f,
          denom (erf_paid x), amount (erf_paid x))\<rparr>))"
| "op_of ans (h, RequestRefunded x) =
     Some (ChangeRequest (err_request_id x) \<lparr>q_status = ''REFUNDED'', q_final = Some h, q_result = None\<rparr>)"
| "op_of ans (h, _) = None"

definition runs :: "idx_op option \<Rightarrow> store \<Rightarrow> store" where
  "runs op st = (case op of None \<Rightarrow> st | Some op \<Rightarrow> run_op op st)"

lemma upsertService_runs:
  assumes "Q ''UpsertService'' [sr_id svc, sr_price_amount svc, sr_domain_id svc] = None" and "fits (PutService svc) st"
  shows "orKeep st (upsertService Q svc st) = run_op (PutService svc) st"
  using assms by (auto simp: upsertService_def runStmt_def orKeep_def assignSvc_def split: option.splits)

lemma upsertRequest_runs:
  assumes "Q ''UpsertRequest'' [rr_id r, rr_service_id r, rr_escrow_amount r] = None" and "fits (PutRequest r) st"
  shows "orKeep st (upsertRequest Q r st) = run_op (PutRequest r) st"
  using assms by (auto simp: upsertRequest_def runStmt_def orKeep_def split: option.splits)

lemma handleIndexed_runs:
  assumes drv: "takes_small Q" and "\<And>k w. fetchResult C N k w = (ans k, w)" and agree: "payload_agrees C p t" and small: "small_event p"
    and fit: "case op_of ans (h, p) of None \<Rightarrow> True | Some op \<Rightarrow> fits op st"
  shows "handleIndexed Q C N \<lparr>ie_type = event_type_of p, ie_height = h, ie_payload = t\<rparr> (st, w)
    = (runs (op_of ans (h, p)) st, w)"
proof (cases p)
  case (ServiceRegistered x)
  then have "orKeep st (upsertService Q (service_row_of (service_payload x) h) st) =
      run_op (PutService (service_row_of (service_payload x) h)) st"
    using drv small fit by (intro upsertService_runs) (auto simp: takes_small_def service_row_of_def service_payload_def)
  then show ?thesis
    using agree by (simp add: ServiceRegistered handleIndexed_def handleServiceRegistered_def payload_agrees_def runs_def)
next
  case (InferenceRequested x)
  then have "orKeep st (upsertRequest Q (request_row_of (request_payload x) h) st) =
      run_op (PutRequest (request_row_of (request_payload x) h)) st"
    using drv small fit by (intro upsertRequest_runs) (auto simp: takes_small_def request_row_of_def request_payload_def)
  then show ?thesis
    using agree by (simp add: InferenceRequested handleIndexed_def handleInferenceRequested_def payload_agrees_def runs_def)
next
  case (RequestFinalized x)
  have "markFinalized a b c d e f h = assignReq \<lparr>q_status = ''FINALIZED'', q_final = Some h, q_result = Some (a, b, c, d, e, f)\<rparr>"
    for a b c d e f
    by (simp add: fun_eq_iff markFinalized_def assignReq_def setResult_def orElse_def)
  then show ?thesis
    using drv small agree assms(2)
    by (simp add: RequestFinalized handleIndexed_def handleRequestFinalized_def payload_agrees_def runs_def takes_small_def
        storeFinalize_def runStmt_def orKeep_def Let_def finalized_payload_def)
next
  case (RequestRefunded x)
  have "(\<lambda>r. r\<lparr>rr_status := ''REFUNDED'', rr_finalized_at := Some h\<rparr>) =
      assignReq \<lparr>q_status = ''REFUNDED'', q_final = Some h, q_result = None\<rparr>"
    by (simp add: fun_eq_iff assignReq_def setResult_def orElse_def)
  then show ?thesis
    using drv small agree
    by (simp add: RequestRefunded handleIndexed_def handleRequestRefunded_def payload_agrees_def runs_def takes_small_def
        storeRefund_def runStmt_def orKeep_def)
qed (simp_all add: handleIndexed_def runs_def handleResultSubmitted_def)

text \<open>The stream that the indexer reads when the chain sends these events; it asks for all types.\<close>

definition stream_of :: "(event \<Rightarrow> string option) \<Rightarrow> (i64 \<times> event_payload) list \<Rightarrow> string" where
  "stream_of enc evs = eventsH enc '''' (map (\<lambda>(h, p). Incoming (mk_event h p)) evs)"

lemma wantedTypes_none: "wantedTypes '''' = []"
proof -
  have "trimLeftRunes rs [] = []" for rs
    by (rule trimLeftRunes_none) (simp add: hasPrefix_def)
  then show ?thesis by (simp add: wantedTypes_def trimSpace_def)
qed

lemma delivered_all: "delivered (map (\<lambda>(h, p). Incoming (mk_event h p)) evs) = map (\<lambda>(h, p). mk_event h p) evs"
  by (induction evs) auto

lemma read_stream:
  assumes "enc_ok enc"
  shows "snd (subscribeIndexer Q C N (\<lambda>_. False) (stream_of enc evs) stw) =
    fold (ingestText Q C N) (List.map_filter enc (map (\<lambda>(h, p). mk_event h p) evs)) stw"
proof -
  have "newline \<notin> set (ev_type ev) \<and> CHR 0x0D \<notin> set (ev_type ev)"
    if "Incoming ev \<in> set (map (\<lambda>(h, p). Incoming (mk_event h p)) evs)" for ev
    using that event_type_plain by (auto simp: mk_event_def)
  moreover have "filter (wants []) xs = xs" for xs
    by (simp add: wants_def)
  ultimately show ?thesis
    using sseLoop_eventsLoop [of "\<lambda>_. False" enc "map (\<lambda>(h, p). Incoming (mk_event h p)) evs" "ingestText Q C N" 0 "[]" stw] assms
    by (simp add: subscribeIndexer_def stream_of_def eventsH_def wantedTypes_none delivered_all)
qed

lemma stream_runs:
  assumes wire: "idx_wire C enc evs" and drv: "takes_small Q" and net: "\<And>k w. fetchResult C N k w = (ans k, w)"
    and small: "list_all (\<lambda>(h, p). small_event p) evs" and fit: "ops_fit (List.map_filter (op_of ans) evs) st"
  shows "snd (subscribeIndexer Q C N (\<lambda>_. False) (stream_of enc evs) (st, w)) =
    (run_ops (List.map_filter (op_of ans) evs) st, w)"
proof -
  have "fold (ingestText Q C N) (List.map_filter enc (map (\<lambda>(h, p). mk_event h p) evs)) (st, w) =
    (run_ops (List.map_filter (op_of ans) evs) st, w)"
    using wire small fit
  proof (induction evs arbitrary: st)
    case (Cons e evs)
    obtain h p where e: "e = (h, p)" by fastforce
    obtain j t where j: "enc (mk_event h p) = Some j"
      "ic_event C j = Some \<lparr>ie_type = event_type_of p, ie_height = h, ie_payload = t\<rparr>" "payload_agrees C p t"
      using Cons.prems(1) by (auto simp: idx_wire_def e)
    have "ingestText Q C N j (st, w) = (runs (op_of ans (h, p)) st, w)"
      using handleIndexed_runs [OF drv net j(3)] Cons.prems
      by (auto simp: ingestText_def j(2) e List.map_filter_simps split: option.splits)
    moreover have "idx_wire C enc evs"
      using Cons.prems(1) by (simp add: idx_wire_def)
    ultimately show ?case
      using Cons.IH [of "runs (op_of ans (h, p)) st"] Cons.prems
      by (cases "op_of ans (h, p)") (auto simp: e j(1) List.map_filter_simps runs_def run_ops_def)
  qed (simp add: List.map_filter_simps run_ops_def)
  then show ?thesis
    using read_stream [of enc Q C N evs "(st, w)"] wire by (simp add: idx_wire_def)
qed

lemma ops_fit_append: "ops_fit (xs @ ys) st \<longleftrightarrow> ops_fit xs st \<and> ops_fit ys (run_ops xs st)"
  by (induction xs arbitrary: st) (auto simp: run_ops_def)

lemma run_ops_append: "run_ops (xs @ ys) st = run_ops ys (run_ops xs st)"
  by (simp add: run_ops_def)

lemma map_filter_append: "List.map_filter f (xs @ ys) = List.map_filter f xs @ List.map_filter f ys"
  by (induction xs) (auto simp: List.map_filter_simps split: option.split)

text \<open>C22: Reconnecting is harmless: an indexer that has read the events \<open>old @ recent\<close> of the chain in
  order, and then reads the recent ones again over a new connection, ends with exactly the store it
  had. The events are those a chain emits, so that each finds the service and the request that it is
  about (\<open>ops_fit\<close>), their integers are below \<open>2 ^ 63\<close>, and the chain's answer about a finalized request
  does not change.\<close>

theorem indexer_replay_converges:
  assumes "idx_wire C enc (old @ recent)" and "takes_small Q" and "\<forall>k w. fetchResult C N k w = (ans k, w)"
    and "list_all (\<lambda>(h, p). small_event p) (old @ recent)" and "store_ok st"
    and "ops_fit (List.map_filter (op_of ans) (old @ recent)) st"
  shows "\<exists>st'. snd (subscribeIndexer Q C N (\<lambda>_. False) (stream_of enc (old @ recent)) (st, w)) = (st', w)
    \<and> snd (subscribeIndexer Q C N (\<lambda>_. False) (stream_of enc recent) (st', w)) = (st', w)"
proof -
  note net = assms(3) [rule_format]
  let ?o = "List.map_filter (op_of ans) old" and ?r = "List.map_filter (op_of ans) recent"
  let ?mid = "run_ops ?o st"
  let ?st = "run_ops ?r ?mid"
  have first: "snd (subscribeIndexer Q C N (\<lambda>_. False) (stream_of enc (old @ recent)) (st, w)) = (?st, w)"
    using stream_runs [OF assms(1,2) net assms(4,6)] by (simp add: map_filter_append run_ops_append)
  have fit: "ops_fit ?r ?mid"
    using assms(6) by (simp add: map_filter_append ops_fit_append)
  have b: "bucket_ok (st_services ?mid)" "bucket_ok (st_requests ?mid)"
    using assms(5) by (simp_all add: store_ok_def keyed_def run_ops_buckets)
  have "ops_fit ?r ?st"
    by (rule known_ops_fit) (rule ops_known [OF fit])
  then have "snd (subscribeIndexer Q C N (\<lambda>_. False) (stream_of enc recent) (?st, w)) = (run_ops ?r ?st, w)"
    using stream_runs [OF _ assms(2) net] assms(1,4) by (simp add: idx_wire_def)
  with first ops_again [OF fit b] show ?thesis by auto
qed

text \<open>A service, a request and its finalization; the payloads decode to the constants below, the events
  travel as their types in braces, and the chain does not answer the indexer's questions.\<close>

definition sample_service :: service_registered_payload where
  "sample_service = \<lparr>esr_service_id = 1, esr_owner = provider, esr_name = ''echo'', esr_description = '''', esr_price = aios 10\<rparr>"

definition sample_request :: inference_requested_payload where
  "sample_request = \<lparr>eir_request_id = 1, eir_service_id = 1, eir_requester = requester, eir_input_hash = ''in'',
     eir_input_uri = '''', eir_input_text = ''hi'', eir_escrow = aios 10, eir_deadline = 9\<rparr>"

definition sample_final :: request_finalized_payload where
  "sample_final = \<lparr>erf_request_id = 1, erf_provider = provider, erf_paid = aios 10, erf_bond_returned = aios 50\<rparr>"

definition sample_codec :: idx_codec where
  "sample_codec = \<lparr>
     ic_event = (\<lambda>j. if j = ''{ServiceRegistered}'' then Some \<lparr>ie_type = ''ServiceRegistered'', ie_height = 1, ie_payload = ''''\<rparr>
       else if j = ''{InferenceRequested}'' then Some \<lparr>ie_type = ''InferenceRequested'', ie_height = 2, ie_payload = ''''\<rparr>
       else if j = ''{RequestFinalized}'' then Some \<lparr>ie_type = ''RequestFinalized'', ie_height = 8, ie_payload = ''''\<rparr>
       else None),
     ic_service_registered = (\<lambda>_. Some (service_payload sample_service)),
     ic_inference_requested = (\<lambda>_. Some (request_payload sample_request)),
     ic_request_finalized = (\<lambda>_. Some (finalized_payload sample_final)),
     ic_request_refunded = (\<lambda>_. None), ic_full = (\<lambda>_. None)\<rparr>"

definition no_net :: "unit net" where
  "no_net = \<lparr>net_get = (\<lambda>path w. (Inl ''connection refused'', w)), net_post = (\<lambda>path body w. (Inl ''connection refused'', w))\<rparr>"

definition free_driver :: driver where
  "free_driver name args = (if list_all (\<lambda>x. x < 2 ^ 63) args then None else Some ''high bit set'')"

definition sample_old :: "(i64 \<times> event_payload) list" where
  "sample_old = [(1, ServiceRegistered sample_service)]"

definition sample_recent :: "(i64 \<times> event_payload) list" where
  "sample_recent = [(2, InferenceRequested sample_request), (8, RequestFinalized sample_final)]"

lemma brace_ok: "enc_ok brace"
  by (auto simp: enc_ok_def brace_def one_line_def solid_def spaceRunes_def newline_def)

theorem indexer_replay_converges_witness:
  "\<exists>st'. snd (subscribeIndexer free_driver sample_codec no_net (\<lambda>_. False) (stream_of brace (sample_old @ sample_recent)) (empty_store, ()))
      = (st', ())
    \<and> snd (subscribeIndexer free_driver sample_codec no_net (\<lambda>_. False) (stream_of brace sample_recent) (st', ())) = (st', ())"
proof (rule indexer_replay_converges)
  have b: "brace (mk_event h p) = Some (CHR ''{'' # event_type_of p @ ''}'')" for h p
    using event_type_plain by (simp add: brace_def mk_event_def)
  show "idx_wire sample_codec brace (sample_old @ sample_recent)"
    using brace_ok by (simp add: idx_wire_def b sample_old_def sample_recent_def payload_agrees_def sample_codec_def)
  show "takes_small free_driver"
    by (simp add: takes_small_def free_driver_def)
  show "\<forall>k w. fetchResult sample_codec no_net k w = ((\<lambda>_. no_result) k, w)"
    by (simp add: fetchResult_def no_net_def)
  show "list_all (\<lambda>(h, p). small_event p) (sample_old @ sample_recent)"
    by (simp add: sample_old_def sample_recent_def sample_service_def sample_request_def sample_final_def aios_def)
  show "ops_fit (List.map_filter (op_of (\<lambda>_. no_result)) (sample_old @ sample_recent)) empty_store"
    by (simp add: sample_old_def sample_recent_def List.map_filter_simps empty_store_def service_row_of_def
        service_payload_def request_row_of_def request_payload_def sample_service_def sample_request_def sample_final_def)
qed (rule store_ok_empty)

text \<open>
  Order matters, though: the announcement of a request that arrives once more after its end, as it does
  when a live event overtakes the replay of the log, puts the row back to pending and keeps its result.
\<close>

lemma redelivered_request_resets:
  assumes "map_of (st_requests st) (eir_request_id x) = Some row" and "takes_small Q" and "small_event (InferenceRequested x)"
    and "ic_inference_requested C t = Some (request_payload x)"
  shows "map_of (st_requests (handleInferenceRequested Q C t h st)) (eir_request_id x) = Some (row\<lparr>rr_status := ''PENDING''\<rparr>)"
  using assms
  by (simp add: handleInferenceRequested_def upsertRequest_def runStmt_def orKeep_def takes_small_def request_row_of_def
      request_payload_def)

section \<open>Disputes\<close>

text \<open>C39: The indexer never learns how a dispute ends: when the authority settles one, the chain gives the
  request its final status, finalized or slashed, and emits its event, which the indexer reads and
  drops; its store stays as it was, so the request stays pending there for good.\<close>

theorem indexer_misses_dispute_outcome:
  assumes "chain_inv E {} s" and "applyResolveChallenge E s signer p h = Inr (s', evs)" and "enc_ok enc"
    and "\<forall>ev \<in> set evs. \<exists>j t. enc ev = Some j
           \<and> ic_event C j = Some \<lparr>ie_type = ev_type ev, ie_height = ev_height ev, ie_payload = t\<rparr>"
  shows "\<exists>k r r'. getRequest s k = Inr r \<and> req_status r = StatusChallenged
    \<and> getRequest s' k = Inr r' \<and> (req_status r' = StatusFinalized \<or> req_status r' = StatusSlashed)
    \<and> evs \<noteq> [] \<and> snd (subscribeIndexer Q C N (\<lambda>_. False) (eventsH enc '''' (map Incoming evs)) stw) = stw"
  using assms(2)
proof (rule applyResolveChallenge_Inr)
  fix msg r ev
  assume r: "getRequest s (mrc_request_id msg) = Inr r" and st: "req_status r = StatusChallenged" and evs: "evs = [ev]"
    and run: "mrc_decision msg = ''dismiss'' \<and> executeDismiss E h s r = Inr (s', ev)
       \<or> mrc_decision msg = ''slash'' \<and> executeSlash E h s r = Inr (s', ev)"
  have id: "getRequest s (req_id r) = Inr r"
    using r wf_request [OF inv_wf [OF assms(1)] r] by (simp add: req_ok_def)
  obtain svc where svc: "getService s (req_service_id r) = Inr svc"
    by (rule wf_request_service [OF inv_wf [OF assms(1)] r])
  have "req_shape r"
    using wf_request [OF inv_wf [OF assms(1)] r] by (simp add: req_ok_def)
  then obtain ch where ch: "req_challenges r = [ch]"
    using shape_challenged st by blast
  have r': "\<exists>r'. getRequest s' (req_id r) = Inr r' \<and> (req_status r' = StatusFinalized \<or> req_status r' = StatusSlashed)"
    using run dismiss.step(4) [OF assms(1) id st svc] slash.step(4) [OF assms(1) id st svc]
    by (auto simp: dismissed_def slashed_def)
  obtain q where ev: "ev = mk_event h q" and q: "event_type_of q = ''RequestDismissed'' \<or> event_type_of q = ''RequestSlashed''"
    using run executeDismiss_Inr [OF svc ch] executeSlash_Inr [OF svc ch] by auto
  obtain j t where j: "enc ev = Some j" "ic_event C j = Some \<lparr>ie_type = ev_type ev, ie_height = ev_height ev, ie_payload = t\<rparr>"
    using assms(4) evs by auto
  have "snd (subscribeIndexer Q C N (\<lambda>_. False) (stream_of enc [(h, q)]) stw) = stw"
    unfolding read_stream [OF assms(3)] using j q
    by (auto simp: ev List.map_filter_simps ingestText_def handleIndexed_def mk_event_def)
  then show ?thesis
    using id st r' evs by (auto simp: stream_of_def ev)
qed

text \<open>The dispute of the run, dismissed by the authority; the events travel as their types in braces.\<close>

definition any_codec :: "event \<Rightarrow> idx_codec" where
  "any_codec ev = sample_codec\<lparr>ic_event :=
     (\<lambda>j. Some \<lparr>ie_type = ev_type ev, ie_height = ev_height ev, ie_payload = ''''\<rparr>)\<rparr>"

theorem indexer_misses_dispute_outcome_witness:
  "\<exists>s' ev. applyResolveChallenge demo_env (demo_state demo_vouched) provider ''dis'' 12 = Inr (s', [ev])
     \<and> (\<exists>k r'. getRequest s' k = Inr r' \<and> (req_status r' = StatusFinalized \<or> req_status r' = StatusSlashed))
     \<and> snd (subscribeIndexer free_driver (any_codec ev) no_net (\<lambda>_. False) (eventsH brace '''' (map Incoming [ev])) (empty_store, ()))
         = (empty_store, ())"
proof -
  have msg: "dec_resolve_challenge demo_env ''dis'' = Some
      \<lparr>mrc_authority = provider, mrc_request_id = 1, mrc_decision = ''dismiss''\<rparr>"
    by (simp add: demo_env_def)
  have svc: "getService (demo_state demo_vouched) (req_service_id demo_vouched) = Inr demo_svc" by simp
  obtain s' ev where d: "executeDismiss demo_env 12 (demo_state demo_vouched) demo_vouched = Inr (s', ev)"
    using dismiss.step_ok [OF demo_accepts demo_invs(4), of demo_vouched 12] by auto
  then have run: "applyResolveChallenge demo_env (demo_state demo_vouched) provider ''dis'' 12 = Inr (s', [ev])"
    by (simp add: applyResolveChallenge_def decode_def msg check_def requireAuthority_Inr)
  have "newline \<notin> set (ev_type ev)"
    using d executeDismiss_Inr [OF svc, of demo_ch "[]"] by (auto simp: mk_event_def newline_def)
  then have "\<forall>e \<in> set [ev]. \<exists>j t. brace e = Some j
      \<and> ic_event (any_codec ev) j = Some \<lparr>ie_type = ev_type e, ie_height = ev_height e, ie_payload = t\<rparr>"
    by (simp add: brace_def any_codec_def)
  from indexer_misses_dispute_outcome [OF demo_invs(4) run brace_ok this, of free_driver no_net "(empty_store, ())"] run
  show ?thesis by blast
qed

end
