(* ===== verification/Harness.thy ===== *)
theory Harness
  imports Net EventStream
begin

text \<open>
  The determinism harness (\<open>determinism-harness/cmd/harness/main.go\<close>): it watches results and
  challenges, replays each inference on its own model server, compares the output hashes, files a
  challenge or a vouch, and reports its last hundred verdicts. Each check runs in its own goroutine:
  \<open>checkRequest\<close> is one check, whose calls to the chain and to the model server go through a \<open>net\<close>
  each, so that anything may happen in the world between two of them. The flags, the logger and the
  wait for the chain at start-up are not modelled.
\<close>

record verdict =
  vr_request_id :: u64
  vr_service_id :: u64
  vr_domain_id :: u64
  vr_chain_output_hash :: string
  vr_replay_output_hash :: string
  vr_verdict :: string
  vr_note :: string
  vr_challenge_filed :: bool
  vr_vouch_filed :: bool
  vr_checked_at :: string

text \<open>The parts of a request that the harness decodes.\<close>

record full_result =
  fr_output_hash :: string
  fr_output_uri :: string
  fr_att_provider :: string
  fr_att_domain_id :: u64

record full_request =
  fq_id :: u64
  fq_service_id :: u64
  fq_input_hash :: string
  fq_input_uri :: string
  fq_input_text :: string
  fq_status :: string
  fq_result :: "full_result option"
  fq_challenges :: "(string \<times> string) list"

record domain_view =
  dv_id :: u64
  dv_model_sha256 :: string
  dv_runtime_id :: string
  dv_hardware_tag :: string
  dv_precision :: string
  dv_tokenizer_id :: string

record harness_codec =
  hc_event :: "string \<Rightarrow> (string \<times> string) option"
  hc_request_id :: "string \<Rightarrow> u64 option"
  hc_full :: "string \<Rightarrow> full_request option"
  hc_domain :: "string \<Rightarrow> domain_view option"
  hc_marshal_completion :: "completion_request \<Rightarrow> string"
  hc_completion :: "string \<Rightarrow> string option"
  hc_client :: client_codec

record 'w harness_env =
  he_codec :: harness_codec
  he_wallet :: wallet
  he_sha256 :: "bytes \<Rightarrow> bytes"
  he_signer :: "signer option"
  he_chain :: "'w net"
  he_llama :: "'w net"

subsection \<open>The key\<close>

definition loadSigner :: "key_file \<Rightarrow> string \<Rightarrow> chain_error + signer" where
  "loadSigner kr name =
     bind_r kr (\<lambda>ks.
     case findKey name ks of
       None \<Rightarrow> Inl (ErrText ''key not found'')
     | Some k \<Rightarrow>
         (case hexDecode (ke_priv_key_hex k) of
            None \<Rightarrow> Inl (ErrText ''hex'')
          | Some priv \<Rightarrow>
              Inr \<lparr>sg_name = name, sg_addr = ke_address k, sg_pub_hex = ke_pub_key_hex k, sg_priv = priv\<rparr>))"

subsection \<open>Calls\<close>

definition fetchRequest :: "'w harness_env \<Rightarrow> u64 \<Rightarrow> (full_request, 'w) action" where
  "fetchRequest H k = getDecode (he_chain H) (hc_full (he_codec H)) (''/requests/'' @ formatUint k)"

definition fetchDomain :: "'w harness_env \<Rightarrow> u64 \<Rightarrow> (domain_view, 'w) action" where
  "fetchDomain H k = getDecode (he_chain H) (hc_domain (he_codec H)) (''/domains/'' @ formatUint k)"

definition replay :: "'w harness_env \<Rightarrow> string \<Rightarrow> (string, 'w) action" where
  "replay H prompt =
     wbind (postBody (he_llama H) ''/completion''
              (hc_marshal_completion (he_codec H)
                 \<lparr>cq_prompt = prompt, cq_n_predict = 256, cq_temperature = 0, cq_top_k = 1, cq_top_p = 1,
                  cq_stream = False\<rparr>)) (\<lambda>rb.
     jsonOf (hc_completion (he_codec H) rb))"

definition harnessSubmit :: "'w harness_env \<Rightarrow> signer \<Rightarrow> string \<Rightarrow> tx_msg \<Rightarrow> (unit, 'w) action" where
  "harnessSubmit H sg ty msg =
     (let K = hc_client (he_codec H) in
      wbind (jsonOf (marshal (he_wallet H) msg)) (\<lambda>payload.
      wbind (getDecode (he_chain H) (cc_dec_nonce K) (''/accounts/'' @ sg_addr sg)) (\<lambda>nonce.
      wbind (wlift (signRaw K (he_wallet H) sg ty nonce payload)) (\<lambda>tx.
      wbind (jsonOf (cc_marshal_tx K tx)) (\<lambda>body.
      wbind (postBody (he_chain H) ''/tx'' body) (\<lambda>_.
      wlift (Inr ())))))))"

definition harnessAttestation :: "signer \<Rightarrow> domain_view \<Rightarrow> full_request \<Rightarrow> string \<Rightarrow> attestation" where
  "harnessAttestation sg d full hash =
     \<lparr>att_provider = sg_addr sg, att_domain_id = dv_id d, att_model_sha256 = dv_model_sha256 d,
      att_runtime_id = dv_runtime_id d, att_hardware_tag = dv_hardware_tag d, att_precision = dv_precision d,
      att_tokenizer_id = dv_tokenizer_id d, att_input_hash = fq_input_hash full, att_output_hash = hash,
      att_produced_at = 0, att_signature_hex = ''''\<rparr>"

definition fileVouch ::
  "'w harness_env \<Rightarrow> signer \<Rightarrow> u64 \<Rightarrow> string \<Rightarrow> full_request \<Rightarrow> full_result \<Rightarrow> (unit, 'w) action" where
  "fileVouch H sg k hash full res =
     wbind (wrapErr ''fetch domain'' (fetchDomain H (fr_att_domain_id res))) (\<lambda>d.
     harnessSubmit H sg txVouch
       (MVouch \<lparr>mv_voucher = sg_addr sg, mv_request_id = k,
          mv_attestation = harnessAttestation sg d full hash\<rparr>))"

definition fileChallenge ::
  "'w harness_env \<Rightarrow> signer \<Rightarrow> u64 \<Rightarrow> string \<Rightarrow> full_request \<Rightarrow> full_result \<Rightarrow> (unit, 'w) action" where
  "fileChallenge H sg k hash full res =
     wbind (wrapErr ''fetch domain'' (fetchDomain H (fr_att_domain_id res))) (\<lambda>d.
     harnessSubmit H sg txChallenge
       (MChallenge \<lparr>mc_challenger = sg_addr sg, mc_request_id = k,
          mc_attestation = harnessAttestation sg d full hash\<rparr>))"

subsection \<open>One check\<close>

fun errText :: "chain_error \<Rightarrow> string" where
  "errText (ErrText m) = m"
| "errText (Wrapped m e) = m @ '': '' @ errText e"
| "errText e = ''''"

definition newVerdict :: "u64 \<Rightarrow> string \<Rightarrow> verdict" where
  "newVerdict k now =
     \<lparr>vr_request_id = k, vr_service_id = 0, vr_domain_id = 0, vr_chain_output_hash = '''',
      vr_replay_output_hash = '''', vr_verdict = '''', vr_note = '''', vr_challenge_filed = False,
      vr_vouch_filed = False, vr_checked_at = now\<rparr>"

definition addNote :: "string \<Rightarrow> verdict \<Rightarrow> verdict" where
  "addNote m r = r\<lparr>vr_note := vr_note r @ m\<rparr>"

definition conclude :: "string \<Rightarrow> string \<Rightarrow> verdict \<Rightarrow> verdict" where
  "conclude v note r = r\<lparr>vr_verdict := v, vr_note := note\<rparr>"

text \<open>
  A check yields its verdict, whether the goroutine panicked while filing (which ends the process,
  after the deferred \<open>store\<close>), and the world after it.
\<close>

type_synonym 'w check = "verdict \<times> bool \<times> 'w"

definition afterFiling ::
  "(chain_error + unit) \<times> 'w \<Rightarrow> string \<Rightarrow> (verdict \<Rightarrow> verdict) \<Rightarrow> verdict \<Rightarrow> 'w check" where
  "afterFiling res failNote ok r =
     (case res of
        (Inl (Panic m), w) \<Rightarrow> (r, True, w)
      | (Inl e, w) \<Rightarrow> (addNote (failNote @ errText e) r, False, w)
      | (Inr _, w) \<Rightarrow> (ok r, False, w))"

fun matchesChallenge :: "(string \<times> string) list \<Rightarrow> string \<Rightarrow> bool" where
  "matchesChallenge [] hash = False"
| "matchesChallenge (c # cs) hash = (if snd c = hash then True else matchesChallenge cs hash)"

definition onMatch :: "'w harness_env \<Rightarrow> u64 \<Rightarrow> full_request \<Rightarrow> full_result \<Rightarrow> verdict \<Rightarrow> 'w \<Rightarrow> 'w check" where
  "onMatch H k full res r w =
     (case he_signer H of
        Some sg \<Rightarrow>
          if fq_status full = ''CHALLENGED'' then
            afterFiling (fileVouch H sg k (vr_replay_output_hash r) full res w) ''; vouch failed: ''
              (\<lambda>r. addNote ''vouch filed supporting provider'' (r\<lparr>vr_vouch_filed := True\<rparr>)) r
          else (r, False, w)
      | None \<Rightarrow> (r, False, w))"

definition onDivergence :: "'w harness_env \<Rightarrow> u64 \<Rightarrow> full_request \<Rightarrow> full_result \<Rightarrow> verdict \<Rightarrow> 'w \<Rightarrow> 'w check" where
  "onDivergence H k full res r w =
     (case he_signer H of
        None \<Rightarrow> (addNote '' (observation-only mode; no challenge filed)'' r, False, w)
      | Some sg \<Rightarrow>
          if fq_status full = ''CHALLENGED'' then
            (if matchesChallenge (fq_challenges full) (vr_replay_output_hash r) then
               afterFiling (fileVouch H sg k (vr_replay_output_hash r) full res w)
                 ''; vouch (challenger-side) failed: ''
                 (\<lambda>r. addNote ''; vouch filed supporting challenger'' (r\<lparr>vr_vouch_filed := True\<rparr>)) r
             else (addNote ''; CHALLENGED but our replay matches neither side'' r, False, w))
          else
            afterFiling (fileChallenge H sg k (vr_replay_output_hash r) full res w) ''; challenge failed: ''
              (\<lambda>r. addNote ''; challenge filed'' (r\<lparr>vr_challenge_filed := True\<rparr>)) r)"

definition compareHashes ::
  "'w harness_env \<Rightarrow> u64 \<Rightarrow> full_request \<Rightarrow> full_result \<Rightarrow> string \<Rightarrow> verdict \<Rightarrow> 'w \<Rightarrow> 'w check" where
  "compareHashes H k full res output r w =
     (let r = r\<lparr>vr_replay_output_hash := hexEncode (he_sha256 H (string_bytes output))\<rparr> in
      if vr_replay_output_hash r = vr_chain_output_hash r then
        onMatch H k full res (r\<lparr>vr_verdict := ''OK''\<rparr>) w
      else
        onDivergence H k full res (conclude ''DIVERGENT'' ''chain output_hash != harness re-run output_hash'' r) w)"

definition checkRequest :: "'w harness_env \<Rightarrow> string \<Rightarrow> u64 \<Rightarrow> 'w \<Rightarrow> 'w check" where
  "checkRequest H now k w =
     (let r = newVerdict k now in
      case fetchRequest H k w of
        (Inl e, w) \<Rightarrow> (conclude ''ERROR'' (''fetch request: '' @ errText e) r, False, w)
      | (Inr full, w) \<Rightarrow>
          let r = r\<lparr>vr_service_id := fq_service_id full\<rparr> in
          case fq_result full of
            None \<Rightarrow> (conclude ''ERROR'' ''no result on submitted request'' r, False, w)
          | Some res \<Rightarrow>
              let r = r\<lparr>vr_domain_id := fr_att_domain_id res, vr_chain_output_hash := fr_output_hash res\<rparr> in
              if \<not> hasPrefix (fq_input_uri full) ''inline:'' then
                (conclude ''SKIPPED'' ''input_uri not inline; phase 2+ adds content-addressed fetch'' r, False, w)
              else if fq_input_text full = '''' then
                (conclude ''ERROR'' ''input_text empty'' r, False, w)
              else (case replay H (fq_input_text full) w of
                (Inl e, w) \<Rightarrow> (conclude ''ERROR'' (''replay: '' @ errText e) r, False, w)
              | (Inr output, w) \<Rightarrow> compareHashes H k full res output r w))"

subsection \<open>Watching and reporting\<close>

definition maxStoredResults :: nat where "maxStoredResults = 100"

definition storeVerdict :: "verdict \<Rightarrow> verdict list \<Rightarrow> verdict list" where
  "storeVerdict r rs =
     (let rs = rs @ [r] in
      if length rs > maxStoredResults then drop (length rs - maxStoredResults) rs else rs)"

text \<open>The requests to check, in the order of the events; each starts a goroutine.\<close>

definition onHarnessData :: "harness_codec \<Rightarrow> string \<Rightarrow> u64 list \<Rightarrow> u64 list" where
  "onHarnessData C data started =
     (case hc_event C data of
        None \<Rightarrow> started
      | Some (ty, payload) \<Rightarrow>
          if ty \<noteq> ''ResultSubmitted'' \<and> ty \<noteq> ''Challenged'' then started
          else (case hc_request_id C payload of None \<Rightarrow> started | Some k \<Rightarrow> started @ [k]))"

definition harnessPath :: string where
  "harnessPath = ''/events?types=ResultSubmitted,Challenged''"

definition subscribeHarness :: "harness_codec \<Rightarrow> (nat \<Rightarrow> bool) \<Rightarrow> string \<Rightarrow> u64 list \<Rightarrow> (string + unit) \<times> u64 list" where
  "subscribeHarness C cancelled stream started = sseLoop cancelled (onHarnessData C) 0 stream started"

record report =
  rep_items :: "verdict list"
  rep_ok :: int
  rep_divergent :: int
  rep_skipped :: int
  rep_errors :: int

fun countVerdicts :: "verdict list \<Rightarrow> report \<Rightarrow> report" where
  "countVerdicts [] rep = rep"
| "countVerdicts (r # rs) rep =
     countVerdicts rs
       (if vr_verdict r = ''OK'' then rep\<lparr>rep_ok := rep_ok rep + 1\<rparr>
        else if vr_verdict r = ''DIVERGENT'' then rep\<lparr>rep_divergent := rep_divergent rep + 1\<rparr>
        else if vr_verdict r = ''SKIPPED'' then rep\<lparr>rep_skipped := rep_skipped rep + 1\<rparr>
        else rep\<lparr>rep_errors := rep_errors rep + 1\<rparr>)"

definition reportOf :: "verdict list \<Rightarrow> report" where
  "reportOf rs =
     countVerdicts rs \<lparr>rep_items = rs, rep_ok = 0, rep_divergent = 0, rep_skipped = 0, rep_errors = 0\<rparr>"

text \<open>A process that runs the started checks one after the other, until one of them panics.\<close>

fun runChecks :: "'w harness_env \<Rightarrow> string \<Rightarrow> u64 list \<Rightarrow> verdict list \<times> 'w \<Rightarrow> bool \<times> verdict list \<times> 'w" where
  "runChecks H now [] (rs, w) = (False, rs, w)"
| "runChecks H now (k # ks) (rs, w) =
     (case checkRequest H now k w of (r, panicked, w) \<Rightarrow>
        if panicked then (True, storeVerdict r rs, w)
        else runChecks H now ks (storeVerdict r rs, w))"

end
