(* ===== verification/HarnessLaws.thy ===== *)
theory HarnessLaws
  imports Harness ChainNet
begin

text \<open>
  What a check of the harness amounts to, and how its transactions fare on the chain. The verdict is
  a function of what was fetched and replayed (\<open>verdict_kind\<close>); the stored results are a bounded log;
  the report counts them; and a filed challenge reaches the handler of the chain with an attestation
  over the domain that the chain itself serves.
\<close>

subsection \<open>The stored results and the report\<close>

interpretation results: bounded_log storeVerdict id maxStoredResults
  by unfold_locales (simp add: storeVerdict_def lastN_def Let_def)

lemma countVerdicts_total:
  "rep_ok (countVerdicts rs rep) + rep_divergent (countVerdicts rs rep) + rep_skipped (countVerdicts rs rep)
     + rep_errors (countVerdicts rs rep)
   = rep_ok rep + rep_divergent rep + rep_skipped rep + rep_errors rep + int (length rs)"
  by (induction rs arbitrary: rep) auto

lemma countVerdicts_ok:
  "rep_ok (countVerdicts rs rep) = rep_ok rep + int (length (filter (\<lambda>r. vr_verdict r = ''OK'') rs))"
  "rep_divergent (countVerdicts rs rep) = rep_divergent rep + int (length (filter (\<lambda>r. vr_verdict r = ''DIVERGENT'') rs))"
  "rep_skipped (countVerdicts rs rep) = rep_skipped rep + int (length (filter (\<lambda>r. vr_verdict r = ''SKIPPED'') rs))"
  "rep_items (countVerdicts rs rep) = rep_items rep"
  by (induction rs arbitrary: rep) auto

text \<open>The verdicts that a run of checks produces, in order.\<close>

fun verdicts :: "'w harness_env \<Rightarrow> string \<Rightarrow> u64 list \<Rightarrow> 'w \<Rightarrow> verdict list" where
  "verdicts H now [] w = []"
| "verdicts H now (k # ks) w =
     (case checkRequest H now k w of (r, panicked, w') \<Rightarrow> r # (if panicked then [] else verdicts H now ks w'))"

lemma runChecks_results:
  "fst (snd (runChecks H now ks (rs, w))) = fold storeVerdict (verdicts H now ks w) rs"
  by (induction ks arbitrary: rs w) (auto split: prod.splits)

subsection \<open>Verdicts\<close>

text \<open>The verdict as a function of what the chain and the model server answered.\<close>

definition verdict_kind ::
  "(bytes \<Rightarrow> bytes) \<Rightarrow> chain_error + full_request \<Rightarrow> chain_error + string \<Rightarrow> string" where
  "verdict_kind sha fetched replayed =
     (case fetched of
        Inl _ \<Rightarrow> ''ERROR''
      | Inr full \<Rightarrow>
          (case fq_result full of
             None \<Rightarrow> ''ERROR''
           | Some res \<Rightarrow>
               if \<not> hasPrefix (fq_input_uri full) ''inline:'' then ''SKIPPED''
               else if fq_input_text full = '''' then ''ERROR''
               else (case replayed of
                 Inl _ \<Rightarrow> ''ERROR''
               | Inr out \<Rightarrow>
                   if hexEncode (sha (string_bytes out)) = fr_output_hash res then ''OK'' else ''DIVERGENT'')))"

definition same_check :: "verdict \<Rightarrow> verdict \<Rightarrow> bool" where
  "same_check v r \<longleftrightarrow> vr_verdict v = vr_verdict r \<and> vr_request_id v = vr_request_id r
     \<and> vr_replay_output_hash v = vr_replay_output_hash r \<and> vr_chain_output_hash v = vr_chain_output_hash r"

lemma afterFiling_cases:
  assumes "afterFiling res m ok r = (v, pan, w)"
  shows "same_check v r \<and> vr_challenge_filed v = vr_challenge_filed r \<and> vr_vouch_filed v = vr_vouch_filed r
    \<or> fst res = Inr () \<and> v = ok r \<and> w = snd res \<and> \<not> pan"
  using assms by (auto simp: afterFiling_def addNote_def same_check_def split: prod.splits sum.splits chain_error.splits)

lemma matchesChallenge_iff: "matchesChallenge cs h \<longleftrightarrow> h \<in> snd ` set cs"
  by (induction cs) auto

lemma onMatch_facts:
  assumes "onMatch H k full res r w = (v, pan, w')"
  shows "same_check v r" and "vr_challenge_filed v = vr_challenge_filed r"
    and "vr_vouch_filed v \<Longrightarrow> vr_vouch_filed r \<or> fq_status full = ''CHALLENGED'' \<and> he_signer H \<noteq> None"
  using assms
  by (auto simp: onMatch_def addNote_def same_check_def split: option.splits if_splits dest!: afterFiling_cases)

lemma onDivergence_facts:
  assumes "onDivergence H k full res r w = (v, pan, w')"
  shows "same_check v r"
    and "vr_challenge_filed v \<Longrightarrow> vr_challenge_filed r \<or> fq_status full \<noteq> ''CHALLENGED'' \<and> he_signer H \<noteq> None"
    and "vr_vouch_filed v \<Longrightarrow> vr_vouch_filed r \<or> fq_status full = ''CHALLENGED'' \<and> he_signer H \<noteq> None
          \<and> vr_replay_output_hash r \<in> snd ` set (fq_challenges full)"
  using assms
  by (auto simp: onDivergence_def addNote_def same_check_def matchesChallenge_iff split: option.splits if_splits
      dest!: afterFiling_cases)

lemma compareHashes_facts:
  assumes run: "compareHashes H k full res output r w = (v, pan, w')"
    and no: "\<not> vr_challenge_filed r" "\<not> vr_vouch_filed r"
  shows "vr_verdict v = (if hexEncode (he_sha256 H (string_bytes output)) = vr_chain_output_hash r then ''OK'' else ''DIVERGENT'')
    \<and> vr_request_id v = vr_request_id r
    \<and> (vr_challenge_filed v \<longrightarrow> vr_verdict v = ''DIVERGENT'' \<and> fq_status full \<noteq> ''CHALLENGED'' \<and> he_signer H \<noteq> None)
    \<and> (vr_vouch_filed v \<longrightarrow> fq_status full = ''CHALLENGED'' \<and> he_signer H \<noteq> None
          \<and> (vr_verdict v = ''OK'' \<or> vr_verdict v = ''DIVERGENT'' \<and> vr_replay_output_hash v \<in> snd ` set (fq_challenges full)))"
proof -
  define r1 where "r1 = r\<lparr>vr_replay_output_hash := hexEncode (he_sha256 H (string_bytes output))\<rparr>"
  show ?thesis
  proof (cases "hexEncode (he_sha256 H (string_bytes output)) = vr_chain_output_hash r")
    case True
    then have "onMatch H k full res (r1\<lparr>vr_verdict := ''OK''\<rparr>) w = (v, pan, w')"
      using run by (simp add: compareHashes_def r1_def)
    from onMatch_facts [OF this] show ?thesis
      using True no by (auto simp: same_check_def r1_def)
  next
    case False
    then have "onDivergence H k full res
        (conclude ''DIVERGENT'' ''chain output_hash != harness re-run output_hash'' r1) w = (v, pan, w')"
      using run by (simp add: compareHashes_def r1_def)
    from onDivergence_facts [OF this] show ?thesis
      using False no by (auto simp: same_check_def r1_def conclude_def)
  qed
qed

text \<open>
  One check: its verdict is \<open>verdict_kind\<close> of the two answers, a challenge is filed only on a divergence
  from a request that is not yet challenged, and a vouch only on a challenged one.
\<close>

definition sound_filing :: "'w harness_env \<Rightarrow> chain_error + full_request \<Rightarrow> verdict \<Rightarrow> bool" where
  "sound_filing H fetched v \<longleftrightarrow>
     (vr_challenge_filed v \<longrightarrow> vr_verdict v = ''DIVERGENT'' \<and> he_signer H \<noteq> None
        \<and> (\<exists>full. fetched = Inr full \<and> fq_status full \<noteq> ''CHALLENGED''))
     \<and> (vr_vouch_filed v \<longrightarrow> he_signer H \<noteq> None
        \<and> (\<exists>full. fetched = Inr full \<and> fq_status full = ''CHALLENGED''
             \<and> (vr_verdict v = ''OK'' \<or> vr_verdict v = ''DIVERGENT'' \<and> vr_replay_output_hash v \<in> snd ` set (fq_challenges full))))"

lemma checkRequest_facts:
  assumes "checkRequest H now k w = (v, pan, w')" and "fetchRequest H k w = (fetched, w1)"
  shows "vr_verdict v = verdict_kind (he_sha256 H) fetched
           (case fetched of Inl e \<Rightarrow> Inl e | Inr full \<Rightarrow> fst (replay H (fq_input_text full) w1))"
    and "vr_request_id v = k" and "sound_filing H fetched v"
proof -
  have "vr_verdict v = verdict_kind (he_sha256 H) fetched
           (case fetched of Inl e \<Rightarrow> Inl e | Inr full \<Rightarrow> fst (replay H (fq_input_text full) w1))
      \<and> vr_request_id v = k \<and> sound_filing H fetched v"
  proof (cases fetched)
    case (Inl e)
    then show ?thesis
      using assms by (auto simp: checkRequest_def conclude_def newVerdict_def verdict_kind_def sound_filing_def)
  next
    case (Inr full)
    show ?thesis
    proof (cases "fq_result full = None \<or> \<not> hasPrefix (fq_input_uri full) ''inline:'' \<or> fq_input_text full = ''''
        \<or> (\<exists>e w2. replay H (fq_input_text full) w1 = (Inl e, w2))")
      case True
      then show ?thesis
        using assms Inr
        by (auto simp: checkRequest_def conclude_def newVerdict_def verdict_kind_def sound_filing_def Let_def
            split: option.splits)
    next
      case False
      then obtain res out w2 where f: "fq_result full = Some res" "hasPrefix (fq_input_uri full) ''inline:''"
          "fq_input_text full \<noteq> ''''" "replay H (fq_input_text full) w1 = (Inr out, w2)"
        by (cases "replay H (fq_input_text full) w1"; cases "fst (replay H (fq_input_text full) w1)") auto
      define r where "r = (newVerdict k now)\<lparr>vr_service_id := fq_service_id full, vr_domain_id := fr_att_domain_id res,
          vr_chain_output_hash := fr_output_hash res\<rparr>"
      have "compareHashes H k full res out r w2 = (v, pan, w')"
        using assms Inr f by (simp add: checkRequest_def Let_def r_def newVerdict_def)
      from compareHashes_facts [OF this] f show ?thesis
        by (auto simp: Inr verdict_kind_def sound_filing_def r_def newVerdict_def)
    qed
  qed
  then show "vr_verdict v = verdict_kind (he_sha256 H) fetched
           (case fetched of Inl e \<Rightarrow> Inl e | Inr full \<Rightarrow> fst (replay H (fq_input_text full) w1))"
    "vr_request_id v = k" "sound_filing H fetched v" by blast+
qed

subsection \<open>Submitting to the chain\<close>

text \<open>What \<open>json.Unmarshal\<close> keeps of a request and of a domain: the fields with the same names.\<close>

definition full_of :: "inference_request \<Rightarrow> full_request" where
  "full_of r =
     \<lparr>fq_id = req_id r, fq_service_id = req_service_id r, fq_input_hash = req_input_hash r,
      fq_input_uri = req_input_uri r, fq_input_text = req_input_text r, fq_status = status_text (req_status r),
      fq_result = map_option (\<lambda>res. \<lparr>fr_output_hash = res_output_hash res, fr_output_uri = res_output_uri res,
        fr_att_provider = att_provider (res_attestation res), fr_att_domain_id = att_domain_id (res_attestation res)\<rparr>)
        (req_result r),
      fq_challenges = map (\<lambda>c. (ch_challenger c, att_output_hash (ch_attestation c))) (req_challenges r)\<rparr>"

definition view_of :: "verification_domain \<Rightarrow> domain_view" where
  "view_of d =
     \<lparr>dv_id = dom_id d, dv_model_sha256 = dom_model_sha256 d, dv_runtime_id = dom_runtime_id d,
      dv_hardware_tag = dom_hardware_tag d, dv_precision = dom_precision d, dv_tokenizer_id = dom_tokenizer_id d\<rparr>"

lemma harnessAttestation_matches:
  "tuple_matches d (harnessAttestation sg (view_of d) full h)"
  "att_tokenizer_id (harnessAttestation sg (view_of d) full h) = dom_tokenizer_id d"
  by (simp_all add: tuple_matches_def harnessAttestation_def view_of_def)

lemma harnessSubmit_ok:
  assumes "he_chain H = chainNet E W A kr now json" and "isValidAddress (sg_addr sg)"
    and "marshal (he_wallet H) msg = Some payload"
    and "cc_dec_nonce (hc_client (he_codec H)) (json (accountBody (nd_db nd) (sg_addr sg))) = Some n"
    and "signRaw (hc_client (he_codec H)) (he_wallet H) sg ty n payload = Inr tx"
    and "travels E A (hc_client (he_codec H)) tx" and "submitTx E tx nd = (Inr rc, nd')"
  shows "harnessSubmit H sg ty msg nd = (Inr (), nd')"
proof -
  obtain body where b: "cc_marshal_tx (hc_client (he_codec H)) tx = Some body" "ac_dec_tx A body = Some tx"
    using assms(6) by (auto simp: travels_def)
  have "getDecode (he_chain H) (cc_dec_nonce (hc_client (he_codec H))) (''/accounts/'' @ sg_addr sg) nd = (Inr n, nd)"
    using assms(4) unfolding assms(1) by (intro getDecode_ok) (rule get_account [OF assms(2)])
  moreover have "net_post (he_chain H) ''/tx'' body nd = (Inr (200, json (BodyMap (txReply rc (heightLocked (nd_db nd'))))), nd')"
    unfolding assms(1) post_tx submitTxH_def using b assms(7) by (simp add: render_def)
  ultimately show ?thesis
    using assms(3,5) b(1)
    by (simp add: harnessSubmit_def Let_def wbind_def jsonOf_def wlift_def postBody_def del: append_Cons)
qed

lemma fetchRequest_ok:
  assumes "he_chain H = chainNet E W A kr now json" and "getRequest (nd_db nd) k = Inr r"
    and "hc_full (he_codec H) (json (BodyRequest r)) = Some f"
  shows "fetchRequest H k nd = (Inr f, nd)"
  unfolding fetchRequest_def using assms(3) unfolding assms(1)
  by (intro getDecode_ok) (rule get_request [OF assms(2)])

lemma fetchDomain_ok:
  assumes "he_chain H = chainNet E W A kr now json" and "getDomain (nd_db nd) k = Inr d"
    and "hc_domain (he_codec H) (json (BodyDomain d)) = Some f"
  shows "fetchDomain H k nd = (Inr f, nd)"
  unfolding fetchDomain_def using assms(3) unfolding assms(1)
  by (intro getDecode_ok) (rule get_domain [OF assms(2)])

subsection \<open>A challenge that is accepted\<close>

definition challenge_msg :: "signer \<Rightarrow> verification_domain \<Rightarrow> inference_request \<Rightarrow> string \<Rightarrow> msg_challenge" where
  "challenge_msg sg d r hash =
     \<lparr>mc_challenger = sg_addr sg, mc_request_id = req_id r,
      mc_attestation = harnessAttestation sg (view_of d) (full_of r) hash\<rparr>"

text \<open>The texts of one challenge travel, as for an answer of the inference node.\<close>

definition challenge_travels ::
  "env \<Rightarrow> api_codec \<Rightarrow> (api_body \<Rightarrow> string) \<Rightarrow> 'w harness_env \<Rightarrow> signer \<Rightarrow> chain_state \<Rightarrow> verification_domain
    \<Rightarrow> inference_request \<Rightarrow> string \<Rightarrow> bool" where
  "challenge_travels E A json H sg s d r hash \<longleftrightarrow>
     (let C = he_codec H; K = hc_client C; msg = challenge_msg sg d r hash in
      hc_full C (json (BodyRequest r)) = Some (full_of r)
      \<and> hc_domain C (json (BodyDomain d)) = Some (view_of d)
      \<and> cc_dec_nonce K (json (accountBody s (sg_addr sg))) = Some (nextNonce s (sg_addr sg))
      \<and> (\<exists>payload tx. marshal (he_wallet H) (MChallenge msg) = Some payload \<and> payload \<noteq> ''''
           \<and> dec_challenge E payload = Some msg
           \<and> signRaw K (he_wallet H) sg txChallenge (nextNonce s (sg_addr sg)) payload = Inr tx
           \<and> travels E A K tx))"

lemma signer_valid_addr: "sha_ok E \<Longrightarrow> signer_ok E sg \<Longrightarrow> isValidAddress (sg_addr sg)"
  by (simp add: signer_ok_def sha_ok_def isValidAddress_derived)

lemma fileChallenge_ok:
  assumes acc: "put_accepts E" and "ed25519_ok E (he_wallet H) (sg_priv sg)" and sha: "sha_ok E"
    and inv: "chain_inv E {} (nd_db nd)" and net: "he_chain H = chainNet E W A kr now json" and key: "signer_ok E sg"
    and r: "getRequest (nd_db nd) k = Inr r" and st: "req_status r = StatusSubmitted"
    and res: "req_result r = Some res" and diff: "hash \<noteq> res_output_hash res"
    and svc: "getService (nd_db nd) (req_service_id r) = Inr v"
    and dom: "getDomain (nd_db nd) (svc_domain_id v) = Inr d" and att: "att_domain_id (res_attestation res) = svc_domain_id v"
    and ps: "paramsLocked (nd_db nd) = Inr ps"
    and win: "heightLocked (nd_db nd) <=s req_submitted_at r + p_challenge_window ps"
    and fund: "unat (amount (p_challenger_bond ps)) \<le> bal (nd_db nd) (sg_addr sg)"
    and trav: "challenge_travels E A json H sg (nd_db nd) d r hash"
    and fres: "fq_result (full_of r) = Some fres"
  shows "\<exists>nd'. fileChallenge H sg k hash (full_of r) fres nd = (Inr (), nd')
    \<and> getRequest (nd_db nd') k = Inr (challenged
        \<lparr>ch_challenger = sg_addr sg, ch_posted_at = heightLocked (nd_db nd),
         ch_attestation = harnessAttestation sg (view_of d) (full_of r) hash, ch_bond = p_challenger_bond ps\<rparr> r)"
proof -
  let ?s = "nd_db nd" and ?msg = "challenge_msg sg d r hash" and ?K = "hc_client (he_codec H)"
  have addr: "isValidAddress (sg_addr sg)" by (rule signer_valid_addr [OF sha key])
  have id: "req_id r = k"
    using wf_request [OF inv_wf [OF inv] r] by (simp add: req_ok_def)
  obtain payload tx where pay: "marshal (he_wallet H) (MChallenge ?msg) = Some payload" "payload \<noteq> ''''"
      "dec_challenge E payload = Some ?msg"
    and tx: "signRaw ?K (he_wallet H) sg txChallenge (nextNonce ?s (sg_addr sg)) payload = Inr tx" "travels E A ?K tx"
    and nonce: "cc_dec_nonce ?K (json (accountBody ?s (sg_addr sg))) = Some (nextNonce ?s (sg_addr sg))"
    and vd: "hc_domain (he_codec H) (json (BodyDomain d)) = Some (view_of d)"
    using trav by (auto simp: challenge_travels_def Let_def)
  have "txChallenge \<in> set known_tx_types" by (simp add: known_tx_types_def)
  note env = signRaw_envelope [OF assms(2) key this pay(2) tx]
  have "dom_id d = svc_domain_id v"
    using inv dom by (auto simp: chain_inv_def tables_ok_def dom_ok_def)
  have match: "matchDomain ?s ''load domain'' ''challenger tuple != service domain''
      ''challenger tokenizer != domain tokenizer'' (svc_domain_id v) (mc_attestation ?msg) = Inr ()"
    using dom harnessAttestation_matches by (auto simp: matchDomain_Inr challenge_msg_def)
  have msg: "mc_challenger ?msg = sg_addr sg" "mc_request_id ?msg = k"
    "att_input_hash (mc_attestation ?msg) = req_input_hash r" "att_output_hash (mc_attestation ?msg) = hash"
    by (simp_all add: challenge_msg_def id harnessAttestation_def full_of_def)
  obtain s' ev where app: "applyChallenge E ?s (sg_addr sg) payload (heightLocked ?s) = Inr (s', ev)"
    using challenge_ok [OF acc inv addr pay(3) msg(1) _ st res ps win _ _ svc match fund] r diff msg by auto
  then have "dispatch E ?s (sg_addr sg) tx (heightLocked ?s) = Inr (s', one_event txChallenge 0 ev)"
    using env by (simp add: dispatch_def tx_names)
  from submitTx_handler [OF acc env(1) addr env(4) this]
  obtain nd' where sub: "submitTx E tx nd = (Inr (one_event txChallenge 0 ev), nd')"
    and nd': "getRequest (nd_db nd') = getRequest s'" by blast
  have "fr_att_domain_id fres = svc_domain_id v"
    using fres att res by (auto simp: full_of_def)
  then have "fetchDomain H (fr_att_domain_id fres) nd = (Inr (view_of d), nd)"
    using fetchDomain_ok [OF net dom vd] by simp
  moreover have "MChallenge ?msg = MChallenge \<lparr>mc_challenger = sg_addr sg, mc_request_id = k,
      mc_attestation = harnessAttestation sg (view_of d) (full_of r) hash\<rparr>"
    by (simp add: challenge_msg_def id)
  ultimately have "fileChallenge H sg k hash (full_of r) fres nd = (Inr (), nd')"
    using harnessSubmit_ok [OF net addr pay(1) nonce tx sub]
    by (simp add: fileChallenge_def wbind_def wrapErr_def)
  then show ?thesis
    using challenge_facts(4) [OF inv addr app pay(3) _ ps, of r] r msg(2) nd' id by (auto simp: challenge_msg_def)
qed

text \<open>The model server's answer, as the harness reads it.\<close>

definition model_says :: "'w harness_env \<Rightarrow> string \<Rightarrow> string \<Rightarrow> 'w \<Rightarrow> bool" where
  "model_says H prompt output w \<longleftrightarrow> replay H prompt w = (Inr output, w)"

end
