(* ===== verification/Worker.thy ===== *)
theory Worker
  imports Net EventStream
begin

text \<open>
  The inference node: the client library (\<open>inference-node/internal/chain/client.go\<close>), the executor
  that asks a model server (\<open>inference-node/internal/executor/llama_http/executor.go\<close>), and the
  handling of one event (\<open>inference-node/cmd/inferenced/main.go\<close>). Events are handled one at a time, on
  the goroutine that reads the stream. The client remembers the last height it saw, so its state is
  that height next to the world. Its start-up is in the theory \<open>Startup\<close>.
\<close>

record client_service =
  cv_id :: u64
  cv_owner :: string
  cv_name :: string
  cv_description :: string
  cv_price :: coin
  cv_domain_id :: u64
  cv_active :: bool
  cv_created_at :: i64

record client_request =
  cr_id :: u64
  cr_service_id :: u64
  cr_requester :: string
  cr_input_hash :: string
  cr_input_uri :: string
  cr_input_text :: string
  cr_escrow :: coin
  cr_deadline :: i64
  cr_status :: string
  cr_created_at :: i64
  cr_result :: "result option"

record tx_response =
  tr_type :: string
  tr_height :: i64
  tr_service_id :: u64
  tr_request_id :: u64
  tr_finalized :: bool

record client_event =
  ce_type :: string
  ce_height :: i64
  ce_payload :: string

record worker_codec =
  wc_event :: "string \<Rightarrow> client_event option"
  wc_requested :: "string \<Rightarrow> inference_requested_payload option"
  wc_service :: "string \<Rightarrow> client_service option"
  wc_request :: "string \<Rightarrow> client_request option"
  wc_response :: "string \<Rightarrow> tx_response option"
  wc_marshal_attestation :: "attestation \<Rightarrow> string option"
  wc_marshal_completion :: "completion_request \<Rightarrow> string option"
  wc_completion :: "string \<Rightarrow> string option"
  wc_client :: client_codec

record node_config =
  nc_model_sha256 :: string
  nc_runtime_id :: string
  nc_precision :: string
  nc_hardware_tag :: string
  nc_tokenizer_id :: string

record node_key =
  nk_name :: string
  nk_addr :: string
  nk_pub :: bytes
  nk_priv :: bytes

record 'w worker_env =
  we_codec :: worker_codec
  we_wallet :: wallet
  we_sha256 :: "bytes \<Rightarrow> bytes"
  we_key :: node_key
  we_config :: node_config
  we_malicious :: bool
  we_chain :: "'w net"
  we_llama :: "'w net"

subsection \<open>The key and the model fingerprint\<close>

definition loadNodeKey :: "key_file \<Rightarrow> string \<Rightarrow> chain_error + node_key" where
  "loadNodeKey kr name =
     bind_r kr (\<lambda>ks.
     case findKey name ks of
       None \<Rightarrow> Inl (ErrText ''key not found'')
     | Some k \<Rightarrow>
         bind_r (decodeHex ''decode pubkey'' (ke_pub_key_hex k)) (\<lambda>pub.
         bind_r (decodeHex ''decode privkey'' (ke_priv_key_hex k)) (\<lambda>priv.
         Inr \<lparr>nk_name = name, nk_addr = ke_address k, nk_pub = pub, nk_priv = priv\<rparr>)))"

definition sha256File :: "(bytes \<Rightarrow> bytes) \<Rightarrow> chain_error + bytes \<Rightarrow> chain_error + string" where
  "sha256File sha content = bind_r content (\<lambda>b. Inr (hexEncode (sha b)))"

definition modelFingerprint :: "(bytes \<Rightarrow> bytes) \<Rightarrow> string \<Rightarrow> chain_error + bytes \<Rightarrow> string" where
  "modelFingerprint sha override content =
     (if override = '''' then
        (case sha256File sha content of Inl _ \<Rightarrow> ''unverified-tinyllama-q4'' | Inr s \<Rightarrow> s)
      else override)"

subsection \<open>The client\<close>

text \<open>A call that leaves the remembered height alone.\<close>

definition onNet :: "('a, 'w) action \<Rightarrow> ('a, i64 \<times> 'w) action" where
  "onNet act hw = (case hw of (h, w) \<Rightarrow> (case act w of (r, w') \<Rightarrow> (r, h, w')))"

definition clientGetService :: "'w worker_env \<Rightarrow> u64 \<Rightarrow> (client_service, i64 \<times> 'w) action" where
  "clientGetService V k = onNet (getDecode (we_chain V) (wc_service (we_codec V)) (''/services/'' @ formatUint k))"

definition clientGetRequest :: "'w worker_env \<Rightarrow> u64 \<Rightarrow> (client_request, i64 \<times> 'w) action" where
  "clientGetRequest V k = onNet (getDecode (we_chain V) (wc_request (we_codec V)) (''/requests/'' @ formatUint k))"

definition clientNonce :: "'w worker_env \<Rightarrow> string \<Rightarrow> (u64, i64 \<times> 'w) action" where
  "clientNonce V addr =
     onNet (getDecode (we_chain V) (cc_dec_nonce (wc_client (we_codec V))) (''/accounts/'' @ addr))"

text \<open>Marshalling errors are dropped here: the signature is then over no bytes.\<close>

definition canonicalOf :: "string option \<Rightarrow> bytes" where
  "canonicalOf m = (case m of None \<Rightarrow> [] | Some t \<Rightarrow> string_bytes t)"

definition signAttestation :: "'w worker_env \<Rightarrow> attestation \<Rightarrow> chain_error + string" where
  "signAttestation V a =
     bind_r (signWith (we_wallet V) (nk_priv (we_key V))
               (canonicalOf (wc_marshal_attestation (we_codec V) (a\<lparr>att_signature_hex := ''''\<rparr>))))
       (\<lambda>sig. Inr (hexEncode sig))"

definition signTx :: "'w worker_env \<Rightarrow> signed_tx \<Rightarrow> chain_error + signed_tx" where
  "signTx V tx =
     (let tx = tx\<lparr>tx_pub_key_hex := hexEncode (nk_pub (we_key V))\<rparr>;
          clone = tx\<lparr>tx_signature_hex := ''''\<rparr> in
      bind_r (signWith (we_wallet V) (nk_priv (we_key V))
                (canonicalOf (cc_marshal_tx (wc_client (we_codec V)) clone)))
        (\<lambda>sig. Inr (tx\<lparr>tx_signature_hex := hexEncode sig\<rparr>)))"

definition storeHeight :: "i64 \<Rightarrow> (unit, i64 \<times> 'w) action" where
  "storeHeight h hw = (Inr (), h, snd hw)"

definition submitTxAs :: "'w worker_env \<Rightarrow> string \<Rightarrow> tx_msg \<Rightarrow> (tx_response, i64 \<times> 'w) action" where
  "submitTxAs V ty msg =
     (let K = wc_client (we_codec V) in
      wbind (jsonOf (marshal (we_wallet V) msg)) (\<lambda>payload.
      wbind (wrapErr ''get nonce'' (clientNonce V (nk_addr (we_key V)))) (\<lambda>nonce.
      wbind (wlift (signTx V \<lparr>tx_type = ty, tx_nonce = nonce, tx_pub_key_hex = '''', tx_signature_hex = '''',
                              tx_payload = payload\<rparr>)) (\<lambda>tx.
      wbind (jsonOf (cc_marshal_tx K tx)) (\<lambda>body.
      wbind (onNet (postBody (we_chain V) ''/tx'' body)) (\<lambda>rb.
      wbind (jsonOf (wc_response (we_codec V) rb)) (\<lambda>out.
      wbind (storeHeight (tr_height out)) (\<lambda>_.
      wlift (Inr out)))))))))"

subsection \<open>The executor\<close>

record exec_result =
  ex_output :: string
  ex_output_hash :: string
  ex_output_uri :: string

definition execute :: "'w worker_env \<Rightarrow> string \<Rightarrow> (exec_result, 'w) action" where
  "execute V prompt =
     wbind (jsonOf (wc_marshal_completion (we_codec V)
              \<lparr>cq_prompt = prompt, cq_n_predict = 256, cq_temperature = 0, cq_top_k = 1, cq_top_p = 1,
               cq_stream = False\<rparr>)) (\<lambda>body.
     wbind (wrapErr ''call llama-server'' (postBody (we_llama V) ''/completion'' body)) (\<lambda>rb.
     wbind (wrapErr ''decode response'' (jsonOf (wc_completion (we_codec V) rb))) (\<lambda>content.
     if content = '''' then wlift (Inl (ErrText ''empty content''))
     else let h = hexEncode (we_sha256 V (string_bytes content)) in
       wlift (Inr \<lparr>ex_output = content, ex_output_hash = h, ex_output_uri = ''inline:'' @ h\<rparr>))))"

definition fabricated :: "'w worker_env \<Rightarrow> u64 \<Rightarrow> exec_result" where
  "fabricated V k =
     (let fake = ''MALICIOUS_PROVIDER=1 output for request '' @ formatUint k @ ''. Honest output discarded.'';
          h = hexEncode (we_sha256 V (string_bytes fake)) in
      \<lparr>ex_output = fake, ex_output_hash = h, ex_output_uri = ''inline:'' @ h\<rparr>)"

subsection \<open>One event\<close>

datatype handled = Skipped string | Gave chain_error | Answered bool

definition promptOf :: "inference_requested_payload \<Rightarrow> string" where
  "promptOf p =
     (if eir_input_text p = '''' then ''Request '' @ formatUint (eir_request_id p) @ ''. Respond briefly.''
      else eir_input_text p)"

definition workerAttestation ::
  "'w worker_env \<Rightarrow> client_service \<Rightarrow> inference_requested_payload \<Rightarrow> exec_result \<Rightarrow> i64 \<Rightarrow> attestation" where
  "workerAttestation V svc p res h =
     \<lparr>att_provider = nk_addr (we_key V), att_domain_id = cv_domain_id svc,
      att_model_sha256 = nc_model_sha256 (we_config V), att_runtime_id = nc_runtime_id (we_config V),
      att_hardware_tag = nc_hardware_tag (we_config V), att_precision = nc_precision (we_config V),
      att_tokenizer_id = nc_tokenizer_id (we_config V), att_input_hash = eir_input_hash p,
      att_output_hash = ex_output_hash res, att_produced_at = h, att_signature_hex = ''''\<rparr>"

definition answer ::
  "'w worker_env \<Rightarrow> client_service \<Rightarrow> inference_requested_payload \<Rightarrow> exec_result \<Rightarrow> (tx_response, i64 \<times> 'w) action" where
  "answer V svc p res hw =
     (let att = workerAttestation V svc p res (fst hw) in
      wbind (wlift (signAttestation V att)) (\<lambda>sig.
      submitTxAs V txSubmitResult
        (MSubmitResult \<lparr>msr_provider = nk_addr (we_key V), msr_request_id = eir_request_id p,
           msr_result = \<lparr>res_output_hash = ex_output_hash res, res_output_uri = ex_output_uri res,
             res_output_text = ex_output res, res_attestation = att\<lparr>att_signature_hex := sig\<rparr>\<rparr>\<rparr>)) hw)"

definition handleRequested ::
  "'w worker_env \<Rightarrow> inference_requested_payload \<Rightarrow> i64 \<times> 'w \<Rightarrow> handled \<times> i64 \<times> 'w" where
  "handleRequested V p hw =
     (case clientGetService V (eir_service_id p) hw of
        (Inl e, hw) \<Rightarrow> (Gave e, hw)
      | (Inr svc, hw) \<Rightarrow>
          if cv_owner svc \<noteq> nk_addr (we_key V) then (Skipped ''not our service'', hw)
          else (case clientGetRequest V (eir_request_id p) hw of
            (Inl e, hw) \<Rightarrow> (Gave e, hw)
          | (Inr req, hw) \<Rightarrow>
              if cr_status req \<noteq> ''PENDING'' then (Skipped ''request not pending'', hw)
              else (case onNet (execute V (promptOf p)) hw of
                (Inl e, hw) \<Rightarrow> (Gave e, hw)
              | (Inr res, hw) \<Rightarrow>
                  let res = (if we_malicious V then fabricated V (eir_request_id p) else res) in
                  (case answer V svc p res hw of
                     (Inl e, hw) \<Rightarrow> (Gave e, hw)
                   | (Inr resp, hw) \<Rightarrow> (Answered (tr_finalized resp), hw)))))"

definition handleEvent :: "'w worker_env \<Rightarrow> client_event \<Rightarrow> i64 \<times> 'w \<Rightarrow> handled \<times> i64 \<times> 'w" where
  "handleEvent V ev hw =
     (case wc_requested (we_codec V) (ce_payload ev) of
        None \<Rightarrow> (Skipped ''decode event'', hw)
      | Some p \<Rightarrow> handleRequested V p hw)"

text \<open>
  The loop of the node: the height of every event is remembered before the event is handled. The
  outcomes are collected in order. A panic while signing ends the process: nothing follows it.
\<close>

definition crashed :: "handled list \<Rightarrow> bool" where
  "crashed hs \<longleftrightarrow> (case rev hs of Gave (Panic _) # _ \<Rightarrow> True | _ \<Rightarrow> False)"

definition onWorkerEvent :: "'w worker_env \<Rightarrow> client_event \<Rightarrow> handled list \<times> i64 \<times> 'w \<Rightarrow> handled list \<times> i64 \<times> 'w" where
  "onWorkerEvent V ev st =
     (case st of (hs, h, w) \<Rightarrow>
        if crashed hs then st
        else (case handleEvent V ev (ce_height ev, w) of (o', hw) \<Rightarrow> (hs @ [o'], hw)))"

definition workerStream ::
  "'w worker_env \<Rightarrow> (nat \<Rightarrow> bool) \<Rightarrow> string \<Rightarrow> handled list \<times> i64 \<times> 'w \<Rightarrow> (string + unit) \<times> handled list \<times> i64 \<times> 'w" where
  "workerStream V cancelled stream st =
     subscribeEvents (wc_event (we_codec V)) cancelled (onWorkerEvent V) stream st"

definition workerTypes :: "string list" where
  "workerTypes = [''InferenceRequested'']"

end
