(* ===== verification/WorkerLaws.thy ===== *)
theory WorkerLaws
  imports Worker ChainNet
begin

text \<open>
  How the answers of the inference node fare on the chain: its envelopes pass the checks, its
  attestation matches the domain it is configured for, and an answer to its own pending request is
  accepted, with the output hash of what the model server returned.
\<close>

subsection \<open>Envelopes\<close>

definition node_key_ok :: "env \<Rightarrow> node_key \<Rightarrow> bool" where
  "node_key_ok E nk \<longleftrightarrow>
     length (nk_priv nk) = 64 \<and> nk_pub nk = drop 32 (nk_priv nk)
     \<and> nk_addr nk = addressFromPubKey (sha256 E) (nk_pub nk)"

definition raw_tx :: "string \<Rightarrow> u64 \<Rightarrow> string \<Rightarrow> signed_tx" where
  "raw_tx ty nonce payload =
     \<lparr>tx_type = ty, tx_nonce = nonce, tx_pub_key_hex = '''', tx_signature_hex = '''', tx_payload = payload\<rparr>"

lemma signTx_envelope:
  assumes "ed25519_ok E (we_wallet V) (nk_priv (we_key V))" and "node_key_ok E (we_key V)" and "ty \<in> set known_tx_types"
    and "payload \<noteq> []" and sign: "signTx V (raw_tx ty nonce payload) = Inr tx"
    and "travels E A (wc_client (we_codec V)) tx"
    and m: "cc_marshal_tx (wc_client (we_codec V)) (tx\<lparr>tx_signature_hex := ''''\<rparr>) \<noteq> None"
  shows "checkEnvelope E tx = Inr (nk_addr (we_key V))" and "tx_type tx = ty" and "tx_payload tx = payload"
    and "tx_nonce tx = nonce"
proof -
  let ?K = "wc_client (we_codec V)" and ?nk = "we_key V"
  let ?raw = "\<lparr>tx_type = ty, tx_nonce = nonce, tx_pub_key_hex = hexEncode (nk_pub ?nk), tx_signature_hex = '''',
      tx_payload = payload\<rparr>"
  let ?key = "\<lparr>ke_name = '''', ke_address = '''', ke_pub_key_hex = hexEncode (nk_pub ?nk), ke_priv_key_hex = ''''\<rparr>"
  obtain sig where s: "signWith (we_wallet V) (nk_priv ?nk) (canonicalOf (cc_marshal_tx ?K ?raw)) = Inr sig"
    and tx: "tx = ?raw\<lparr>tx_signature_hex := hexEncode sig\<rparr>"
    using sign by (auto simp: signTx_def raw_tx_def Let_def)
  then obtain canonical where c: "cc_marshal_tx ?K ?raw = Some canonical"
    using m by auto
  have "txCanonicalBytes (encode_tx E) ?raw = Some (string_bytes canonical)"
    using assms(6) c by (simp add: travels_def tx txCanonicalBytes_def)
  then have "buildTx E (we_wallet V) ?key (nk_priv ?nk) ty payload nonce = Inr tx"
    using s c by (simp add: buildTx_def Let_def tx canonicalOf_def)
  from checkEnvelope_buildTx [OF assms(1,3,4) _ _ this] assms(2)
  show "checkEnvelope E tx = Inr (nk_addr (we_key V))" "tx_type tx = ty" "tx_payload tx = payload" "tx_nonce tx = nonce"
    by (simp_all add: node_key_ok_def hexDecode_Encode)
qed

subsection \<open>Submissions\<close>

lemma submit_result_ok:
  assumes "put_accepts E" and inv: "chain_inv E {} s" and "isValidAddress signer"
    and "dec_submit_result E p = Some msg" and "msr_provider msg = signer"
    and r: "getRequest s (msr_request_id msg) = Inr r" and st: "req_status r = StatusPending"
    and "getService s (req_service_id r) = Inr svc" and "svc_owner svc = signer"
    and "att_input_hash (res_attestation (msr_result msg)) = req_input_hash r"
    and "h <=s req_deadline r"
    and "matchDomain s ''loading svc domain'' ''domain expects'' ''domain tokenizer''
               (svc_domain_id svc) (res_attestation (msr_result msg)) = Inr ()"
    and "paramsLocked s = Inr ps" and "p_challenge_window ps \<noteq> 0"
    and "unat (amount (p_provider_bond ps)) \<le> bal s signer"
  shows "\<exists>s' evs. applySubmitResult E s signer p h = Inr (s', False, evs)"
proof -
  obtain s1 where "move (Wrapped ''locking provider bond'') E s signer moduleEscrowAddr (amount (p_provider_bond ps)) = Inr s1"
    using lock_ok [OF assms(1) inv_accounts [OF inv] assms(3,15)] by blast
  moreover have "put_err E BktRequests (uint64Key (req_id r)) = None"
    by (rule put_accepts_None [OF assms(1)]) (simp_all add: length_uint64Key)
  ultimately show ?thesis
    using assms(4-14)
    by (simp add: applySubmitResult_def decode_def check_def lockBond_move finishSubmit_def putRequest_def
        bucket_put_def signed.not_less Let_def)
qed

text \<open>The domain that a service is bound to is the one the node is configured for.\<close>

definition configured_for :: "node_config \<Rightarrow> verification_domain \<Rightarrow> bool" where
  "configured_for cfg d \<longleftrightarrow>
     dom_model_sha256 d = nc_model_sha256 cfg \<and> dom_runtime_id d = nc_runtime_id cfg
     \<and> dom_hardware_tag d = nc_hardware_tag cfg \<and> dom_precision d = nc_precision cfg
     \<and> (dom_tokenizer_id d = '''' \<or> dom_tokenizer_id d = nc_tokenizer_id cfg)"

text \<open>What \<open>json.Unmarshal\<close> keeps of a service and of a request.\<close>

definition service_view :: "service \<Rightarrow> client_service" where
  "service_view v =
     \<lparr>cv_id = svc_id v, cv_owner = svc_owner v, cv_name = svc_name v, cv_description = svc_description v,
      cv_price = svc_price v, cv_domain_id = svc_domain_id v, cv_active = svc_active v,
      cv_created_at = svc_created_at v\<rparr>"

definition request_view :: "inference_request \<Rightarrow> client_request" where
  "request_view r =
     \<lparr>cr_id = req_id r, cr_service_id = req_service_id r, cr_requester = req_requester r,
      cr_input_hash = req_input_hash r, cr_input_uri = req_input_uri r, cr_input_text = req_input_text r,
      cr_escrow = req_escrow r, cr_deadline = req_deadline r, cr_status = status_text (req_status r),
      cr_created_at = req_created_at r, cr_result = req_result r\<rparr>"

text \<open>The attestation matches exactly when the node is configured for the domain.\<close>

lemma workerAttestation_matches:
  assumes "dom_id d = svc_domain_id v" and "att = (workerAttestation V (service_view v) p res h)\<lparr>att_signature_hex := sig\<rparr>"
  shows "configured_for (we_config V) d \<longleftrightarrow>
    tuple_matches d att \<and> (dom_tokenizer_id d = '''' \<or> att_tokenizer_id att = dom_tokenizer_id d)"
  using assms by (auto simp: configured_for_def tuple_matches_def workerAttestation_def service_view_def)

lemma status_text_pending: "status_text st = ''PENDING'' \<longleftrightarrow> st = StatusPending"
  by (cases st) auto

text \<open>The answer that the node posts for a result.\<close>

definition answer_msg ::
  "'w worker_env \<Rightarrow> service \<Rightarrow> inference_requested_payload \<Rightarrow> exec_result \<Rightarrow> i64 \<Rightarrow> string \<Rightarrow> msg_submit_result" where
  "answer_msg V v p res h sig =
     \<lparr>msr_provider = nk_addr (we_key V), msr_request_id = eir_request_id p,
      msr_result = \<lparr>res_output_hash = ex_output_hash res, res_output_uri = ex_output_uri res,
        res_output_text = ex_output res,
        res_attestation = (workerAttestation V (service_view v) p res h)\<lparr>att_signature_hex := sig\<rparr>\<rparr>\<rparr>"

lemma answer_ok:
  assumes net: "we_chain V = chainNet E W A kr now json" and addr: "isValidAddress (nk_addr (we_key V))"
    and "signAttestation V (workerAttestation V (service_view v) p res h) = Inr sig"
    and "marshal (we_wallet V) (MSubmitResult (answer_msg V v p res h sig)) = Some payload"
    and "cc_dec_nonce (wc_client (we_codec V)) (json (accountBody (nd_db nd) (nk_addr (we_key V)))) = Some n"
    and "signTx V (raw_tx txSubmitResult n payload) = Inr tx" and "travels E A (wc_client (we_codec V)) tx"
    and sub: "submitTx E tx nd = (Inr rc, nd')"
    and "wc_response (we_codec V) (json (BodyMap (txReply rc (heightLocked (nd_db nd'))))) = Some out"
  shows "answer V (service_view v) p res (h, nd) = (Inr out, tr_height out, nd')"
proof -
  let ?K = "wc_client (we_codec V)"
  obtain body where b: "cc_marshal_tx ?K tx = Some body" "ac_dec_tx A body = Some tx"
    using assms(7) by (auto simp: travels_def)
  have "getDecode (we_chain V) (cc_dec_nonce ?K) (''/accounts/'' @ nk_addr (we_key V)) nd = (Inr n, nd)"
    using assms(5) unfolding net by (intro getDecode_ok) (rule get_account [OF addr])
  moreover have "net_post (we_chain V) ''/tx'' body nd = (Inr (200, json (BodyMap (txReply rc (heightLocked (nd_db nd'))))), nd')"
    unfolding net post_tx submitTxH_def using b sub by (simp add: render_def)
  ultimately show ?thesis
    using assms(3,4,6,9) b(1)
    by (simp add: answer_def submitTxAs_def Let_def wbind_def jsonOf_def wlift_def postBody_def onNet_def wrapErr_def
        clientNonce_def storeHeight_def raw_tx_def answer_msg_def del: append_Cons)
qed

lemma clientGet_ok:
  assumes "we_chain V = chainNet E W A kr now json"
  shows "getService (nd_db nd) k = Inr v \<Longrightarrow> wc_service (we_codec V) (json (BodyService v)) = Some cv \<Longrightarrow>
      clientGetService V k (h, nd) = (Inr cv, h, nd)"
    and "getRequest (nd_db nd) j = Inr r \<Longrightarrow> wc_request (we_codec V) (json (BodyRequest r)) = Some cr \<Longrightarrow>
      clientGetRequest V j (h, nd) = (Inr cr, h, nd)"
proof -
  assume "getService (nd_db nd) k = Inr v" and "wc_service (we_codec V) (json (BodyService v)) = Some cv"
  then have "getDecode (we_chain V) (wc_service (we_codec V)) (''/services/'' @ formatUint k) nd = (Inr cv, nd)"
    unfolding assms by (intro getDecode_ok) (rule get_service)
  then show "clientGetService V k (h, nd) = (Inr cv, h, nd)"
    by (simp add: clientGetService_def onNet_def del: append_Cons)
next
  assume "getRequest (nd_db nd) j = Inr r" and "wc_request (we_codec V) (json (BodyRequest r)) = Some cr"
  then have "getDecode (we_chain V) (wc_request (we_codec V)) (''/requests/'' @ formatUint j) nd = (Inr cr, nd)"
    unfolding assms by (intro getDecode_ok) (rule get_request)
  then show "clientGetRequest V j (h, nd) = (Inr cr, h, nd)"
    by (simp add: clientGetRequest_def onNet_def del: append_Cons)
qed

subsection \<open>An answer that is accepted\<close>

text \<open>
  The texts of one answer travel: the service and the request decode to their views, the posted
  message and its envelope to themselves, and the reply to some response.
\<close>

definition answer_travels ::
  "env \<Rightarrow> api_codec \<Rightarrow> (api_body \<Rightarrow> string) \<Rightarrow> 'w worker_env \<Rightarrow> chain_state \<Rightarrow> service \<Rightarrow> inference_request
    \<Rightarrow> inference_requested_payload \<Rightarrow> exec_result \<Rightarrow> i64 \<Rightarrow> string \<Rightarrow> bool" where
  "answer_travels E A json V s v r p res h sig \<longleftrightarrow>
     (let C = we_codec V; K = wc_client C; msg = answer_msg V v p res h sig in
      wc_service C (json (BodyService v)) = Some (service_view v)
      \<and> wc_request C (json (BodyRequest r)) = Some (request_view r)
      \<and> cc_dec_nonce K (json (accountBody s (nk_addr (we_key V)))) = Some (nextNonce s (nk_addr (we_key V)))
      \<and> signAttestation V (workerAttestation V (service_view v) p res h) = Inr sig
      \<and> (\<exists>payload tx. marshal (we_wallet V) (MSubmitResult msg) = Some payload \<and> payload \<noteq> ''''
           \<and> dec_submit_result E payload = Some msg
           \<and> signTx V (raw_tx txSubmitResult (nextNonce s (nk_addr (we_key V))) payload) = Inr tx
           \<and> cc_marshal_tx K (tx\<lparr>tx_signature_hex := ''''\<rparr>) \<noteq> None \<and> travels E A K tx)
      \<and> (\<forall>rc ht. wc_response C (json (BodyMap (txReply rc ht))) \<noteq> None))"

lemma worker_answers:
  assumes acc: "put_accepts E" and "ed25519_ok E (we_wallet V) (nk_priv (we_key V))" and sha: "sha_ok E"
    and inv: "chain_inv E {} (nd_db nd)"
    and net: "we_chain V = chainNet E W A kr now json" and key: "node_key_ok E (we_key V)"
    and r: "getRequest (nd_db nd) (eir_request_id p) = Inr r" and st: "req_status r = StatusPending"
    and svc: "getService (nd_db nd) (req_service_id r) = Inr v" and own: "svc_owner v = nk_addr (we_key V)"
    and ev: "eir_service_id p = req_service_id r" "eir_input_hash p = req_input_hash r"
    and dl: "heightLocked (nd_db nd) <=s req_deadline r"
    and dom: "svc_domain_id v = 0 \<or> (\<exists>d. getDomain (nd_db nd) (svc_domain_id v) = Inr d \<and> configured_for (we_config V) d)"
    and ps: "paramsLocked (nd_db nd) = Inr ps" and win: "p_challenge_window ps \<noteq> 0"
    and fund: "unat (amount (p_provider_bond ps)) \<le> bal (nd_db nd) (nk_addr (we_key V))"
    and ex: "execute V (promptOf p) nd = (Inr res0, nd)"
    and res: "res = (if we_malicious V then fabricated V (eir_request_id p) else res0)"
    and trav: "answer_travels E A json V (nd_db nd) v r p res h sig"
  shows "\<exists>fin h' nd'. handleRequested V p (h, nd) = (Answered fin, h', nd')
    \<and> getRequest (nd_db nd') (eir_request_id p) =
        Inr (submitted (heightLocked (nd_db nd)) (msr_result (answer_msg V v p res h sig)) (p_provider_bond ps) r)"
proof -
  let ?s = "nd_db nd" and ?a = "nk_addr (we_key V)" and ?K = "wc_client (we_codec V)"
  let ?msg = "answer_msg V v p res h sig"
  have addr: "isValidAddress ?a"
    using key sha by (simp add: node_key_ok_def sha_ok_def isValidAddress_derived)
  obtain payload tx where sig: "signAttestation V (workerAttestation V (service_view v) p res h) = Inr sig"
    and pay: "marshal (we_wallet V) (MSubmitResult ?msg) = Some payload" "payload \<noteq> ''''"
      "dec_submit_result E payload = Some ?msg"
    and tx: "signTx V (raw_tx txSubmitResult (nextNonce ?s ?a) payload) = Inr tx" "travels E A ?K tx"
      "cc_marshal_tx ?K (tx\<lparr>tx_signature_hex := ''''\<rparr>) \<noteq> None"
    using trav by (auto simp: answer_travels_def Let_def)
  have dec: "wc_service (we_codec V) (json (BodyService v)) = Some (service_view v)"
    "wc_request (we_codec V) (json (BodyRequest r)) = Some (request_view r)"
    "cc_dec_nonce ?K (json (accountBody ?s ?a)) = Some (nextNonce ?s ?a)"
    "\<And>rc ht. wc_response (we_codec V) (json (BodyMap (txReply rc ht))) \<noteq> None"
    using trav by (auto simp: answer_travels_def Let_def)
  have "txSubmitResult \<in> set known_tx_types" by (simp add: known_tx_types_def)
  note env = signTx_envelope [OF assms(2) key this pay(2) tx(1,2,3)]
  let ?att = "(workerAttestation V (service_view v) p res h)\<lparr>att_signature_hex := sig\<rparr>"
  have msg: "msr_provider ?msg = ?a" "msr_request_id ?msg = eir_request_id p"
    "res_attestation (msr_result ?msg) = ?att" "att_input_hash ?att = req_input_hash r"
    by (simp_all add: answer_msg_def workerAttestation_def ev(2))
  have match: "matchDomain ?s ''loading svc domain'' ''domain expects'' ''domain tokenizer'' (svc_domain_id v) ?att = Inr ()"
  proof (cases "svc_domain_id v = 0")
    case False
    then obtain d where d: "getDomain ?s (svc_domain_id v) = Inr d" "configured_for (we_config V) d"
      using dom by blast
    have "dom_id d = svc_domain_id v"
      using inv d(1) by (auto simp: chain_inv_def tables_ok_def dom_ok_def)
    from workerAttestation_matches [OF this refl, where V = V and p = p and res = res and h = h and sig = sig] d show ?thesis
      by (simp add: matchDomain_Inr)
  qed (simp add: matchDomain_Inr)
  obtain s' evs where app: "applySubmitResult E ?s ?a payload (heightLocked ?s) = Inr (s', False, evs)"
    using submit_result_ok [OF acc inv addr pay(3), of r v "heightLocked ?s" ps] r st svc own dl match ps win fund msg
    by auto
  then have "dispatch E ?s ?a tx (heightLocked ?s) = Inr (s', many_events txSubmitResult False evs)"
    using env by (simp add: dispatch_def tx_names)
  from submitTx_handler [OF acc env(1) addr env(4) this]
  obtain nd' where sub: "submitTx E tx nd = (Inr (many_events txSubmitResult False evs), nd')"
    and nd': "getRequest (nd_db nd') = getRequest s'" by blast
  obtain out where "wc_response (we_codec V) (json (BodyMap (txReply (many_events txSubmitResult False evs)
      (heightLocked (nd_db nd'))))) = Some out"
    using dec(4) by blast
  from answer_ok [OF net addr sig pay(1) dec(3) tx(1,2) sub this]
  have ans: "answer V (service_view v) p res (h, nd) = (Inr out, tr_height out, nd')" .
  have "handleRequested V p (h, nd) = (Answered (tr_finalized out), tr_height out, nd')"
    using clientGet_ok(1) [OF net svc dec(1), of h] clientGet_ok(2) [OF net r dec(2), of h] ex ans
    by (simp add: handleRequested_def ev(1) onNet_def service_view_def [of v] own st request_view_def
        res [symmetric] flip: service_view_def)
  moreover have "req_id r = eir_request_id p"
    using wf_request [OF inv_wf [OF inv] r] by (simp add: req_ok_def)
  ultimately show ?thesis
    using submit_result_facts(6) [OF inv addr app pay(3) _ ps, of r] r win nd' msg(2)
    by (auto simp: Let_def)
qed

end
