(* ===== verification/ClientDemo.thy ===== *)
theory ClientDemo
  imports HarnessLaws WorkerLaws Demo
begin

text \<open>
  A node and a harness next to the chain of the theory \<open>Demo\<close>, for the witnesses: the request of that run,
  with an inline input, is answered by the provider and checked by the challenger. The codecs read and
  write the few texts of the run; signatures repeat the public key, as the environment of \<open>Demo\<close> expects.
\<close>

definition demo_key :: "u8 \<Rightarrow> bytes" where
  "demo_key n = demo_pub n @ demo_pub n"

definition demo_sha256 :: "bytes \<Rightarrow> bytes" where
  "demo_sha256 b = take 32 (b @ replicate 32 0)"

definition model_output :: string where "model_output = ''bonjour''"

definition model_result :: exec_result where
  "model_result = (let h = hexEncode (demo_sha256 (string_bytes model_output)) in
     \<lparr>ex_output = model_output, ex_output_hash = h, ex_output_uri = ''inline:'' @ h\<rparr>)"

definition watch_pending :: inference_request where
  "watch_pending = demo_pending\<lparr>req_input_uri := ''inline:in''\<rparr>"

definition watch_event :: inference_requested_payload where
  "watch_event = \<lparr>eir_request_id = 1, eir_service_id = 1, eir_requester = requester, eir_input_hash = ''in'',
     eir_input_uri = ''inline:in'', eir_input_text = ''hi'', eir_escrow = aios 10, eir_deadline = 10\<rparr>"

text \<open>The answer, and a challenge of it.\<close>

definition watch_answer :: msg_submit_result where
  "watch_answer = \<lparr>msr_provider = provider, msr_request_id = 1,
     msr_result = \<lparr>res_output_hash = ex_output_hash model_result, res_output_uri = ex_output_uri model_result,
       res_output_text = ex_output model_result,
       res_attestation = \<lparr>att_provider = provider, att_domain_id = 1, att_model_sha256 = ''m'', att_runtime_id = ''r'',
         att_hardware_tag = ''h'', att_precision = ''p'', att_tokenizer_id = '''', att_input_hash = ''in'',
         att_output_hash = ex_output_hash model_result, att_produced_at = 10,
         att_signature_hex = hexEncode (demo_key 1)\<rparr>\<rparr>\<rparr>"

definition watch_submitted :: inference_request where
  "watch_submitted = submitted 10 (msr_result watch_answer) (aios 50) watch_pending"

definition watch_signer :: signer where
  "watch_signer = \<lparr>sg_name = ''harness'', sg_addr = challenger, sg_pub_hex = hexEncode (demo_pub 3), sg_priv = demo_key 3\<rparr>"

definition other_output :: string where "other_output = ''salut''"

definition watch_challenge :: msg_challenge where
  "watch_challenge = challenge_msg watch_signer demo_vd watch_submitted (hexEncode (demo_sha256 (string_bytes other_output)))"

text \<open>The chain, whose decoders read the two messages, and its HTTP server for one posted envelope.\<close>

definition watch_env :: env where
  "watch_env = demo_env\<lparr>dec_submit_result := (\<lambda>p. if p = ''ans'' then Some watch_answer else None),
     dec_challenge := (\<lambda>p. if p = ''chl'' then Some watch_challenge else None)\<rparr>"

definition watch_api :: "signed_tx \<Rightarrow> api_codec" where
  "watch_api tx = \<lparr>ac_dec_tx = (\<lambda>_. Some tx), ac_dec_register_domain = (\<lambda>_. None), ac_dec_register = (\<lambda>_. None),
     ac_dec_challenge = (\<lambda>_. None), ac_dec_request = (\<lambda>_. None), ac_dec_update_service = (\<lambda>_. None),
     ac_dec_deactivate_service = (\<lambda>_. None), ac_dec_deactivate_domain = (\<lambda>_. None),
     ac_dec_resolve_challenge = (\<lambda>_. None), ac_model_sha = ''''\<rparr>"

definition watch_wallet :: wallet where
  "watch_wallet = \<lparr>ed25519_sign = (\<lambda>priv m. drop 32 priv @ drop 32 priv),
     marshal = (\<lambda>m. case m of MSubmitResult x \<Rightarrow> Some ''ans'' | MChallenge x \<Rightarrow> Some ''chl'' | _ \<Rightarrow> None)\<rparr>"

text \<open>A rendering of bodies as short texts; what identifies a request and its state is in the text.\<close>

definition watch_json :: "api_body \<Rightarrow> string" where
  "watch_json b = (case b of BodyRequest r \<Rightarrow> ''request'' | BodyService v \<Rightarrow> ''service'' | BodyDomain d \<Rightarrow> ''domain''
     | BodyMap m \<Rightarrow> ''map'' | _ \<Rightarrow> '''')"

definition watch_chain :: "signed_tx \<Rightarrow> node net" where
  "watch_chain tx = chainNet watch_env watch_wallet (watch_api tx) (Inr []) ''now'' watch_json"

definition watch_llama :: "string \<Rightarrow> 'w net" where
  "watch_llama output = \<lparr>net_get = (\<lambda>path w. (Inr (404, ''''), w)), net_post = (\<lambda>path body w. (Inr (200, output), w))\<rparr>"

definition watch_client :: client_codec where
  "watch_client = \<lparr>cc_marshal_tx = (\<lambda>tx. Some (tx_payload tx)), cc_dec_nonce = (\<lambda>_. Some 0)\<rparr>"

definition watch_node :: "inference_request \<Rightarrow> node" where
  "watch_node r = \<lparr>nd_db = demo_dom_state r, nd_bus = empty_bus\<rparr>"

subsection \<open>The inference node\<close>

definition worker_texts :: worker_codec where
  "worker_texts = \<lparr>wc_event = (\<lambda>_. None), wc_requested = (\<lambda>_. Some watch_event),
     wc_service = (\<lambda>_. Some (service_view demo_dom_svc)), wc_request = (\<lambda>_. Some (request_view watch_pending)),
     wc_response = (\<lambda>_. Some \<lparr>tr_type = txSubmitResult, tr_height = 10, tr_service_id = 0, tr_request_id = 0, tr_finalized = False\<rparr>),
     wc_marshal_attestation = (\<lambda>_. Some ''a''), wc_marshal_completion = (\<lambda>_. Some ''q''), wc_completion = Some,
     wc_client = watch_client\<rparr>"

definition worker :: "node worker_env" where
  "worker = \<lparr>we_codec = worker_texts, we_wallet = watch_wallet, we_sha256 = demo_sha256,
     we_key = \<lparr>nk_name = ''bob'', nk_addr = provider, nk_pub = demo_pub 1, nk_priv = demo_key 1\<rparr>,
     we_config = \<lparr>nc_model_sha256 = ''m'', nc_runtime_id = ''r'', nc_precision = ''p'', nc_hardware_tag = ''h'', nc_tokenizer_id = ''''\<rparr>,
     we_malicious = False, we_chain = watch_chain (demo_tx txSubmitResult 0 1 ''ans''), we_llama = watch_llama model_output\<rparr>"

definition worker_event_text :: client_event where
  "worker_event_text = \<lparr>ce_type = ''InferenceRequested'', ce_height = 10, ce_payload = ''p''\<rparr>"

subsection \<open>The harness\<close>

text \<open>The request that the harness is sent is a parameter of its decoder.\<close>

definition harness_texts :: "(string \<Rightarrow> full_request option) \<Rightarrow> harness_codec" where
  "harness_texts full = \<lparr>hc_event = (\<lambda>_. None), hc_request_id = (\<lambda>_. None), hc_full = full, hc_domain = (\<lambda>_. Some (view_of demo_vd)),
     hc_marshal_completion = (\<lambda>_. ''q''), hc_completion = Some, hc_client = watch_client\<rparr>"

definition watcher :: "signed_tx \<Rightarrow> string \<Rightarrow> signer option \<Rightarrow> (string \<Rightarrow> full_request option) \<Rightarrow> node harness_env" where
  "watcher tx output sg full = \<lparr>he_codec = harness_texts full, he_wallet = watch_wallet, he_sha256 = demo_sha256, he_signer = sg,
     he_chain = watch_chain tx, he_llama = watch_llama output\<rparr>"

subsection \<open>What the witnesses need\<close>

lemma chain_inv_env: "put_err E = put_err E' \<Longrightarrow> chain_inv E D s = chain_inv E' D s"
  by (simp add: chain_inv_def tables_ok_def svc_ok_def)

lemma watch_env_ok:
  "put_accepts watch_env" "sha_ok watch_env" "ed25519_ok watch_env watch_wallet (demo_key n)"
  "chain_inv watch_env {} s = chain_inv demo_env {} s" "sha256 watch_env = demo_sha256"
proof -
  show "put_accepts watch_env"
    using demo_accepts by (simp add: watch_env_def put_accepts_def)
  show "sha_ok watch_env"
    using demo_sha by (simp add: watch_env_def sha_ok_def)
  show "chain_inv watch_env {} s = chain_inv demo_env {} s"
    by (rule chain_inv_env) (simp add: watch_env_def)
  show "ed25519_ok watch_env watch_wallet (demo_key n)"
    by (simp add: ed25519_ok_def watch_wallet_def watch_env_def demo_env_def demo_key_def demo_pub_def)
  show "sha256 watch_env = demo_sha256"
    by (simp add: fun_eq_iff watch_env_def demo_env_def demo_sha256_def)
qed

lemma demo_key_parts [simp]: "length (demo_key n) = 64" "drop 32 (demo_key n) = demo_pub n" "demo_pub n \<noteq> []"
  by (simp_all add: demo_key_def demo_pub_def)

lemma demo_pub_addr: "addressFromPubKey demo_sha256 (demo_pub n) = demo_addr n"
  using demo_hash [of n] unfolding watch_env_ok(5) [symmetric] watch_env_def by simp

lemma watch_keys: "signer_ok watch_env watch_signer" "node_key_ok watch_env (we_key worker)"
  by (simp_all add: signer_ok_def watch_signer_def hexDecode_Encode watch_env_ok(5) demo_pub_addr node_key_ok_def worker_def)

lemma watch_nonce: "nextNonce (demo_dom_state r) a = 0"
  by (simp add: nextNonce_def demo_dom_state_def demo_state_def)

lemma watch_bal: "bal (demo_dom_state r) = bal (demo_state r)"
  by (simp add: demo_dom_state_def)

lemma watch_height: "heightLocked (demo_dom_state r) = 10"
  by (simp add: demo_dom_state_def demo_state_def heightLocked_def getMetaUint64_def meta_keys)

lemma watch_shapes: "req_shape watch_pending" "req_shape watch_submitted"
  by (simp_all add: req_shape_def watch_pending_def watch_submitted_def demo_reqs)

lemma watch_invs:
  "chain_inv watch_env {} (demo_dom_state watch_pending)" "chain_inv watch_env {} (demo_dom_state watch_submitted)"
proof -
  have "req_locked watch_pending \<le> 900" "req_locked watch_submitted \<le> 900"
    by (simp_all add: watch_pending_def watch_submitted_def demo_reqs req_locked_def req_stakes_def
        challenge_locked_def voucher_locked_def)
  moreover have "req_id watch_pending = 1" "req_id watch_submitted = 1" "req_service_id watch_pending = 1"
    "req_service_id watch_submitted = 1"
    by (simp_all add: watch_pending_def watch_submitted_def submitted_def)
  ultimately show "chain_inv watch_env {} (demo_dom_state watch_pending)" "chain_inv watch_env {} (demo_dom_state watch_submitted)"
    unfolding watch_env_ok(4) by (simp_all add: demo_dom_inv watch_shapes)
qed

lemma watch_tx_travels:
  "tx = demo_tx ty n who p \<Longrightarrow> travels watch_env (watch_api tx) watch_client tx"
  by (simp add: travels_def watch_client_def watch_api_def watch_env_def demo_env_def txCanonicalBytes_def)

lemma watch_answer_msg: "answer_msg worker demo_dom_svc watch_event model_result 10 (hexEncode (demo_key 1)) = watch_answer"
  by (simp add: answer_msg_def watch_answer_def workerAttestation_def worker_def service_view_def demo_dom_svc_def watch_event_def)

lemma worker_model: "execute worker (promptOf watch_event) w = (Inr model_result, w)"
  by (simp add: execute_def worker_def worker_texts_def wbind_def jsonOf_def wlift_def wrapErr_def postBody_def
      watch_llama_def model_output_def model_result_def Let_def)

lemma worker_answer_travels:
  "answer_travels watch_env (watch_api (demo_tx txSubmitResult 0 1 ''ans'')) watch_json worker (demo_dom_state watch_pending)
     demo_dom_svc watch_pending watch_event model_result 10 (hexEncode (demo_key 1))"
proof -
  let ?tx = "demo_tx txSubmitResult 0 1 ''ans''"
  have "signTx worker (raw_tx txSubmitResult 0 ''ans'') = Inr ?tx"
    by (simp add: signTx_def worker_def worker_texts_def watch_client_def signWith_def watch_wallet_def raw_tx_def
        demo_tx_def demo_key_def demo_pub_def Let_def canonicalOf_def)
  moreover have "travels watch_env (watch_api ?tx) (wc_client (we_codec worker)) ?tx"
    using watch_tx_travels [OF refl] by (simp add: worker_def worker_texts_def)
  ultimately show ?thesis
    unfolding answer_travels_def Let_def watch_answer_msg watch_nonce
    by (intro conjI exI [of _ "''ans''"] exI [of _ ?tx])
      (simp_all add: worker_def worker_texts_def watch_client_def watch_wallet_def signAttestation_def signWith_def
        demo_key_def demo_pub_def watch_env_def)
qed

lemma watch_challenge_travels:
  "challenge_travels watch_env (watch_api (demo_tx txChallenge 0 3 ''chl'')) watch_json
     (watcher (demo_tx txChallenge 0 3 ''chl'') other_output (Some watch_signer) (\<lambda>_. Some (full_of watch_submitted)))
     watch_signer (demo_dom_state watch_submitted) demo_vd watch_submitted (hexEncode (demo_sha256 (string_bytes other_output)))"
proof -
  let ?tx = "demo_tx txChallenge 0 3 ''chl''"
  have "signRaw watch_client watch_wallet watch_signer txChallenge 0 ''chl'' = Inr ?tx"
    by (simp add: signRaw_def watch_client_def signWith_def watch_wallet_def watch_signer_def demo_tx_def
        demo_key_def demo_pub_def Let_def)
  moreover have "travels watch_env (watch_api ?tx) watch_client ?tx"
    by (rule watch_tx_travels) (rule refl)
  ultimately show ?thesis
    unfolding challenge_travels_def Let_def watch_challenge_def [symmetric] watch_nonce
    by (intro conjI exI [of _ "''chl''"] exI [of _ ?tx])
      (simp_all add: watcher_def harness_texts_def watch_client_def watch_wallet_def watch_env_def)
qed

end
