(* ===== verification/ClientSpec.thy ===== *)
theory ClientSpec
  imports ClientDemo
begin

text \<open>
  Properties of the harness and of the inference node, alone and together with the chain that serves
  them: what a verdict means, what a report counts, that a divergence ends in a challenge on the chain,
  that an answer ends in a submitted result, and that an honest answer survives a check.
\<close>

section \<open>Verdicts and reports\<close>

text \<open>C20: Every check ends with the verdict that the chain's record and the replay call for: an error
  when the request cannot be fetched, has no result, has no text or cannot be replayed; skipped when its
  input is not inline; otherwise OK exactly when the SHA-256 of the replayed output is the output hash on
  the chain, and divergent if not. A challenge is reported as filed only for a divergence on a request
  that is not challenged yet, and a vouch only on a challenged one, for the side whose hash is ours.\<close>

theorem harness_verdict:
  "let (fetched, w1) = fetchRequest H k w;
       (v, panicked, w') = checkRequest H now k w in
   vr_request_id v = k
   \<and> vr_verdict v = verdict_kind (he_sha256 H) fetched
       (case fetched of Inl e \<Rightarrow> Inl e | Inr full \<Rightarrow> fst (replay H (fq_input_text full) w1))
   \<and> sound_filing H fetched v"
proof -
  obtain fetched w1 where f: "fetchRequest H k w = (fetched, w1)" by fastforce
  obtain v p w' where c: "checkRequest H now k w = (v, p, w')" by (cases "checkRequest H now k w") auto
  show ?thesis
    using checkRequest_facts [OF c f] by (simp add: f c)
qed

text \<open>The report of \<open>GET /results\<close>: it lists the verdicts of the last hundred checks, oldest first, and
  its four counters count exactly these, so they add up to the number of listed verdicts.\<close>

theorem harness_reports_last_verdicts:
  "let listed = fst (snd (runChecks H now ks ([], w)));
       count = (\<lambda>kind. int (length (filter (\<lambda>r. vr_verdict r = kind) listed)));
       rep = reportOf listed in
   listed = lastN maxStoredResults (verdicts H now ks w) \<and> length listed \<le> 100 \<and> rep_items rep = listed
   \<and> rep_ok rep = count ''OK'' \<and> rep_divergent rep = count ''DIVERGENT'' \<and> rep_skipped rep = count ''SKIPPED''
   \<and> rep_ok rep + rep_divergent rep + rep_skipped rep + rep_errors rep = int (length listed)"
proof -
  define rs where "rs = fst (snd (runChecks H now ks ([], w)))"
  have rs: "rs = lastN maxStoredResults (verdicts H now ks w)"
    using results.fold_push [of "[]" "verdicts H now ks w"] by (simp add: rs_def runChecks_results)
  then have "length rs \<le> 100"
    by (simp add: maxStoredResults_def)
  moreover have "rep_items (reportOf rs) = rs \<and> rep_ok (reportOf rs) = int (length (filter (\<lambda>r. vr_verdict r = ''OK'') rs))
      \<and> rep_divergent (reportOf rs) = int (length (filter (\<lambda>r. vr_verdict r = ''DIVERGENT'') rs))
      \<and> rep_skipped (reportOf rs) = int (length (filter (\<lambda>r. vr_verdict r = ''SKIPPED'') rs))"
    by (simp add: reportOf_def countVerdicts_ok)
  moreover have "rep_ok (reportOf rs) + rep_divergent (reportOf rs) + rep_skipped (reportOf rs) + rep_errors (reportOf rs)
      = int (length rs)"
    unfolding reportOf_def countVerdicts_total by simp
  ultimately show ?thesis
    unfolding Let_def rs_def [symmetric] using rs by blast
qed

section \<open>A divergence ends in a challenge\<close>

text \<open>C18: When the harness replays a submitted result of a domain-bound service inside the challenge
  window, gets another output and can pay the bond, then its check says DIVERGENT, the transaction that
  it signs and posts is accepted by the chain, and the request is challenged there by the harness with
  the hash of the replayed output. The two ends agree on the texts that travel.\<close>

theorem divergence_is_challenged:
  assumes "put_accepts E" and "ed25519_ok E (he_wallet H) (sg_priv sg)" and "sha_ok E" and "chain_inv E {} (nd_db nd)"
    and net: "he_chain H = chainNet E W A kr now json" and sg: "he_signer H = Some sg" and "signer_ok E sg"
    and r: "getRequest (nd_db nd) k = Inr r" and st: "req_status r = StatusSubmitted" and res: "req_result r = Some res"
    and input: "hasPrefix (req_input_uri r) ''inline:''" "req_input_text r \<noteq> ''''"
    and model: "model_says H (req_input_text r) out nd"
    and hash: "hash = hexEncode (he_sha256 H (string_bytes out))" "hash \<noteq> res_output_hash res"
    and "getService (nd_db nd) (req_service_id r) = Inr v" and "getDomain (nd_db nd) (svc_domain_id v) = Inr d"
    and "att_domain_id (res_attestation res) = svc_domain_id v" and "paramsLocked (nd_db nd) = Inr ps"
    and "heightLocked (nd_db nd) <=s req_submitted_at r + p_challenge_window ps"
    and "unat (amount (p_challenger_bond ps)) \<le> bal (nd_db nd) (sg_addr sg)"
    and trav: "challenge_travels E A json H sg (nd_db nd) d r hash"
  shows "\<exists>vd nd' ch. checkRequest H t k nd = (vd, False, nd') \<and> vr_verdict vd = ''DIVERGENT'' \<and> vr_challenge_filed vd
    \<and> getRequest (nd_db nd') k = Inr (challenged ch r) \<and> ch_challenger ch = sg_addr sg
    \<and> att_output_hash (ch_attestation ch) = hash \<and> ch_bond ch = p_challenger_bond ps"
proof -
  obtain fres where fres: "fq_result (full_of r) = Some fres" "fr_output_hash fres = res_output_hash res"
    using res by (simp add: full_of_def)
  obtain nd' where filed: "fileChallenge H sg k hash (full_of r) fres nd = (Inr (), nd')"
    and req: "getRequest (nd_db nd') k = Inr (challenged
        \<lparr>ch_challenger = sg_addr sg, ch_posted_at = heightLocked (nd_db nd),
         ch_attestation = harnessAttestation sg (view_of d) (full_of r) hash, ch_bond = p_challenger_bond ps\<rparr> r)"
    using fileChallenge_ok [OF assms(1-4) net assms(7) r st res hash(2) assms(16-21) trav fres(1)] by blast
  have full: "fq_input_uri (full_of r) = req_input_uri r" "fq_input_text (full_of r) = req_input_text r"
    "fq_status (full_of r) = ''SUBMITTED''"
    using st by (simp_all add: full_of_def)
  have "fetchRequest H k nd = (Inr (full_of r), nd)"
    using trav by (intro fetchRequest_ok [OF net r]) (simp add: challenge_travels_def Let_def)
  then have "\<exists>vd. checkRequest H t k nd = (vd, False, nd') \<and> vr_verdict vd = ''DIVERGENT'' \<and> vr_challenge_filed vd"
    using filed fres input model hash full
    by (simp add: checkRequest_def Let_def model_says_def compareHashes_def onDivergence_def sg
        conclude_def newVerdict_def afterFiling_def addNote_def)
  with req show ?thesis
    by (fastforce simp: harnessAttestation_def)
qed

theorem divergence_is_challenged_witness:
  "let tx = demo_tx txChallenge 0 3 ''chl'';
       H = watcher tx other_output (Some watch_signer) (\<lambda>_. Some (full_of watch_submitted)) in
   \<exists>vd nd' ch. checkRequest H ''t'' 1 (watch_node watch_submitted) = (vd, False, nd') \<and> vr_verdict vd = ''DIVERGENT''
     \<and> getRequest (nd_db nd') 1 = Inr (challenged ch watch_submitted) \<and> ch_challenger ch = challenger"
proof -
  let ?tx = "demo_tx txChallenge 0 3 ''chl''"
  let ?H = "watcher ?tx other_output (Some watch_signer) (\<lambda>_. Some (full_of watch_submitted))"
  let ?hash = "hexEncode (demo_sha256 (string_bytes other_output))"
  have hash: "?hash \<noteq> ex_output_hash model_result"
    by code_simp
  have sub: "req_status watch_submitted = StatusSubmitted" "req_result watch_submitted = Some (msr_result watch_answer)"
    "req_service_id watch_submitted = 1" "req_input_uri watch_submitted = ''inline:in''"
    "req_input_text watch_submitted = ''hi''" "req_submitted_at watch_submitted = 10"
    by (simp_all add: watch_submitted_def submitted_def watch_pending_def demo_pending_def)
  have "\<exists>vd nd' ch. checkRequest ?H ''t'' 1 (watch_node watch_submitted) = (vd, False, nd') \<and> vr_verdict vd = ''DIVERGENT''
      \<and> vr_challenge_filed vd \<and> getRequest (nd_db nd') 1 = Inr (challenged ch watch_submitted)
      \<and> ch_challenger ch = sg_addr watch_signer \<and> att_output_hash (ch_attestation ch) = ?hash
      \<and> ch_bond ch = p_challenger_bond defaultParams"
  proof (rule divergence_is_challenged [where E = watch_env and W = watch_wallet and A = "watch_api ?tx" and kr = "Inr []"
        and now = "''now''" and json = watch_json and sg = watch_signer and v = demo_dom_svc and d = demo_vd
        and out = other_output and res = "msr_result watch_answer"])
    show "challenge_travels watch_env (watch_api ?tx) watch_json ?H watch_signer (nd_db (watch_node watch_submitted)) demo_vd
        watch_submitted ?hash"
      using watch_challenge_travels by (simp add: watch_node_def)
    show "signer_ok watch_env watch_signer" by (rule watch_keys)
    show "?hash \<noteq> res_output_hash (msr_result watch_answer)"
      using hash by (simp add: watch_answer_def)
    show "heightLocked (nd_db (watch_node watch_submitted)) <=s req_submitted_at watch_submitted + p_challenge_window defaultParams"
      by (simp add: watch_node_def watch_height sub defaultParams_def word_sle_eq)
  qed (simp_all add: watch_env_ok(1-3) watch_invs watch_keys watch_node_def sub watcher_def watch_chain_def
      model_says_def replay_def harness_texts_def postBody_def watch_llama_def wbind_def jsonOf_def wlift_def hasPrefix_def
      watch_answer_def demo_dom_svc_def watch_bal watch_signer_def demo_bal defaultParams_def aios_def)
  then show ?thesis
    unfolding Let_def by (fastforce simp: watch_signer_def)
qed

section \<open>An answer ends in a submitted result\<close>

text \<open>
  The situation in which the node has to answer: the event is about a stored, pending request within its
  deadline, for a service that the node's key owns and whose domain, if any, is the configured one, and
  the node can pay the provider bond.
\<close>

definition answerable ::
  "chain_state \<Rightarrow> 'w worker_env \<Rightarrow> inference_requested_payload \<Rightarrow> inference_request \<Rightarrow> service \<Rightarrow> params \<Rightarrow> bool" where
  "answerable s V p r v ps \<longleftrightarrow>
     getRequest s (eir_request_id p) = Inr r \<and> req_status r = StatusPending
     \<and> getService s (req_service_id r) = Inr v \<and> svc_owner v = nk_addr (we_key V)
     \<and> eir_service_id p = req_service_id r \<and> eir_input_hash p = req_input_hash r \<and> eir_input_text p = req_input_text r
     \<and> heightLocked s <=s req_deadline r
     \<and> (svc_domain_id v = 0 \<or> (\<exists>d. getDomain s (svc_domain_id v) = Inr d \<and> configured_for (we_config V) d))
     \<and> paramsLocked s = Inr ps \<and> p_challenge_window ps \<noteq> 0
     \<and> unat (amount (p_provider_bond ps)) \<le> bal s (nk_addr (we_key V))"

lemma worker_event:
  assumes "put_accepts E" and "ed25519_ok E (we_wallet V) (nk_priv (we_key V))" and "sha_ok E" and "chain_inv E {} (nd_db nd)"
    and "we_chain V = chainNet E W A kr now json" and "node_key_ok E (we_key V)"
    and "wc_requested (we_codec V) (ce_payload ev) = Some p" and a: "answerable (nd_db nd) V p r v ps"
    and "execute V (promptOf p) nd = (Inr res0, nd)"
    and "res = (if we_malicious V then fabricated V (eir_request_id p) else res0)"
    and "answer_travels E A json V (nd_db nd) v r p res (ce_height ev) sig" and "\<not> crashed hs"
  shows "\<exists>fin h' nd'. onWorkerEvent V ev (hs, h0, nd) = (hs @ [Answered fin], h', nd')
    \<and> getRequest (nd_db nd') (eir_request_id p) =
        Inr (submitted (heightLocked (nd_db nd)) (msr_result (answer_msg V v p res (ce_height ev) sig)) (p_provider_bond ps) r)"
proof -
  obtain fin h' nd' where "handleRequested V p (ce_height ev, nd) = (Answered fin, h', nd')"
    and "getRequest (nd_db nd') (eir_request_id p) =
        Inr (submitted (heightLocked (nd_db nd)) (msr_result (answer_msg V v p res (ce_height ev) sig)) (p_provider_bond ps) r)"
    using worker_answers [OF assms(1-6) _ _ _ _ _ _ _ _ _ _ _ assms(9-11)] a
    by (auto simp: answerable_def)
  then show ?thesis
    using assms(7,12) by (auto simp: onWorkerEvent_def handleEvent_def)
qed

text \<open>C19: The inference node does its job: when an event announces a request that it has to answer and the
  model server answers, the chain accepts the transaction the node signs and posts; the request is then
  submitted with the model's output, its SHA-256 and the node's bond, or with the fabricated output when
  the node is malicious. The node's key, its funds and the texts that travel are as they should be.\<close>

theorem worker_answer_accepted:
  assumes "put_accepts E" and "ed25519_ok E (we_wallet V) (nk_priv (we_key V))" and "sha_ok E" and "chain_inv E {} (nd_db nd)"
    and "we_chain V = chainNet E W A kr now json" and "node_key_ok E (we_key V)"
    and "wc_requested (we_codec V) (ce_payload ev) = Some p" and "answerable (nd_db nd) V p r v ps"
    and "execute V (promptOf p) nd = (Inr res0, nd)"
    and "res = (if we_malicious V then fabricated V (eir_request_id p) else res0)"
    and "answer_travels E A json V (nd_db nd) v r p res (ce_height ev) sig" and "\<not> crashed hs"
  shows "\<exists>fin h' nd' r' out. onWorkerEvent V ev (hs, h0, nd) = (hs @ [Answered fin], h', nd')
    \<and> getRequest (nd_db nd') (eir_request_id p) = Inr r' \<and> req_status r' = StatusSubmitted
    \<and> req_provider_bond r' = (if isPositive (p_provider_bond ps) then Some (p_provider_bond ps) else req_provider_bond r)
    \<and> req_result r' = Some out
    \<and> res_output_text out = ex_output res \<and> res_output_hash out = ex_output_hash res
    \<and> att_provider (res_attestation out) = nk_addr (we_key V) \<and> att_input_hash (res_attestation out) = req_input_hash r"
proof -
  let ?out = "msr_result (answer_msg V v p res (ce_height ev) sig)"
  obtain fin h' nd' where run: "onWorkerEvent V ev (hs, h0, nd) = (hs @ [Answered fin], h', nd')"
    and req: "getRequest (nd_db nd') (eir_request_id p) =
        Inr (submitted (heightLocked (nd_db nd)) ?out (p_provider_bond ps) r)"
    using worker_event [OF assms] by blast
  have "eir_input_hash p = req_input_hash r"
    using assms(8) by (simp add: answerable_def)
  then have "res_output_text ?out = ex_output res \<and> res_output_hash ?out = ex_output_hash res
      \<and> att_provider (res_attestation ?out) = nk_addr (we_key V) \<and> att_input_hash (res_attestation ?out) = req_input_hash r"
    by (simp add: answer_msg_def workerAttestation_def)
  with run req show ?thesis
    by (intro exI [of _ fin] exI [of _ h'] exI [of _ nd'] exI [of _ "submitted (heightLocked (nd_db nd)) ?out (p_provider_bond ps) r"]
        exI [of _ ?out]) (simp add: submitted_def)
qed

lemma worker_answerable: "answerable (nd_db (watch_node watch_pending)) worker watch_event watch_pending demo_dom_svc defaultParams"
  unfolding answerable_def watch_node_def
  by (simp add: watch_event_def watch_pending_def demo_pending_def demo_dom_svc_def demo_svc_def worker_def configured_for_def
      demo_vd_def watch_height watch_bal demo_bal defaultParams_def aios_def)

lemma worker_wire:
  "we_chain worker = chainNet watch_env watch_wallet (watch_api (demo_tx txSubmitResult 0 1 ''ans'')) (Inr []) ''now'' watch_json"
  "wc_requested (we_codec worker) (ce_payload worker_event_text) = Some watch_event" "ce_height worker_event_text = 10"
  "we_wallet worker = watch_wallet" "\<not> we_malicious worker" "we_sha256 worker = demo_sha256"
  "nk_priv (we_key worker) = demo_key 1"
  by (simp_all add: worker_def watch_chain_def worker_texts_def worker_event_text_def)

theorem worker_answer_accepted_witness:
  "\<exists>fin h' nd' r' out. onWorkerEvent worker worker_event_text ([], 0, watch_node watch_pending) = ([Answered fin], h', nd')
     \<and> getRequest (nd_db nd') 1 = Inr r' \<and> req_status r' = StatusSubmitted \<and> req_result r' = Some out
     \<and> res_output_text out = ''bonjour''"
proof -
  have "execute worker (promptOf watch_event) (watch_node watch_pending) = (Inr model_result, watch_node watch_pending)"
    by (rule worker_model)
  from worker_answer_accepted [OF watch_env_ok(1) _ watch_env_ok(2) _ worker_wire(1) watch_keys(2) worker_wire(2)
      worker_answerable this _ _, of model_result "hexEncode (demo_key 1)" "[]" 0]
  show ?thesis
    using worker_answer_travels watch_env_ok(3) watch_invs(1) worker_wire
    by (fastforce simp: watch_node_def crashed_def watch_event_def model_result_def model_output_def Let_def)
qed

section \<open>The two together\<close>

lemma execute_hash:
  assumes "execute V prompt w = (Inr res, w')"
  shows "ex_output_hash res = hexEncode (we_sha256 V (string_bytes (ex_output res)))"
  using assms by (auto simp: execute_def wbind_Inr wlift_Inr Let_def split: if_splits)

text \<open>C17: Honest work survives verification: after the node has answered a request with the model's
  output, a harness whose own model server gives the same output for the same text checks the request,
  says OK, files nothing and leaves the chain as it is. If the node is malicious, and its fabricated
  output hashes differently, a harness that only observes says DIVERGENT.\<close>

theorem honest_answer_verifies:
  assumes "put_accepts E" and "ed25519_ok E (we_wallet V) (nk_priv (we_key V))" and "sha_ok E" and "chain_inv E {} (nd_db nd)"
    and "we_chain V = chainNet E W A kr now json" and "node_key_ok E (we_key V)"
    and "wc_requested (we_codec V) (ce_payload ev) = Some p" and a: "answerable (nd_db nd) V p r v ps"
    and ex: "execute V (promptOf p) nd = (Inr res0, nd)"
    and res: "res = (if we_malicious V then fabricated V (eir_request_id p) else res0)"
    and "answer_travels E A json V (nd_db nd) v r p res (ce_height ev) sig" and "\<not> crashed hs"
    and net: "he_chain H = chainNet E W A kr now json" and sha: "he_sha256 H = we_sha256 V"
    and r2: "r2 = submitted (heightLocked (nd_db nd)) (msr_result (answer_msg V v p res (ce_height ev) sig)) (p_provider_bond ps) r"
    and dec: "hc_full (he_codec H) (json (BodyRequest r2)) = Some (full_of r2)"
    and input: "hasPrefix (req_input_uri r) ''inline:''" "req_input_text r \<noteq> ''''"
    and model: "\<forall>w. model_says H (req_input_text r) (ex_output res0) w"
    and fake: "we_malicious V \<Longrightarrow> he_signer H = None
      \<and> ex_output_hash (fabricated V (eir_request_id p)) \<noteq> ex_output_hash res0"
  shows "\<exists>fin h' nd' vd. onWorkerEvent V ev (hs, h0, nd) = (hs @ [Answered fin], h', nd')
    \<and> checkRequest H t (eir_request_id p) nd' = (vd, False, nd')
    \<and> vr_verdict vd = (if we_malicious V then ''DIVERGENT'' else ''OK'')
    \<and> \<not> vr_challenge_filed vd \<and> \<not> vr_vouch_filed vd"
proof -
  let ?out = "msr_result (answer_msg V v p res (ce_height ev) sig)"
  let ?r = "submitted (heightLocked (nd_db nd)) ?out (p_provider_bond ps) r"
  obtain fin h' nd' where run: "onWorkerEvent V ev (hs, h0, nd) = (hs @ [Answered fin], h', nd')"
    and req: "getRequest (nd_db nd') (eir_request_id p) = Inr ?r"
    using worker_event [OF assms(1-12)] by blast
  obtain fres where fres: "fq_result (full_of ?r) = Some fres" "fr_output_hash fres = ex_output_hash res"
    by (simp add: full_of_def submitted_def answer_msg_def)
  have full: "fq_input_uri (full_of ?r) = req_input_uri r" "fq_input_text (full_of ?r) = req_input_text r"
    "fq_status (full_of ?r) = ''SUBMITTED''"
    by (simp_all add: full_of_def submitted_def)
  have "fetchRequest H (eir_request_id p) nd' = (Inr (full_of ?r), nd')"
    by (rule fetchRequest_ok [OF net req]) (use dec in \<open>simp add: r2\<close>)
  moreover have "hexEncode (he_sha256 H (string_bytes (ex_output res0))) = ex_output_hash res0"
    using execute_hash [OF ex] by (simp add: sha)
  ultimately have "\<exists>vd. checkRequest H t (eir_request_id p) nd' = (vd, False, nd')
      \<and> vr_verdict vd = (if we_malicious V then ''DIVERGENT'' else ''OK'')
      \<and> \<not> vr_challenge_filed vd \<and> \<not> vr_vouch_filed vd"
    using input model fres full res fake
    by (auto simp: checkRequest_def Let_def model_says_def compareHashes_def onMatch_def onDivergence_def
        conclude_def newVerdict_def addNote_def split: option.splits)
  with run show ?thesis by blast
qed

theorem honest_answer_verifies_witness:
  "\<exists>fin h' nd' vd. onWorkerEvent worker worker_event_text ([], 0, watch_node watch_pending) = ([Answered fin], h', nd')
     \<and> checkRequest (watcher (demo_tx txSubmitResult 0 1 ''ans'') model_output (Some watch_signer) (\<lambda>_. Some (full_of watch_submitted)))
         ''t'' 1 nd' = (vd, False, nd')
     \<and> vr_verdict vd = ''OK'' \<and> \<not> vr_challenge_filed vd \<and> \<not> vr_vouch_filed vd"
proof -
  let ?H = "watcher (demo_tx txSubmitResult 0 1 ''ans'') model_output (Some watch_signer) (\<lambda>_. Some (full_of watch_submitted))"
  let ?nd = "watch_node watch_pending"
  have r2: "watch_submitted = submitted (heightLocked (nd_db ?nd))
      (msr_result (answer_msg worker demo_dom_svc watch_event model_result (ce_height worker_event_text) (hexEncode (demo_key 1))))
      (p_provider_bond defaultParams) watch_pending"
    unfolding worker_wire(3) watch_answer_msg
    by (simp add: watch_submitted_def watch_node_def watch_height defaultParams_def)
  have "\<exists>fin h' nd' vd. onWorkerEvent worker worker_event_text ([], 0, ?nd) = ([] @ [Answered fin], h', nd')
      \<and> checkRequest ?H ''t'' (eir_request_id watch_event) nd' = (vd, False, nd')
      \<and> vr_verdict vd = (if we_malicious worker then ''DIVERGENT'' else ''OK'')
      \<and> \<not> vr_challenge_filed vd \<and> \<not> vr_vouch_filed vd"
  proof (rule honest_answer_verifies [OF watch_env_ok(1) _ watch_env_ok(2) _ worker_wire(1) watch_keys(2) worker_wire(2)
        worker_answerable worker_model _ _ _ _ _ r2])
    show "he_chain ?H = chainNet watch_env watch_wallet (watch_api (demo_tx txSubmitResult 0 1 ''ans'')) (Inr []) ''now'' watch_json"
      by (simp add: watcher_def watch_chain_def)
    show "answer_travels watch_env (watch_api (demo_tx txSubmitResult 0 1 ''ans'')) watch_json worker (nd_db ?nd) demo_dom_svc
        watch_pending watch_event model_result (ce_height worker_event_text) (hexEncode (demo_key 1))"
      unfolding worker_wire(3) using worker_answer_travels by (simp add: watch_node_def)
    show "chain_inv watch_env {} (nd_db ?nd)"
      using watch_invs(1) by (simp add: watch_node_def)
    show "\<forall>w. model_says ?H (req_input_text watch_pending) (ex_output model_result) w"
      by (simp add: model_says_def watcher_def replay_def harness_texts_def postBody_def watch_llama_def wbind_def jsonOf_def
          wlift_def model_result_def Let_def)
  qed (simp_all add: worker_wire watch_env_ok(3) crashed_def watcher_def harness_texts_def
      watch_pending_def demo_pending_def hasPrefix_def)
  then show ?thesis
    by (simp add: worker_wire watch_event_def)
qed

end
