(* ===== verification/Settings.thy ===== *)
theory Settings
  imports System
begin

text \<open>
  What transactions and blocks leave alone in the meta bucket: the parameters, the id of the chain, the
  authority once there is one, and for transactions the height. Only the administrative calls \<open>SetParams\<close> and
  \<open>SetAuthority\<close>, which the process never makes, set them otherwise.
\<close>

text \<open>
  The settings of the chain: its id, its parameters and its authority. A step keeps them when it keeps the
  first two, and the authority once there is one; it never removes a key of the meta bucket.
\<close>

definition keeps_settings :: "chain_state \<Rightarrow> chain_state \<Rightarrow> bool" where
  "keeps_settings s s' \<longleftrightarrow>
     dom (map_of (cs_meta s)) \<subseteq> dom (map_of (cs_meta s'))
     \<and> map_of (cs_meta s') keyParams = map_of (cs_meta s) keyParams
     \<and> map_of (cs_meta s') keyChainID = map_of (cs_meta s) keyChainID
     \<and> (authorityLocked s \<noteq> '''' \<longrightarrow> authorityLocked s' = authorityLocked s)"

lemma keeps_settings_refl [simp]: "keeps_settings s s"
  by (simp add: keeps_settings_def)

lemma keeps_settings_trans: "keeps_settings s t \<Longrightarrow> keeps_settings t u \<Longrightarrow> keeps_settings s u"
  unfolding keeps_settings_def by (metis order_trans)

lemma keeps_settings_meta: "cs_meta s' = cs_meta s \<Longrightarrow> keeps_settings s s'"
  by (simp add: keeps_settings_def authorityLocked_def getMetaString_def)

lemma keeps_settings_put:
  assumes "cs_meta s' = bput k v (cs_meta s)" and "k \<noteq> keyParams" and "k \<noteq> keyChainID"
    and "k = keyAuthority \<Longrightarrow> authorityLocked s = ''''"
  shows "keeps_settings s s'"
  using assms by (auto simp: keeps_settings_def authorityLocked_def getMetaString_def)

text \<open>A transaction also leaves the height alone.\<close>

definition same_settings :: "chain_state \<Rightarrow> chain_state \<Rightarrow> bool" where
  "same_settings s s' \<longleftrightarrow> keeps_settings s s' \<and> heightLocked s' = heightLocked s"

lemma same_settings_refl [simp]: "same_settings s s"
  by (simp add: same_settings_def)

lemma same_settings_trans: "same_settings s t \<Longrightarrow> same_settings t u \<Longrightarrow> same_settings s u"
  using keeps_settings_trans by (auto simp: same_settings_def)

lemma same_settings_meta: "cs_meta s' = cs_meta s \<Longrightarrow> same_settings s s'"
  by (simp add: same_settings_def keeps_settings_meta heightLocked_def getMetaUint64_def)

lemma same_settings_put:
  assumes "cs_meta s' = bput k v (cs_meta s)" and "k \<noteq> keyParams" and "k \<noteq> keyChainID" and "k \<noteq> keyHeight"
    and "k = keyAuthority \<Longrightarrow> authorityLocked s = ''''"
  shows "same_settings s s'"
  using assms keeps_settings_put [OF assms(1-3)] by (auto simp: same_settings_def heightLocked_def getMetaUint64_def)

section \<open>The handlers\<close>

named_theorems handler_settings

lemma register_service_settings [handler_settings]:
  assumes "chain_inv E {} s" and "isValidAddress signer" and "applyRegisterService E s signer p h = Inr (s', k, ev)"
  shows "same_settings s s'"
  using assms(3)
proof (rule applyRegisterService_Inr)
  fix msg ps s1 svc
  assume "move (Wrapped ''locking service registration bond'') E s signer moduleEscrowAddr
           (amount (p_service_registration_bond ps)) = Inr s1"
    and "s' = s1\<lparr>cs_meta := bput keyNextSvcID (MetaU64 (svc_id svc + 1)) (cs_meta s1),
                 cs_services := bput (svc_id svc) svc (cs_services s1),
                 cs_svc_by_name := bput (svc_name svc) (svc_id svc) (cs_svc_by_name s1)\<rparr>"
  moreover from this(1) have "same_but_accounts s s1"
    by (rule lock_facts(2) [OF inv_accounts [OF assms(1)] assms(2)])
  ultimately show ?thesis
    by (intro same_settings_put [of s' keyNextSvcID]) (simp_all add: same_but_accounts_fields meta_keys)
qed

lemma request_inference_settings [handler_settings]:
  assumes "chain_inv E {} s" and "isValidAddress signer" and "applyRequestInference E s signer p h = Inr (s', k, ev)"
  shows "same_settings s s'"
  using assms(3)
proof (rule applyRequestInference_Inr)
  fix msg svc ps s1 deadline r
  assume "move id E s signer moduleEscrowAddr (amount (svc_price svc)) = Inr s1"
    and "s' = s1\<lparr>cs_meta := bput keyNextReqID (MetaU64 (req_id r + 1)) (cs_meta s1),
                 cs_requests := bput (req_id r) r (cs_requests s1)\<rparr>"
  moreover from this(1) have "same_but_accounts s s1"
    by (rule lock_facts(2) [OF inv_accounts [OF assms(1)] assms(2)])
  ultimately show ?thesis
    by (intro same_settings_put [of s' keyNextReqID]) (simp_all add: same_but_accounts_fields meta_keys)
qed

lemma submit_result_settings [handler_settings]:
  assumes "chain_inv E {} s" and "isValidAddress signer" and app: "applySubmitResult E s signer p h = Inr (s', fin, evs)"
  shows "same_settings s s'"
proof -
  obtain msg r ps where a: "dec_submit_result E p = Some msg" "getRequest s (msr_request_id msg) = Inr r"
    "paramsLocked s = Inr ps"
    using app by (rule applySubmitResult_Inr)
  show ?thesis
    using close_frame_fields(1) [OF submit_result_facts(3) [OF assms a]] by (rule same_settings_meta)
qed

lemma transfer_settings [handler_settings]:
  assumes "chain_inv E D s" and "applyTransfer E s signer p = Inr (s', ev)"
  shows "same_settings s s'"
  using assms(2)
proof (rule applyTransfer_Inr)
  fix msg
  assume "move id E s signer (mt_to msg) (amount (mt_amount msg)) = Inr s'"
  from same_but_accounts_fields(1) [OF move_facts(3) [OF inv_accounts [OF assms(1)] this]]
  show ?thesis by (rule same_settings_meta)
qed

lemma register_domain_settings [handler_settings]:
  assumes "applyRegisterDomain E s signer p h = Inr (s', k, ev)"
  shows "same_settings s s'"
  using assms
proof (rule applyRegisterDomain_Inr)
  fix msg s1 d
  assume "s1 = (if authorityLocked s = '''' then s\<lparr>cs_meta := bput keyAuthority (MetaString signer) (cs_meta s)\<rparr> else s)"
    and s': "s' = s1\<lparr>cs_meta := bput keyNextDomainID (MetaU64 (dom_id d + 1)) (cs_meta s1),
                 cs_domains := bput (dom_id d) d (cs_domains s1)\<rparr>"
  then have "same_settings s s1"
    by (cases "authorityLocked s = ''''") (auto intro!: same_settings_put [of _ keyAuthority] simp: meta_keys)
  moreover have "same_settings s1 s'"
    by (rule same_settings_put [of _ keyNextDomainID]) (simp_all add: s' meta_keys)
  ultimately show ?thesis by (rule same_settings_trans)
qed

lemma challenge_settings [handler_settings]:
  assumes "chain_inv E {} s" and "isValidAddress signer" and app: "applyChallenge E s signer p h = Inr (s', ev)"
  shows "same_settings s s'"
proof -
  obtain msg r ps where a: "dec_challenge E p = Some msg" "getRequest s (mc_request_id msg) = Inr r"
    "paramsLocked s = Inr ps"
    using app by (rule applyChallenge_Inr)
  show ?thesis
    using close_frame_fields(1) [OF challenge_facts(3) [OF assms a]] by (rule same_settings_meta)
qed

lemma vouch_settings [handler_settings]:
  assumes "chain_inv E {} s" and "isValidAddress signer" and app: "applyVouch E s signer p h = Inr (s', ev)"
  shows "same_settings s s'"
proof -
  obtain msg r ps where a: "dec_vouch E p = Some msg" "getRequest s (mv_request_id msg) = Inr r"
    "paramsLocked s = Inr ps"
    using app by (rule applyVouch_Inr)
  show ?thesis
    using close_frame_fields(1) [OF vouch_facts(3) [OF assms a]] by (rule same_settings_meta)
qed

lemma update_service_settings [handler_settings]:
  assumes "applyUpdateService E s signer p h = Inr (s', ev)"
  shows "same_settings s s'"
  using assms by (rule applyUpdateService_Inr) (auto simp: putService_Inr intro: same_settings_meta)

lemma deactivate_service_settings [handler_settings]:
  assumes "chain_inv E D s" and "applyDeactivateService E s signer p h = Inr (s', ev)"
  shows "same_settings s s'"
  using assms(2)
proof (rule applyDeactivateService_Inr)
  fix msg svc ps s1 c
  assume svc: "getService s (mds_service_id msg) = Inr svc"
    and pay: "settleServiceBond E s ps svc h = Inr (s1, c)" and put: "putService E s1 (retired svc) = Inr s'"
  have id: "getService s (svc_id svc) = Inr svc"
    using svc service_id [OF assms(1) svc] by simp
  from pay have "pays E [(if p_min_service_lifetime ps <=s h - svc_created_at svc then svc_owner svc
        else moduleTreasuryAddr, amount (svc_registration_bond svc))] s = Inr s1"
    by (simp only: settleServiceBond_Inr)
  from retire(6) [OF assms(1) id this put] show ?thesis by (rule same_settings_meta)
qed

lemma deactivate_domain_settings [handler_settings]:
  assumes inv: "chain_inv E {} s" and app: "applyDeactivateDomain E s signer p h = Inr (s', evs)"
  shows "same_settings s s'"
proof -
  obtain msg where msg: "dec_deactivate_domain E p = Some msg"
    using app by (rule applyDeactivateDomain_Inr)
  show ?thesis
    using deactivate_domain_facts(6) [OF inv app msg] by (rule same_settings_meta)
qed

lemma resolve_settings [handler_settings]:
  assumes inv: "chain_inv E {} s" and app: "applyResolveChallenge E s signer p h = Inr (s', evs)"
  shows "same_settings s s'"
  using app
proof (rule applyResolveChallenge_Inr)
  fix msg r ev
  assume r: "getRequest s (mrc_request_id msg) = Inr r" and st: "req_status r = StatusChallenged"
    and run: "mrc_decision msg = ''dismiss'' \<and> executeDismiss E h s r = Inr (s', ev)
       \<or> mrc_decision msg = ''slash'' \<and> executeSlash E h s r = Inr (s', ev)"
  obtain svc where svc: "getService s (req_service_id r) = Inr svc"
    by (rule wf_request_service [OF inv_wf [OF inv] r])
  from run have "close_frame s s'"
    using dismiss.step(2) [OF inv stored_id [OF inv r] st svc] slash.step(2) [OF inv stored_id [OF inv r] st svc]
    by blast
  then show ?thesis
    by (intro same_settings_meta close_frame_fields)
qed

lemma dispatch_settings:
  assumes "chain_inv E {} s" and "isValidAddress signer" and "dispatch E s signer t h = Inr (s', rc)"
  shows "same_settings s s'"
  using assms by (simp only: dispatch_def Let_def split: if_split_asm) (auto dest: handler_settings)

lemma submitTx_settings:
  assumes "sha_ok E" and inv: "chain_inv E {} (nd_db nd)" and "submitTx E t nd = (res, nd')"
  shows "same_settings (nd_db nd) (nd_db nd')"
proof (rule submitTx_cases [of E t nd])
  fix signer s' rc
  assume a: "checkEnvelope E t = Inr signer" "runTx E signer t (nd_db nd) = Inr (s', rc)"
    "submitTx E t nd = (Inr rc, nd\<lparr>nd_db := s', nd_bus := emitAll (pendingOf rc) (nd_bus nd)\<rparr>)"
  obtain s1 where d: "dispatch E (nd_db nd) signer t (heightLocked (nd_db nd)) = Inr (s1, rc)"
    and inc: "incNonce E s1 signer = Inr s'"
    using a(2) by (auto simp: runTx_def split: if_splits)
  have "same_settings (nd_db nd) s1"
    by (rule dispatch_settings [OF inv signer_valid [OF assms(1) a(1)] d])
  moreover have "same_settings s1 s'"
    using inc by (intro same_settings_meta) (auto simp: incNonce_Inr)
  ultimately show ?thesis
    using same_settings_trans a(3) assms(3) by auto
qed (use assms(3) in auto)

section \<open>Blocks\<close>

lemma commitBlock_settings:
  assumes inv: "chain_inv E {} (nd_db nd)" and "commitBlock E now nd = (res, nd')"
  shows "keeps_settings (nd_db nd) (nd_db nd')"
proof (rule commitBlock_cases [of E nd now])
  fix s' h evs
  assume run: "commitDb E (nd_db nd) = Inr (s', h, evs)"
    and c: "commitBlock E now nd = (Inr (), nd\<lparr>nd_db := s', nd_bus :=
         emit (mk_event h (BlockCommitted \<lparr>ebc_height = h, ebc_time = now\<rparr>)) (emitAll evs (nd_bus nd))\<rparr>)"
  have "keeps_settings (nd_db nd) s'"
    using run
  proof (rule commitDb_Inr)
    fix s0 ps s1 e1 s2 e2 s3 e3
    assume p: "putMeta E (nd_db nd) keyHeight (MetaU64 h) = Inr s0"
      and x: "settleLoop (refundRequest E h) (due_in s0 ps h StatusPending (\<lambda>_. True)) s0 [] = Inr (s1, e1)"
      "settleLoop (finalizeRequest E h) (due_in s0 ps h StatusSubmitted (\<lambda>_. True)) s1 e1 = Inr (s2, e2)"
      "settleLoop (executeSlash E h) (due_in s0 ps h StatusChallenged (\<lambda>r. \<not> providerPrevails s0 ps r)) s2 e2 = Inr (s3, e3)"
      "settleLoop (executeDismiss E h) (due_in s0 ps h StatusChallenged (providerPrevails s0 ps)) s3 e3 = Inr (s', evs)"
    have "keeps_settings (nd_db nd) s0"
      using p by (intro keeps_settings_put [of _ keyHeight]) (auto simp: putMeta_def meta_keys)
    moreover have "keeps_settings s0 s'"
      using close_frame_fields(1) [OF sweep_facts(2) [OF height_inv(1) [OF inv p] x]] by (rule keeps_settings_meta)
    ultimately show ?thesis by (rule keeps_settings_trans)
  qed
  then show ?thesis using c assms(2) by auto
qed (use assms(2) in auto)

end
