(* ===== verification/Daemon.thy ===== *)
theory Daemon
  imports Keyring Settings
begin

text \<open>
  The chain process over its whole life (\<open>chain/cmd/aid/main.go\<close>): opening the database, creating the
  development keys, producing blocks, and being stopped and started again on the same files. The steps
  are those of the process only: unlike \<open>reach\<close> of the theory \<open>System\<close>, nobody mints, sets parameters or
  appoints an authority from outside. Calls of the HTTP server appear as the transactions they submit
  (see the theory \<open>GatewaySpec\<close>), because the transactions of one call may interleave with blocks and with
  other calls.
\<close>

section \<open>Start-up\<close>

text \<open>The environment variables; an unset variable reads as the empty string.\<close>

definition envOr :: "(string \<Rightarrow> string) \<Rightarrow> string \<Rightarrow> string \<Rightarrow> string" where
  "envOr getenv key dflt = (let v = getenv key in if v \<noteq> '''' then v else dflt)"

definition envBool :: "(string \<Rightarrow> string) \<Rightarrow> string \<Rightarrow> bool \<Rightarrow> bool" where
  "envBool getenv key dflt =
     (let v = getenv key in if v = '''' then dflt else v = ''1'' \<or> v = ''true'' \<or> v = ''TRUE'')"

text \<open>
  \<open>Open\<close> on the stored database, and \<open>main\<close> up to the server: the key file written now if there is one, the
  error it dies of or the node, and what the database holds then. \<open>present\<close> is whether the key
  file exists, \<open>gen\<close> is \<open>ed25519.GenerateKey\<close> and \<open>write\<close> the outcome of writing the file.
\<close>

definition openState :: "env \<Rightarrow> chain_state \<Rightarrow> (chain_error + unit) \<times> chain_state" where
  "openState E s = dbUpdate (\<lambda>s. bind_r (initState E s) (\<lambda>s. Inr (s, ()))) s"

definition aidMain ::
  "env \<Rightarrow> bool \<Rightarrow> bool \<Rightarrow> (string \<Rightarrow> chain_error + bytes \<times> bytes) \<Rightarrow> (keyring_entry list \<Rightarrow> chain_error + unit)
    \<Rightarrow> chain_state \<Rightarrow> keyring_entry list option \<times> (chain_error + bus) \<times> chain_state" where
  "aidMain E devKeyring present gen write s =
     (case openState E s of
        (Inl e, s) \<Rightarrow> (None, Inl (Wrapped ''open state'' e), s)
      | (Inr _, s) \<Rightarrow>
          if devKeyring then
            (case ensureDevKeyring E present gen write s of
               (ks, Inl e, s) \<Rightarrow> (ks, Inl (Wrapped ''ensure dev keyring'' e), s)
             | (ks, Inr _, s) \<Rightarrow> (ks, Inr empty_bus, s))
          else (None, Inr empty_bus, s))"

section \<open>Producing blocks\<close>

definition tick :: "env \<Rightarrow> string \<Rightarrow> node \<Rightarrow> (chain_error + unit) \<times> node" where
  "tick E now nd = commitBlock E now nd"

text \<open>
  The block producer over the times of its ticks, until the context is done: a block that fails is
  logged, and the next tick tries again. The result lists the logged errors.
\<close>

fun runBlockProducer :: "env \<Rightarrow> string list \<Rightarrow> node \<Rightarrow> chain_error list \<times> node" where
  "runBlockProducer E [] nd = ([], nd)"
| "runBlockProducer E (now # later) nd =
     (case commitBlock E now nd of (r, nd) \<Rightarrow>
      case runBlockProducer E later nd of (es, nd) \<Rightarrow>
        ((case r of Inl e \<Rightarrow> [e] | Inr _ \<Rightarrow> []) @ es, nd))"

section \<open>The life of the process\<close>

text \<open>The two files, and the event bus while the process runs.\<close>

record aid =
  aid_file :: "keyring_entry list option"
  aid_db :: chain_state
  aid_bus :: "bus option"

definition aid_node :: "aid \<Rightarrow> bus \<Rightarrow> node" where
  "aid_node a b = \<lparr>nd_db = aid_db a, nd_bus = b\<rparr>"

definition aid_runs :: "aid \<Rightarrow> node \<Rightarrow> aid" where
  "aid_runs a nd = a\<lparr>aid_db := nd_db nd, aid_bus := Some (nd_bus nd)\<rparr>"

definition aid_fresh :: aid where
  "aid_fresh = \<lparr>aid_file = None, aid_db = empty_db, aid_bus = None\<rparr>"

definition aid_started :: "aid \<Rightarrow> keyring_entry list option \<times> (chain_error + bus) \<times> chain_state \<Rightarrow> aid" where
  "aid_started a res =
     (case res of (ks, r, s) \<Rightarrow>
        \<lparr>aid_file = (case ks of None \<Rightarrow> aid_file a | Some ks \<Rightarrow> Some ks), aid_db = s,
         aid_bus = (case r of Inl e \<Rightarrow> None | Inr b \<Rightarrow> Some b)\<rparr>)"

text \<open>
  The steps. Starting may follow a stop or a crash at any time, with other flags than before, and
  may fail; transactions arrive while ids are left. What subscribers do to the bus is the subject of the
  theories \<open>EventBus\<close> and \<open>BusRace\<close>.
\<close>

inductive aid_step :: "env \<Rightarrow> aid \<Rightarrow> aid \<Rightarrow> bool" for E where
  started: "aid_step E a (aid_started a (aidMain E dev (aid_file a \<noteq> None) gen write (aid_db a)))"
| submitted: "aid_bus a = Some b \<Longrightarrow> ids_left (aid_db a) \<Longrightarrow> submitTx E t (aid_node a b) = (res, nd) \<Longrightarrow>
    aid_step E a (aid_runs a nd)"
| ticked: "aid_bus a = Some b \<Longrightarrow> tick E now (aid_node a b) = (res, nd) \<Longrightarrow> aid_step E a (aid_runs a nd)"
| stopped: "aid_step E a (a\<lparr>aid_bus := None\<rparr>)"

inductive aid_reach :: "env \<Rightarrow> aid \<Rightarrow> bool" for E where
  fresh: "aid_reach E aid_fresh"
| step: "aid_reach E a \<Longrightarrow> aid_step E a a' \<Longrightarrow> aid_reach E a'"

section \<open>Start-up keeps the invariant\<close>

definition metaKeys :: "string set" where
  "metaKeys = {keyChainID, keyHeight, keyNextSvcID, keyNextReqID, keyNextDomainID, keyParams}"

text \<open>An opened database has all the keys of the meta bucket, the parameters and the id of the chain.\<close>

definition opened :: "chain_state \<Rightarrow> bool" where
  "opened s \<longleftrightarrow>
     metaKeys \<subseteq> dom (map_of (cs_meta s)) \<and> map_of (cs_meta s) keyParams = Some (MetaParams defaultParams)
     \<and> map_of (cs_meta s) keyChainID = Some (MetaString ''aios-devnet-1'')"

lemma opened_settings: "opened s \<Longrightarrow> keeps_settings s s' \<Longrightarrow> opened s'"
  by (auto simp: opened_def keeps_settings_def)

lemma opened_reads:
  "opened s \<Longrightarrow> paramsLocked s = Inr defaultParams" "opened s \<Longrightarrow> getMetaString s keyChainID = ''aios-devnet-1''"
  by (simp_all add: opened_def paramsLocked_def getMetaString_def)

lemma initState_opened: "opened s \<Longrightarrow> initState E s = Inr s"
  by (auto simp: opened_def initState_def metaKeys_def initKey_present)

lemma initState_fresh: "initState E empty_db = Inr s \<Longrightarrow> opened s"
  by (auto simp: initState_def initKey_def putMeta_def empty_db_def meta_keys opened_def metaKeys_def)

lemma openState_cases:
  obtains (failed) e where "initState E s = Inl e" and "openState E s = (Inl e, s)"
  | (opened) s' where "initState E s = Inr s'" and "openState E s = (Inr (), s')"
  by (cases "initState E s") (auto simp: openState_def dbUpdate_def)

lemma generateKeys_names: "generateKeys E gen names = Inr ks \<Longrightarrow> map ke_name ks = names"
  by (induction names arbitrary: ks) auto

lemma fundKeys_facts:
  assumes "chain_inv E D s" and "total_supply s + length ks * 10 ^ 9 < 2 ^ 64" and "fundKeys E ks s = Inr s'"
  shows "chain_inv E D s'" and "total_supply s' = total_supply s + length ks * 10 ^ 9" and "same_but_accounts s s'"
    and "bal s' a = bal s a + length (filter (\<lambda>k. ke_address k = a) ks) * 10 ^ 9"
proof -
  have "chain_inv E D s' \<and> total_supply s' = total_supply s + length ks * 10 ^ 9 \<and> same_but_accounts s s'
      \<and> bal s' a = bal s a + length (filter (\<lambda>k. ke_address k = a) ks) * 10 ^ 9"
    using assms
  proof (induction ks arbitrary: s)
    case (Cons k ks)
    have fund: "unat initialFunds = 10 ^ 9"
      by (simp add: initialFunds_def)
    obtain s1 where m: "mint E s (ke_address k) initialFunds = Inr s1" and rest: "fundKeys E ks s1 = Inr s'"
      using Cons.prems(3) by (auto simp: mint_def)
    have fits: "total_supply s + unat initialFunds < 2 ^ 64"
      using Cons.prems(2) by (simp add: fund)
    note k = mint_keeps [OF Cons.prems(1) m fits]
    have "bal s1 = (bal s)(ke_address k := bal s (ke_address k) + 10 ^ 9)"
      using credit_Inr [OF inv_accounts [OF Cons.prems(1)] fits] m by (simp add: mint_def fund)
    moreover have "chain_inv E D s' \<and> total_supply s' = total_supply s1 + length ks * 10 ^ 9 \<and> same_but_accounts s1 s'
        \<and> bal s' a = bal s1 a + length (filter (\<lambda>k. ke_address k = a) ks) * 10 ^ 9"
      using Cons.prems(2) by (intro Cons.IH [OF k(1) _ rest]) (simp add: k(2) fund)
    ultimately show ?case
      using k by (auto simp: fund intro: same_but_accounts_trans)
  qed simp
  then show "chain_inv E D s'" and "total_supply s' = total_supply s + length ks * 10 ^ 9" and "same_but_accounts s s'"
    and "bal s' a = bal s a + length (filter (\<lambda>k. ke_address k = a) ks) * 10 ^ 9"
    by blast+
qed

text \<open>What \<open>EnsureDevKeyring\<close> can do: nothing, write a file without funding, or write it and fund the keys.\<close>

lemma ensureDevKeyring_cases:
  obtains (nothing) r where "ensureDevKeyring E present gen write s = (None, r, s)"
  | (written) ks e where "\<not> present" and "generateKeys E gen devNames = Inr ks"
      and "ensureDevKeyring E present gen write s = (Some ks, Inl e, s)"
  | (funded) ks s' where "\<not> present" and "generateKeys E gen devNames = Inr ks" and "fundKeys E ks s = Inr s'"
      and "ensureDevKeyring E present gen write s = (Some ks, Inr (), s')"
proof (cases "present \<or> (\<exists>e. generateKeys E gen devNames = Inl e)")
  case True
  then have "\<exists>r. ensureDevKeyring E present gen write s = (None, r, s)"
    by (cases present) (auto simp: ensureDevKeyring_def)
  then obtain r where "ensureDevKeyring E present gen write s = (None, r, s)"
    by blast
  then show ?thesis by (rule nothing)
next
  case False
  then obtain ks where ks: "generateKeys E gen devNames = Inr ks" "\<not> present"
    by (cases "generateKeys E gen devNames") auto
  show ?thesis
  proof (cases "write ks")
    case (Inl e)
    with ks have "ensureDevKeyring E present gen write s = (None, Inl (Wrapped ''write keyring'' e), s)"
      by (simp add: ensureDevKeyring_def)
    then show ?thesis by (rule nothing)
  next
    case (Inr u)
    then show ?thesis
      using written [of ks] funded [of ks] ks
      by (cases "fundKeys E ks s") (auto simp: ensureDevKeyring_def dbUpdate_def)
  qed
qed

section \<open>The invariant of the process\<close>

definition aid_inv :: "env \<Rightarrow> aid \<Rightarrow> bool" where
  "aid_inv E a \<longleftrightarrow>
     (a = aid_fresh \<or> opened (aid_db a) \<and> chain_inv E {} (aid_db a))
     \<and> total_supply (aid_db a) \<in> {0, 4 * 10 ^ 9} \<and> (aid_file a = None \<longrightarrow> total_supply (aid_db a) = 0)"

lemma total_supply_empty: "total_supply empty_db = 0"
  by (simp add: total_supply_def empty_db_def bsum_def)

lemma openState_keeps:
  assumes "aid_inv E a" and "openState E (aid_db a) = (Inr u, s)"
  shows "opened s" and "chain_inv E {} s" and "total_supply s = total_supply (aid_db a)"
    and "aid_db a = empty_db \<or> s = aid_db a"
proof -
  have i: "initState E (aid_db a) = Inr s"
    using assms(2) by (cases rule: openState_cases [of E "aid_db a"]) auto
  show "opened s" and "chain_inv E {} s" and "total_supply s = total_supply (aid_db a)"
    and "aid_db a = empty_db \<or> s = aid_db a"
    using assms(1) i genesis_inv [of E s] initState_fresh [of E s] initState_opened [of "aid_db a" E]
    by (auto simp: aid_inv_def aid_fresh_def total_supply_empty)
qed

lemma opened_same_but_accounts: "opened s \<Longrightarrow> same_but_accounts s s' \<Longrightarrow> opened s'"
  using keeps_settings_meta opened_settings same_but_accounts_fields(1) by metis

lemma aidMain_keeps:
  assumes inv: "aid_inv E a"
  shows "aid_inv E (aid_started a (aidMain E dev (aid_file a \<noteq> None) gen write (aid_db a)))"
proof (cases "openState E (aid_db a)")
  case (Pair r s)
  show ?thesis
  proof (cases r)
    case (Inl e)
    then have "s = aid_db a"
      using Pair by (cases rule: openState_cases [of E "aid_db a"]) auto
    moreover have "aidMain E dev (aid_file a \<noteq> None) gen write (aid_db a) = (None, Inl (Wrapped ''open state'' e), s)"
      by (simp add: aidMain_def Pair Inl)
    ultimately show ?thesis
      using inv by (auto simp: aid_started_def aid_inv_def aid_fresh_def)
  next
    case (Inr u)
    note o = openState_keeps [OF inv Pair [unfolded Inr]]
    have kept: "aid_inv E \<lparr>aid_file = f, aid_db = s, aid_bus = b\<rparr>" if "f = None \<Longrightarrow> aid_file a = None" for f b
      using o(1-3) inv that by (auto simp: aid_inv_def)
    show ?thesis
    proof (cases dev)
      case False
      then show ?thesis
        using kept by (simp add: aidMain_def Pair Inr aid_started_def)
    next
      case True
      show ?thesis
      proof (rule ensureDevKeyring_cases [of E "aid_file a \<noteq> None" gen "write" s])
        fix q assume "ensureDevKeyring E (aid_file a \<noteq> None) gen write s = (None, q, s)"
        then show ?thesis
          using kept True by (cases q) (simp_all add: aidMain_def Pair Inr aid_started_def)
      next
        fix ks e assume "ensureDevKeyring E (aid_file a \<noteq> None) gen write s = (Some ks, Inl e, s)"
        then show ?thesis
          using kept [of "Some ks"] True by (simp add: aidMain_def Pair Inr aid_started_def)
      next
        fix ks s' assume new: "\<not> aid_file a \<noteq> None" and g: "generateKeys E gen devNames = Inr ks"
          and f: "fundKeys E ks s = Inr s'"
          and e: "ensureDevKeyring E (aid_file a \<noteq> None) gen write s = (Some ks, Inr (), s')"
        have len: "length ks = 4"
          using generateKeys_names [OF g, THEN arg_cong [of _ _ length]] by (simp add: devNames_def)
        have none: "total_supply s = 0"
          using inv new o(3) by (simp add: aid_inv_def)
        note ff = fundKeys_facts [OF o(2) _ f]
        have "opened s'" and "chain_inv E {} s'" and "total_supply s' = 4 * 10 ^ 9"
          using ff(1-3) opened_same_but_accounts [OF o(1)] by (simp_all add: len none)
        then show ?thesis
          using e True by (simp add: aidMain_def Pair Inr aid_started_def aid_inv_def)
      qed
    qed
  qed
qed

text \<open>What a start leaves in the database: what was there, or what \<open>Open\<close> puts into a new one, but for the
  balances of the accounts funded now.\<close>

lemma aidMain_db:
  assumes inv: "aid_inv E a"
  obtains s where "s = aid_db a \<or> aid_db a = empty_db \<and> initState E empty_db = Inr s"
    and "same_but_accounts s (aid_db (aid_started a (aidMain E dev (aid_file a \<noteq> None) gen write (aid_db a))))"
proof -
  obtain u s where o: "openState E (aid_db a) = (u, s)" by fastforce
  show thesis
  proof (cases u)
    case (Inl e)
    then have "s = aid_db a"
      using o by (cases rule: openState_cases [of E "aid_db a"]) auto
    then show ?thesis
      using that [of s] by (simp add: aidMain_def o Inl aid_started_def same_but_accounts_def)
  next
    case (Inr x)
    note k = openState_keeps [OF inv o [unfolded Inr]]
    have first: "s = aid_db a \<or> aid_db a = empty_db \<and> initState E empty_db = Inr s"
      using k(4) o Inr by (cases rule: openState_cases [of E "aid_db a"]) auto
    obtain ks r s' where e: "ensureDevKeyring E (aid_file a \<noteq> None) gen write s = (ks, r, s')"
      by (metis prod_cases3)
    have "same_but_accounts s s'"
    proof (rule ensureDevKeyring_cases [of E "aid_file a \<noteq> None" gen "write" s])
      fix ks s2 assume g: "generateKeys E gen devNames = Inr ks" and f: "fundKeys E ks s = Inr s2" and new: "\<not> aid_file a \<noteq> None"
        and "ensureDevKeyring E (aid_file a \<noteq> None) gen write s = (Some ks, Inr (), s2)"
      moreover have "length ks = 4"
        using generateKeys_names [OF g, THEN arg_cong [of _ _ length]] by (simp add: devNames_def)
      moreover have "total_supply s = 0"
        using k(3) inv new by (simp add: aid_inv_def)
      ultimately show ?thesis
        using fundKeys_facts(3) [OF k(2) _ f] e by simp
    qed (use e in \<open>auto simp: same_but_accounts_def\<close>)
    with first show ?thesis
      using that [of s] e by (cases r; cases dev) (simp_all add: aidMain_def o Inr aid_started_def same_but_accounts_def)
  qed
qed

lemma aid_running:
  assumes "aid_inv E a" and "aid_bus a = Some b"
  shows "opened (aid_db a)" and "chain_inv E {} (aid_db a)"
  using assms by (auto simp: aid_inv_def aid_fresh_def)

text \<open>What a transaction or a block does to the database, from the facts about both.\<close>

lemma aid_runs_keeps:
  assumes "aid_inv E a" and "aid_bus a = Some b" and "chain_inv E {} (nd_db nd)"
    and "keeps_settings (aid_db a) (nd_db nd)" and "total_supply (nd_db nd) = total_supply (aid_db a)"
  shows "aid_inv E (aid_runs a nd)"
  using assms opened_settings [OF aid_running(1) [OF assms(1,2)] assms(4)] by (auto simp: aid_inv_def aid_runs_def)

lemma node_step_supply:
  assumes sha: "sha_ok E" and inv: "chain_inv E {} (nd_db nd)"
  shows "ids_left (nd_db nd) \<Longrightarrow> submitTx E t nd = (res, nd') \<Longrightarrow> total_supply (nd_db nd') = total_supply (nd_db nd)"
    and "commitBlock E now nd = (res2, nd') \<Longrightarrow> total_supply (nd_db nd') = total_supply (nd_db nd)"
proof -
  show "total_supply (nd_db nd') = total_supply (nd_db nd)" if "ids_left (nd_db nd)" "submitTx E t nd = (res, nd')"
    by (rule submitTx_cases [of E t nd]) (use that runTx_keeps [OF inv signer_valid [OF sha] that(1)] in auto)
  obtain ps where "paramsLocked (nd_db nd) = Inr ps"
    by (rule wf_params [OF inv_wf [OF inv]])
  then show "total_supply (nd_db nd') = total_supply (nd_db nd)" if "commitBlock E now nd = (res2, nd')"
    by (rule_tac commitBlock_cases [of E nd now]) (use that commitDb_facts(4) [OF inv] in auto)
qed

lemma aid_step_keeps:
  assumes sha: "sha_ok E" and inv: "aid_inv E a" and step: "aid_step E a a'"
  shows "aid_inv E a'"
  using step
proof cases
  case (submitted b t res nd)
  note r = aid_running [OF inv submitted(2)]
  have c: "chain_inv E {} (nd_db (aid_node a b))"
    using r(2) by (simp add: aid_node_def)
  have left: "ids_left (nd_db (aid_node a b))"
    using submitted(3) by (simp add: aid_node_def)
  show ?thesis
    using aid_runs_keeps [OF inv submitted(2), of nd] submitted(1)
      node_step_keeps [OF sha c node_step.tx [OF left submitted(4)]]
      submitTx_settings [OF sha c submitted(4), unfolded same_settings_def] node_step_supply(1) [OF sha c left submitted(4)]
    by (simp add: aid_node_def)
next
  case (ticked b now res nd)
  note r = aid_running [OF inv ticked(2)] and t = ticked(3) [unfolded tick_def]
  have c: "chain_inv E {} (nd_db (aid_node a b))"
    using r(2) by (simp add: aid_node_def)
  show ?thesis
    using aid_runs_keeps [OF inv ticked(2), of nd] ticked(1) node_step_keeps [OF sha c node_step.block [OF t]]
      commitBlock_settings [OF c t] node_step_supply(2) [OF sha c t]
    by (simp add: aid_node_def)
next
  case started
  then show ?thesis using aidMain_keeps [OF inv] by simp
next
  case stopped
  then show ?thesis using inv by (auto simp: aid_inv_def aid_fresh_def)
qed

lemma aid_reach_inv:
  assumes "aid_reach E a" and "sha_ok E"
  shows "aid_inv E a"
  using assms(1)
proof induction
  case fresh
  show ?case by (simp add: aid_inv_def aid_fresh_def total_supply_empty)
next
  case (step a a')
  then show ?case using aid_step_keeps [OF assms(2)] by blast
qed

end
