(* ===== verification/Envelope.thy ===== *)
theory Envelope
  imports Net
begin

text \<open>
  The signed envelope as a JSON text. The chain, the harness and the inference node are separate Go
  modules, each with a declaration of its own of the struct; that a signature made by one is
  verified by another rests on the three being marshalled alike. \<open>marshalObject\<close> is what
  \<open>encoding/json\<close> does with such a struct: its fields in the order of the declaration, under the names
  of their tags. How a string is quoted and how a raw message is compacted, or refused when
  it is no JSON, are parameters.
\<close>

record json_lib =
  jl_quote :: "string \<Rightarrow> string"
  jl_compact :: "string \<Rightarrow> string option"

datatype json_value = JString string | JNumber u64 | JRaw string

definition valueText :: "json_lib \<Rightarrow> json_value \<Rightarrow> string option" where
  "valueText J v = (case v of JString s \<Rightarrow> Some (jl_quote J s) | JNumber n \<Rightarrow> Some (formatUint n) | JRaw p \<Rightarrow> jl_compact J p)"

definition fieldText :: "json_lib \<Rightarrow> string \<times> json_value \<Rightarrow> string option" where
  "fieldText J f = map_option (\<lambda>t. jl_quote J (fst f) @ '':'' @ t) (valueText J (snd f))"

fun commaSep :: "string list \<Rightarrow> string" where
  "commaSep [] = []"
| "commaSep [t] = t"
| "commaSep (t # ts) = t @ '','' @ commaSep ts"

definition marshalObject :: "json_lib \<Rightarrow> (string \<times> json_value) list \<Rightarrow> string option" where
  "marshalObject J fs = map_option (\<lambda>ts. ''{'' @ commaSep ts @ ''}'') (those (map (fieldText J) fs))"

text \<open>The three declarations, field by field: the tag, and the value of the field.\<close>

definition chainEnvelope :: "signed_tx \<Rightarrow> (string \<times> json_value) list" where
  "chainEnvelope t =
     [(''type'', JString (tx_type t)),
      (''nonce'', JNumber (tx_nonce t)),
      (''pub_key_hex'', JString (tx_pub_key_hex t)),
      (''signature_hex'', JString (tx_signature_hex t)),
      (''payload'', JRaw (tx_payload t))]"

definition harnessEnvelope :: "signed_tx \<Rightarrow> (string \<times> json_value) list" where
  "harnessEnvelope t =
     [(''type'', JString (tx_type t)),
      (''nonce'', JNumber (tx_nonce t)),
      (''pub_key_hex'', JString (tx_pub_key_hex t)),
      (''signature_hex'', JString (tx_signature_hex t)),
      (''payload'', JRaw (tx_payload t))]"

definition nodeEnvelope :: "signed_tx \<Rightarrow> (string \<times> json_value) list" where
  "nodeEnvelope t =
     [(''type'', JString (tx_type t)),
      (''nonce'', JNumber (tx_nonce t)),
      (''pub_key_hex'', JString (tx_pub_key_hex t)),
      (''signature_hex'', JString (tx_signature_hex t)),
      (''payload'', JRaw (tx_payload t))]"

lemma envelopes_agree:
  "marshalObject J (harnessEnvelope t) = marshalObject J (chainEnvelope t)"
  "marshalObject J (nodeEnvelope t) = marshalObject J (chainEnvelope t)"
  by (simp_all add: harnessEnvelope_def nodeEnvelope_def chainEnvelope_def)

text \<open>Only the payload can make marshalling fail.\<close>

lemma marshal_envelope:
  "marshalObject J (chainEnvelope t) = None \<longleftrightarrow> jl_compact J (tx_payload t) = None"
  by (simp add: marshalObject_def chainEnvelope_def fieldText_def valueText_def split: option.split)

end
