(* ===== verification/DaemonSpec.thy ===== *)
theory DaemonSpec
  imports Daemon ClientDemo Envelope
begin

text \<open>
  Properties of the chain process over its life and of its keys: what the first start sets up, what holds
  whenever the process runs, what no step and no restart can change, and that the three programs sign
  alike with a key of the key file.
\<close>

section \<open>Keys\<close>

text \<open>
  \<open>ed25519.GenerateKey\<close> is documented to return a 64-byte private key whose second half is the public
  key; a random source that fails is left out here.
\<close>

definition gen_ok :: "(string \<Rightarrow> chain_error + bytes \<times> bytes) \<Rightarrow> bool" where
  "gen_ok gen \<longleftrightarrow> (\<forall>name. \<exists>priv. gen name = Inr (drop 32 priv, priv) \<and> length priv = 64)"

definition key_written :: "env \<Rightarrow> keyring_entry \<Rightarrow> bool" where
  "key_written E k \<longleftrightarrow>
     (\<exists>priv. length priv = 64 \<and> ke_priv_key_hex k = hexEncode priv \<and> ke_pub_key_hex k = hexEncode (drop 32 priv)
       \<and> ke_address k = addressFromPubKey (sha256 E) (drop 32 priv))"

lemma generateKeys_ok:
  assumes "gen_ok gen"
  shows "\<exists>ks. generateKeys E gen names = Inr ks \<and> map ke_name ks = names \<and> list_all (key_written E) ks"
proof (induction names)
  case (Cons name names)
  obtain priv where p: "gen name = Inr (drop 32 priv, priv)" "length priv = 64"
    using assms unfolding gen_ok_def by blast
  let ?k = "\<lparr>ke_name = name, ke_address = addressFromPubKey (sha256 E) (drop 32 priv),
      ke_pub_key_hex = hexEncode (drop 32 priv), ke_priv_key_hex = hexEncode priv\<rparr>"
  obtain ks where "generateKeys E gen names = Inr ks" and "map ke_name ks = names" and "list_all (key_written E) ks"
    using Cons.IH by blast
  moreover have "key_written E ?k"
    using p(2) by (auto simp: key_written_def)
  ultimately show ?case
    using p(1) by (intro exI [of _ "?k # ks"]) simp
qed simp

lemma key_written_ok: "key_written E k \<Longrightarrow> key_ok E k"
  by (auto simp: key_written_def key_ok_def hexDecode_Encode)

lemma key_written_valid: "sha_ok E \<Longrightarrow> key_written E k \<Longrightarrow> isValidAddress (ke_address k)"
  by (auto simp: key_written_def sha_ok_def isValidAddress_derived)

lemma findKey_distinct: "distinct (map ke_name ks) \<Longrightarrow> k \<in> set ks \<Longrightarrow> findKey (ke_name k) ks = Some k"
  by (induction ks) (auto simp: rev_image_eqI)

lemma devNames_distinct: "distinct devNames"
  by (simp add: devNames_def)

lemma fundKeys_ok:
  assumes "put_accepts E" and "list_all (isValidAddress \<circ> ke_address) ks"
  shows "\<exists>s'. fundKeys E ks s = Inr s'"
  using assms(2)
proof (induction ks arbitrary: s)
  case (Cons k ks)
  then obtain s1 where "credit E s (ke_address k) initialFunds = Inr s1"
    using credit_ok [OF addr_okI [OF assms(1)], of "ke_address k" s initialFunds] by auto
  then show ?case using Cons by simp
qed simp

lemma initState_ok: "put_accepts E \<Longrightarrow> \<exists>s. initState E empty_db = Inr s"
  by (simp add: initState_def initKey_def putMeta_def bucket_put_def put_accepts_None empty_db_def meta_keys)

subsection \<open>The first start\<close>

text \<open>C25: The first start on an empty disk, with a working disk and random source: it writes a key file
  with the keys of alice, bob and the two harnesses, each well-formed and found by its name, and leaves
  a chain at height zero in which every account holds one thousand million coins for each key that has its
  address, and no nonce is used. A second start on these files, with whatever flags, changes neither the key
  file nor the database.\<close>

theorem first_start:
  assumes "put_accepts E" and "sha_ok E" and "gen_ok gen" and "\<And>ks. write ks = Inr ()"
  shows "\<exists>ks s. aidMain E True False gen write empty_db = (Some ks, Inr empty_bus, s)
    \<and> map ke_name ks = [''alice'', ''bob'', ''harness'', ''harness-b'']
    \<and> list_all (\<lambda>k. key_ok E k \<and> isValidAddress (ke_address k) \<and> loadKey (Inr ks) (ke_name k) = Inr k
                  \<and> nextNonce s (ke_address k) = 0) ks
    \<and> heightLocked s = 0 \<and> bal s a = length (filter (\<lambda>k. ke_address k = a) ks) * 10 ^ 9
    \<and> aidMain E dev True gen2 write2 s = (None, Inr empty_bus, s)"
proof -
  obtain s0 where i: "initState E empty_db = Inr s0"
    using initState_ok [OF assms(1)] by blast
  obtain ks where ks: "generateKeys E gen devNames = Inr ks" "map ke_name ks = devNames" "list_all (key_written E) ks"
    using generateKeys_ok [OF assms(3)] by blast
  have len: "length ks = 4"
    using ks(2) [THEN arg_cong [of _ _ length]] by (simp add: devNames_def)
  have valid: "list_all (isValidAddress \<circ> ke_address) ks"
    using ks(3) key_written_valid [OF assms(2)] by (auto simp: list_all_iff)
  obtain s where f: "fundKeys E ks s0 = Inr s"
    using fundKeys_ok [OF assms(1) valid] by blast
  note g = genesis_inv [OF i] initState_Inr(1,3) [OF i] initState_fresh [OF i]
  note ff = fundKeys_facts [OF g(1) _ f, unfolded len g(2), simplified]
  have opened: "opened s"
    by (rule opened_same_but_accounts [OF g(5) ff(3)])
  have "bal s0 a = 0"
    using bal_le_total_supply [of s0 a] g(2) by simp
  then have "bal s a = length (filter (\<lambda>k. ke_address k = a) ks) * 10 ^ 9"
    using ff(4) by simp
  moreover have "nextNonce s b = 0" for b
  proof -
    have "cs_nonces s0 = []"
      by (subst g(3)) (simp add: empty_db_def)
    then show ?thesis
      using same_but_accounts_fields(5) [OF ff(3)] by (simp add: nextNonce_def)
  qed
  moreover have "heightLocked s = 0"
    using same_but_accounts_fields(1) [OF ff(3)] g(4) by (simp add: heightLocked_def getMetaUint64_def)
  moreover have "aidMain E True False gen write empty_db = (Some ks, Inr empty_bus, s)"
    by (simp add: aidMain_def openState_def dbUpdate_def i ensureDevKeyring_def ks(1) assms(4) f)
  moreover have "aidMain E dev True gen2 write2 s = (None, Inr empty_bus, s)"
    by (simp add: aidMain_def openState_def dbUpdate_def initState_opened [OF opened] ensureDevKeyring_def)
  moreover have "loadKey (Inr ks) (ke_name k) = Inr k" if "k \<in> set ks" for k
    using findKey_distinct [of ks k] that ks(2) devNames_distinct by (simp add: loadKey_def)
  ultimately show ?thesis
    using ks(2,3) valid key_written_ok [of E] unfolding devNames_def
    by (intro exI [of _ ks] exI [of _ s]) (auto simp: list_all_iff)
qed

definition demo_gen :: "string \<Rightarrow> chain_error + bytes \<times> bytes" where
  "demo_gen name = Inr (drop 32 (demo_key (of_nat (length name))), demo_key (of_nat (length name)))"

lemma demo_gen_ok: "gen_ok demo_gen"
  by (auto simp: gen_ok_def demo_gen_def demo_key_def demo_pub_def)

lemma first_start_witness:
  "\<exists>ks s. aidMain demo_env True False demo_gen (\<lambda>_. Inr ()) empty_db = (Some ks, Inr empty_bus, s)
     \<and> map ke_name ks = [''alice'', ''bob'', ''harness'', ''harness-b''] \<and> heightLocked s = 0"
  using first_start [OF demo_accepts demo_sha demo_gen_ok refl, of provider True demo_gen "\<lambda>_. Inr ()"]
  by (elim exE conjE) (intro exI conjI)

section \<open>Signing alike\<close>

text \<open>The keys made are key pairs of the signature scheme.\<close>

definition gen_signs :: "env \<Rightarrow> wallet \<Rightarrow> (string \<Rightarrow> chain_error + bytes \<times> bytes) \<Rightarrow> bool" where
  "gen_signs E W gen \<longleftrightarrow> (\<forall>name pub priv. gen name = Inr (pub, priv) \<longrightarrow> ed25519_ok E W priv)"

lemma generateKeys_from:
  "generateKeys E gen names = Inr ks \<Longrightarrow> k \<in> set ks \<Longrightarrow>
   \<exists>pub priv. gen (ke_name k) = Inr (pub, priv) \<and> ke_priv_key_hex k = hexEncode priv"
proof (induction names arbitrary: ks)
  case (Cons name names)
  then obtain pub priv ks' where "gen name = Inr (pub, priv)" "generateKeys E gen names = Inr ks'"
    and "ks = \<lparr>ke_name = name, ke_address = addressFromPubKey (sha256 E) pub,
           ke_pub_key_hex = hexEncode pub, ke_priv_key_hex = hexEncode priv\<rparr> # ks'"
    by (cases "gen name") auto
  with Cons show ?case by auto
qed simp

text \<open>C26: The chain's demo endpoints, the harness and the inference node sign alike. Of a generated key in a
  key file written by the chain they load the same signer. From the same type, nonce and payload the three
  implementations, each with its own declaration of the envelope and all with one JSON library, build one and
  the same envelope if the payload is JSON, and it passes the checks of the chain as one by the owner of
  the key. If the library refuses the payload, the chain and the harness report that, while
  the inference node, which drops the error, signs the empty message.\<close>

theorem signers_agree:
  assumes "gen_ok gen" and "gen_signs E (we_wallet V) gen"
    and "generateKeys E gen devNames = Inr ks" and "k \<in> set ks"
    and "ty \<in> set known_tx_types" and "payload \<noteq> []"
    and chain: "encode_tx E = (\<lambda>t. map_option string_bytes (marshalObject J (chainEnvelope t)))"
    and harness: "cc_marshal_tx K = (\<lambda>t. marshalObject J (harnessEnvelope t))"
    and node: "cc_marshal_tx (wc_client (we_codec V)) = (\<lambda>t. marshalObject J (nodeEnvelope t))"
  shows "\<exists>priv sg nk. loadKey (Inr ks) (ke_name k) = Inr k \<and> hexDecode (ke_priv_key_hex k) = Some priv
    \<and> loadSigner (Inr ks) (ke_name k) = Inr sg \<and> loadNodeKey (Inr ks) (ke_name k) = Inr nk
    \<and> (case jl_compact J payload of
         Some _ \<Rightarrow> \<exists>tx. buildTx E (we_wallet V) k priv ty payload nonce = Inr tx
           \<and> signRaw K (we_wallet V) sg ty nonce payload = Inr tx
           \<and> signTx (V\<lparr>we_key := nk\<rparr>) (raw_tx ty nonce payload) = Inr tx
           \<and> checkEnvelope E tx = Inr (ke_address k)
       | None \<Rightarrow> buildTx E (we_wallet V) k priv ty payload nonce = Inl (ErrText ''json'')
           \<and> signRaw K (we_wallet V) sg ty nonce payload = Inl (ErrText ''json'')
           \<and> (\<exists>tx. signTx (V\<lparr>we_key := nk\<rparr>) (raw_tx ty nonce payload) = Inr tx
                \<and> tx_signature_hex tx = hexEncode (ed25519_sign (we_wallet V) priv [])))"
proof -
  obtain ks2 where "generateKeys E gen devNames = Inr ks2" and ks: "map ke_name ks2 = devNames" "list_all (key_written E) ks2"
    using generateKeys_ok [OF assms(1)] by blast
  then have ks2: "ks2 = ks" using assms(3) by simp
  obtain priv where p: "length priv = 64" "ke_priv_key_hex k = hexEncode priv" "ke_pub_key_hex k = hexEncode (drop 32 priv)"
      "ke_address k = addressFromPubKey (sha256 E) (drop 32 priv)"
    using ks(2) assms(4) by (auto simp: ks2 list_all_iff key_written_def)
  have ed: "ed25519_ok E (we_wallet V) priv"
    using generateKeys_from [OF assms(3,4)] assms(2) p(2) unfolding gen_signs_def by (metis hexDecode_Encode option.inject)
  have find: "findKey (ke_name k) ks = Some k"
    using findKey_distinct [of ks k] assms(4) ks(1) devNames_distinct by (simp add: ks2)
  let ?raw = "\<lparr>tx_type = ty, tx_nonce = nonce, tx_pub_key_hex = ke_pub_key_hex k, tx_signature_hex = '''', tx_payload = payload\<rparr>"
  let ?sg = "\<lparr>sg_name = ke_name k, sg_addr = ke_address k, sg_pub_hex = ke_pub_key_hex k, sg_priv = priv\<rparr>"
  let ?nk = "\<lparr>nk_name = ke_name k, nk_addr = ke_address k, nk_pub = drop 32 priv, nk_priv = priv\<rparr>"
  have keys: "loadSigner (Inr ks) (ke_name k) = Inr ?sg" "loadNodeKey (Inr ks) (ke_name k) = Inr ?nk"
    "loadKey (Inr ks) (ke_name k) = Inr k" "hexDecode (ke_priv_key_hex k) = Some priv"
    using p find by (simp_all add: loadSigner_def loadNodeKey_def loadKey_def decodeHex_def hexDecode_Encode)
  note sign = buildTx_def signRaw_def signTx_def raw_tx_def signWith_def canonicalOf_def Let_def txCanonicalBytes_def
  show ?thesis
  proof (cases "jl_compact J payload")
    case None
    then have m: "marshalObject J (chainEnvelope ?raw) = None"
      by (simp add: marshal_envelope)
    show ?thesis
      using keys p(1,3) None m chain harness node
      by (intro exI [of _ priv] exI [of _ ?sg] exI [of _ ?nk]) (simp add: sign envelopes_agree)
  next
    case (Some c)
    then obtain canonical where m: "marshalObject J (chainEnvelope ?raw) = Some canonical"
      using marshal_envelope [of J ?raw] by auto
    let ?tx = "?raw\<lparr>tx_signature_hex := hexEncode (ed25519_sign (we_wallet V) priv (string_bytes canonical))\<rparr>"
    have b: "buildTx E (we_wallet V) k priv ty payload nonce = Inr ?tx"
      using m p(1) chain by (simp add: sign)
    have "signRaw K (we_wallet V) ?sg ty nonce payload = Inr ?tx" "signTx (V\<lparr>we_key := ?nk\<rparr>) (raw_tx ty nonce payload) = Inr ?tx"
      using m p(1,3) harness node by (simp_all add: sign envelopes_agree)
    moreover have "checkEnvelope E ?tx = Inr (ke_address k)"
      using checkEnvelope_buildTx(1) [OF ed assms(5,6) _ p(1) b] p by (simp add: hexDecode_Encode)
    ultimately show ?thesis
      using keys b Some by (intro exI [of _ priv] exI [of _ ?sg] exI [of _ ?nk] conjI) auto
  qed
qed

text \<open>A library that quotes without escapes and takes every payload for JSON, and the three programs with it.\<close>

definition plain_json :: json_lib where
  "plain_json = \<lparr>jl_quote = (\<lambda>s. CHR 0x22 # s @ [CHR 0x22]), jl_compact = Some\<rparr>"

definition json_env :: env where
  "json_env = watch_env\<lparr>encode_tx := (\<lambda>t. map_option string_bytes (marshalObject plain_json (chainEnvelope t)))\<rparr>"

definition json_client :: "(signed_tx \<Rightarrow> (string \<times> json_value) list) \<Rightarrow> client_codec" where
  "json_client declared = watch_client\<lparr>cc_marshal_tx := (\<lambda>t. marshalObject plain_json (declared t))\<rparr>"

definition json_worker :: "node worker_env" where
  "json_worker = worker\<lparr>we_codec := worker_texts\<lparr>wc_client := json_client nodeEnvelope\<rparr>\<rparr>"

theorem signers_agree_witness:
  "\<exists>ks k sg nk tx. generateKeys json_env demo_gen devNames = Inr ks \<and> k \<in> set ks \<and> ke_name k = ''bob''
     \<and> loadSigner (Inr ks) ''bob'' = Inr sg \<and> loadNodeKey (Inr ks) ''bob'' = Inr nk
     \<and> signRaw (json_client harnessEnvelope) watch_wallet sg txVouch 0 ''vch'' = Inr tx
     \<and> signTx (json_worker\<lparr>we_key := nk\<rparr>) (raw_tx txVouch 0 ''vch'') = Inr tx
     \<and> checkEnvelope json_env tx = Inr (ke_address k)"
proof -
  obtain ks where ks: "generateKeys json_env demo_gen devNames = Inr ks" "map ke_name ks = devNames"
    using generateKeys_ok [OF demo_gen_ok] by blast
  have "''bob'' \<in> set (map ke_name ks)"
    unfolding ks(2) by (simp add: devNames_def)
  then obtain k where k: "k \<in> set ks" "ke_name k = ''bob''" by auto
  have w: "we_wallet json_worker = watch_wallet"
    by (simp add: json_worker_def worker_def)
  have pairs: "gen_signs json_env (we_wallet json_worker) demo_gen"
    by (auto simp: gen_signs_def w demo_gen_def demo_key_def demo_pub_def ed25519_ok_def json_env_def watch_env_def watch_wallet_def demo_env_def)
  have parts: "encode_tx json_env = (\<lambda>t. map_option string_bytes (marshalObject plain_json (chainEnvelope t)))"
    "cc_marshal_tx (json_client harnessEnvelope) = (\<lambda>t. marshalObject plain_json (harnessEnvelope t))"
    "cc_marshal_tx (wc_client (we_codec json_worker)) = (\<lambda>t. marshalObject plain_json (nodeEnvelope t))"
    and m: "txVouch \<in> set known_tx_types" "''vch'' \<noteq> []" and c: "jl_compact plain_json ''vch'' = Some ''vch''"
    by (simp_all add: json_env_def json_client_def json_worker_def plain_json_def known_tx_types_def)
  note s = signers_agree [where nonce = 0, OF demo_gen_ok pairs ks(1) k(1) m parts, unfolded w k(2) c option.case]
  show ?thesis
    using s ks(1) k by blast
qed

section \<open>While the process runs\<close>

lemma blocks_ok:
  assumes "put_accepts E" and "sha_ok E" and "chain_inv E {} (nd_db nd)"
  shows "fst (runBlockProducer E nows nd) = []"
  using assms(3)
proof (induction nows arbitrary: nd)
  case (Cons now nows)
  obtain r nd' where c: "commitBlock E now nd = (r, nd')" by fastforce
  have "r = Inr ()"
    using commitBlock_cases [of E nd now] commitDb_ok [OF assms(1) Cons.prems] c by (metis Inr_inject Pair_inject sum.distinct(1))
  moreover have "fst (runBlockProducer E nows nd') = []"
    by (rule Cons.IH [OF node_step_keeps [OF assms(2) Cons.prems node_step.block [OF c]]])
  ultimately show ?case
    by (simp add: c split: prod.split)
qed simp

text \<open>C10: Whenever the process runs, after any history of starts, stops, crashes, transactions and
  blocks: the escrow account covers what the chain owes; there are either no coins at all or exactly the
  four thousand million of the development keys; the chain has the default parameters and its name,
  because nothing in the process ever sets others; and the block producer, for however many ticks, logs no
  failed block.\<close>

theorem daemon_invariant:
  assumes "sha_ok E" and "put_accepts E" and "aid_reach E a" and "aid_bus a = Some b"
  shows "obligations (aid_db a) \<le> bal (aid_db a) moduleEscrowAddr
    \<and> total_supply (aid_db a) \<in> {0, 4000000000}
    \<and> paramsLocked (aid_db a) = Inr defaultParams \<and> getMetaString (aid_db a) keyChainID = ''aios-devnet-1''
    \<and> fst (runBlockProducer E nows (aid_node a b)) = []"
proof -
  note i = aid_reach_inv [OF assms(3,1)]
  note r = aid_running [OF i assms(4)]
  have "chain_inv E {} (nd_db (aid_node a b))"
    using r(2) by (simp add: aid_node_def)
  from blocks_ok [OF assms(2,1) this] show ?thesis
    using i r opened_reads [OF r(1)] by (simp add: aid_inv_def chain_inv_def solvent_def)
qed

definition demo_started :: aid where
  "demo_started = aid_started aid_fresh (aidMain demo_env False False demo_gen (\<lambda>_. Inr ()) empty_db)"

lemma demo_started_reach: "aid_reach demo_env demo_started"
  unfolding demo_started_def
  using aid_reach.step [OF aid_reach.fresh aid_step.started [of demo_env aid_fresh False demo_gen "\<lambda>_. Inr ()"]]
  by (simp add: aid_fresh_def)

lemma demo_started_fields: "aid_db demo_started = nd_db demo_genesis" "aid_bus demo_started = Some empty_bus"
proof -
  have "initState demo_env empty_db = Inr (nd_db demo_genesis)"
    by (simp add: demo_genesis_def initState_def initKey_def putMeta_def bucket_put_def empty_db_def meta_keys demo_put)
  then show "aid_db demo_started = nd_db demo_genesis" "aid_bus demo_started = Some empty_bus"
    by (simp_all add: demo_started_def aidMain_def openState_def dbUpdate_def aid_started_def)
qed

lemma daemon_invariant_witness:
  "aid_bus demo_started = Some empty_bus
   \<and> fst (runBlockProducer demo_env [''a'', ''b''] (aid_node demo_started empty_bus)) = []"
  using daemon_invariant [OF demo_sha demo_accepts demo_started_reach demo_started_fields(2), of "[''a'', ''b'']"]
    demo_started_fields(2) by blast

section \<open>What nothing can change\<close>

text \<open>
  What survives every step: the authority once there is one, and the requests, which are kept and only
  move forward.
\<close>

definition persists :: "chain_state \<Rightarrow> chain_state \<Rightarrow> bool" where
  "persists s s' \<longleftrightarrow> (authorityLocked s \<noteq> '''' \<longrightarrow> authorityLocked s' = authorityLocked s) \<and> forward s s'"

lemma persists_refl: "persists s s"
  by (simp add: persists_def forward_same)

lemma forward_trans: "forward s t \<Longrightarrow> forward t u \<Longrightarrow> forward s u"
  unfolding forward_def by (metis order_trans)

lemma persists_trans: "persists s t \<Longrightarrow> persists t u \<Longrightarrow> persists s u"
  unfolding persists_def by (metis forward_trans)

lemma persists_empty: "persists empty_db s"
  by (simp add: persists_def forward_def authorityLocked_def getMetaString_def getRequest_def empty_db_def)

lemma persists_accounts: "same_but_accounts s s' \<Longrightarrow> persists s s'"
  using gets_same_but_accounts(2) [of s s'] same_but_accounts_fields(1) [of s s']
  by (simp add: persists_def forward_eq authorityLocked_def getMetaString_def)

lemma aidMain_persists:
  assumes "aid_inv E a"
  shows "persists (aid_db a) (aid_db (aid_started a (aidMain E dev (aid_file a \<noteq> None) gen write (aid_db a))))"
  by (rule aidMain_db [OF assms, of dev gen "write"])
    (metis persists_accounts persists_empty persists_refl persists_trans)

lemma aid_step_persists:
  assumes sha: "sha_ok E" and inv: "aid_inv E a" and step: "aid_step E a a'"
  shows "persists (aid_db a) (aid_db a')"
  using step
proof cases
  case (submitted b t res nd)
  have c: "chain_inv E {} (nd_db (aid_node a b))" and left: "ids_left (nd_db (aid_node a b))"
    using aid_running(2) [OF inv submitted(2)] submitted(3) by (simp_all add: aid_node_def)
  show ?thesis
    using node_step_forward [OF sha c node_step.tx [OF left submitted(4)]] submitTx_settings [OF sha c submitted(4)] submitted(1)
    by (simp add: persists_def same_settings_def keeps_settings_def aid_node_def aid_runs_def)
next
  case (ticked b now res nd)
  note t = ticked(3) [unfolded tick_def]
  have c: "chain_inv E {} (nd_db (aid_node a b))"
    using aid_running(2) [OF inv ticked(2)] by (simp add: aid_node_def)
  show ?thesis
    using node_step_forward [OF sha c node_step.block [OF t]] commitBlock_settings [OF c t] ticked(1)
    by (simp add: persists_def same_settings_def keeps_settings_def aid_node_def aid_runs_def)
next
  case started
  then show ?thesis using aidMain_persists [OF inv] by simp
next
  case stopped
  then show ?thesis by (simp add: persists_refl)
qed

lemma aid_run_persists:
  assumes "sha_ok E" and "aid_reach E a" and "(aid_step E)\<^sup>*\<^sup>* a a'"
  shows "persists (aid_db a) (aid_db a')"
proof -
  have "aid_reach E a' \<and> persists (aid_db a) (aid_db a')"
    using assms(3)
  proof induction
    case base
    then show ?case using assms(2) persists_refl by simp
  next
    case (step y z)
    then show ?case
      using aid_reach.step aid_step_persists [OF assms(1) aid_reach_inv [OF _ assms(1)]] persists_trans by metis
  qed
  then show ?thesis ..
qed

text \<open>C11: Nothing the process does, restarts included, takes back what it has recorded. Once a chain has an
  authority, which is the first signer of a domain registration, it has that authority for ever; and a
  stored request stays stored, never moves back in its life cycle, and never changes once it has reached
  a terminal status.\<close>

theorem authority_and_requests_persist:
  assumes "sha_ok E" and "aid_reach E a" and "(aid_step E)\<^sup>*\<^sup>* a a'"
  shows "(if authorityLocked (aid_db a) = '''' then True else authorityLocked (aid_db a') = authorityLocked (aid_db a))
    \<and> (case getRequest (aid_db a) k of
         Inl e \<Rightarrow> True
       | Inr r \<Rightarrow> (\<exists>r'. getRequest (aid_db a') k = Inr r' \<and> req_status r \<le> req_status r'
                    \<and> (if terminal (req_status r) then r' = r else True)))"
  using aid_run_persists [OF assms] by (auto simp: persists_def forward_def split: sum.split)

text \<open>A run: the process starts, a provider registers a domain, and the process is started again.\<close>

definition demo_appointed :: aid where
  "demo_appointed = aid_runs demo_started (snd (submitTx demo_env (demo_tx txRegisterDomain 0 1 ''dom'') demo_genesis))"

lemma demo_started_node: "aid_node demo_started empty_bus = demo_genesis"
  by (simp add: aid_node_def demo_started_fields(1)) (simp add: demo_genesis_def)

lemma demo_appointed_reach: "aid_reach demo_env demo_appointed"
proof -
  have left: "ids_left (aid_db demo_started)"
    by (simp add: demo_started_fields(1) ids_left_def demo_genesis_def getMetaUint64_def meta_keys)
  have "submitTx demo_env (demo_tx txRegisterDomain 0 1 ''dom'') (aid_node demo_started empty_bus)
      = (fst (submitTx demo_env (demo_tx txRegisterDomain 0 1 ''dom'') demo_genesis),
         snd (submitTx demo_env (demo_tx txRegisterDomain 0 1 ''dom'') demo_genesis))"
    by (simp add: demo_started_node)
  from aid_step.submitted [OF demo_started_fields(2) left this] show ?thesis
    unfolding demo_appointed_def by (rule aid_reach.step [OF demo_started_reach])
qed

lemma demo_appointed_authority: "authorityLocked (aid_db demo_appointed) = provider"
proof -
  have msg: "dec_register_domain demo_env ''dom'' = Some
      \<lparr>mrd_authority = provider, mrd_model_sha256 = ''m'', mrd_runtime_id = ''r'', mrd_hardware_tag = ''h'',
       mrd_precision = ''p'', mrd_tokenizer_id = '''', mrd_description = '''', mrd_voucher_margin = 0\<rparr>"
    by (simp add: demo_env_def)
  have none: "authorityLocked (nd_db demo_genesis) = ''''"
    by (simp add: authorityLocked_def getMetaString_def demo_genesis_def meta_keys)
  have ne: "uint64Key n \<noteq> []" "keyNextDomainID \<noteq> []" "keyAuthority \<noteq> []" for n
    using length_uint64Key [of n] by (force, simp_all add: meta_keys)
  then obtain s' k ev where run: "applyRegisterDomain demo_env (nd_db demo_genesis) provider ''dom'' 0 = Inr (s', k, ev)"
    by (simp add: applyRegisterDomain_def decode_def msg check_def putMeta_def bucket_put_def putDomain_def none Let_def)
  then have auth: "authorityLocked s' = provider"
    by (rule applyRegisterDomain_Inr) (simp add: none, simp add: authorityLocked_def getMetaString_def meta_keys)
  have "checkEnvelope demo_env (demo_tx txRegisterDomain 0 1 ''dom'') = Inr provider"
    by (rule demo_envelope) (simp_all add: known_tx_types_def)
  moreover have "heightLocked (nd_db demo_genesis) = 0" "nextNonce (nd_db demo_genesis) provider = 0"
    by (simp_all add: heightLocked_def getMetaUint64_def nextNonce_def demo_genesis_def empty_db_def meta_keys)
  ultimately have "nd_db (snd (submitTx demo_env (demo_tx txRegisterDomain 0 1 ''dom'') demo_genesis))
      = s'\<lparr>cs_nonces := bput provider (nextNonce s' provider + 1) (cs_nonces s')\<rparr>"
    unfolding submitTx_def runTx_def dispatch_def
    by (simp add: demo_tx_def run dbUpdate_def incNonce_def bucket_put_def tx_names)
  then show ?thesis
    using auth by (simp add: demo_appointed_def aid_runs_def authorityLocked_def getMetaString_def)
qed

lemma authority_and_requests_persist_witness:
  "authorityLocked (aid_db demo_appointed) = provider
   \<and> authorityLocked (aid_db (aid_started demo_appointed
        (aidMain demo_env True (aid_file demo_appointed \<noteq> None) demo_gen (\<lambda>_. Inr ()) (aid_db demo_appointed)))) = provider"
  using authority_and_requests_persist [OF demo_sha demo_appointed_reach
      r_into_rtranclp [of "aid_step demo_env", OF aid_step.started [of demo_env demo_appointed True demo_gen "\<lambda>_. Inr ()"]]]
    demo_appointed_authority by simp

end
