(* ===== verification/Startup.thy ===== *)
theory Startup
  imports Worker Harness Indexer
begin

text \<open>
  How the clients come up and stay connected: the waits for a file, for the chain and for the model
  server (\<open>waitFor\<close>, \<open>waitChainReady\<close>, \<open>WaitReady\<close>), the sequence of steps in the \<open>main\<close> of the inference
  node and of the harness, and the loops that subscribe again when a stream ends. None of these loops
  has a bound that its text shows, so they are partial functions: \<open>None\<close> is a loop that never returns.

  Time belongs to the world: \<open>ck_now\<close> reads the clock in nanoseconds, \<open>ck_sleep\<close> is \<open>time.Sleep\<close>, and a
  call over the network may take any time.
\<close>

record 'w clock =
  ck_now :: "'w \<Rightarrow> int"
  ck_sleep :: "int \<Rightarrow> 'w \<Rightarrow> 'w"

definition seconds :: "int \<Rightarrow> int" where
  "seconds n = n * 10 ^ 9"

subsection \<open>Waiting until a deadline\<close>

text \<open>
  The loop of all four waits: while the clock is before the deadline, probe; leave with what the probe
  decides, otherwise pause and look again.
\<close>

partial_function (option) pollUntil ::
  "('s \<Rightarrow> int) \<Rightarrow> ('s \<Rightarrow> 's) \<Rightarrow> ('s \<Rightarrow> 'r option \<times> 's) \<Rightarrow> 'r \<Rightarrow> int \<Rightarrow> 's \<Rightarrow> ('r \<times> 's) option" where
  "pollUntil now pause probe expired deadline s =
     (if now s < deadline then
        (case probe s of
           (Some r, s') \<Rightarrow> Some (r, s')
         | (None, s') \<Rightarrow> pollUntil now pause probe expired deadline (pause s'))
      else Some (expired, s))"

text \<open>\<open>waitFor\<close>: wait for a file to exist; \<open>stat\<close> is whether \<open>os.Stat\<close> finds it.\<close>

definition waitFor :: "'w clock \<Rightarrow> ('w \<Rightarrow> bool) \<Rightarrow> int \<Rightarrow> 'w \<Rightarrow> ((chain_error + unit) \<times> 'w) option" where
  "waitFor C stat timeout w =
     pollUntil (ck_now C) (ck_sleep C (seconds 1)) (\<lambda>w. (if stat w then Some (Inr ()) else None, w))
       (Inl (ErrText ''timed out waiting'')) (ck_now C w + timeout) w"

text \<open>
  \<open>Client.Status\<close> of the inference node and its wait for the chain. \<open>dec\<close> decodes the height of a
  status; the client remembers it.
\<close>

definition clientStatus :: "'w worker_env \<Rightarrow> (string \<Rightarrow> i64 option) \<Rightarrow> (i64, i64 \<times> 'w) action" where
  "clientStatus V dec =
     wbind (onNet (getDecode (we_chain V) dec ''/status'')) (\<lambda>h.
     wbind (storeHeight h) (\<lambda>_.
     wlift (Inr h)))"

definition nodeWaitChain ::
  "'w clock \<Rightarrow> 'w worker_env \<Rightarrow> (string \<Rightarrow> i64 option) \<Rightarrow> i64 \<times> 'w \<Rightarrow> ((chain_error + unit) \<times> i64 \<times> 'w) option" where
  "nodeWaitChain C V dec hw =
     pollUntil (ck_now C \<circ> snd) (apsnd (ck_sleep C (seconds 1)))
       (\<lambda>hw. case clientStatus V dec hw of (Inl e, hw') \<Rightarrow> (None, hw') | (Inr _, hw') \<Rightarrow> (Some (Inr ()), hw'))
       (Inl (ErrText ''chain not reachable'')) (ck_now C (snd hw) + seconds 60) hw"

text \<open>\<open>NewExecutor\<close> and \<open>WaitReady\<close>. \<open>respondsOk\<close> is what the waits without a decoder look at.\<close>

definition newExecutor :: "string \<Rightarrow> chain_error + string" where
  "newExecutor url =
     (if url = '''' then Inl (ErrText ''llama-server URL required'') else Inr (trimRight url ''/''))"

definition respondsOk :: "http_answer \<Rightarrow> bool" where
  "respondsOk a = (case a of Inl e \<Rightarrow> False | Inr (status, body) \<Rightarrow> status = 200)"

definition waitReady :: "'w clock \<Rightarrow> 'w net \<Rightarrow> int \<Rightarrow> 'w \<Rightarrow> ((chain_error + unit) \<times> 'w) option" where
  "waitReady C N timeout w =
     pollUntil (ck_now C) (ck_sleep C (seconds 2))
       (\<lambda>w. case net_get N ''/health'' w of (a, w') \<Rightarrow> (if respondsOk a then Some (Inr ()) else None, w'))
       (Inl (ErrText ''llama-server not ready'')) (ck_now C w + timeout) w"

text \<open>
  The wait of the harness, which is also left when the context is done. The paths of the network come
  after the trimmed base URL; this function gets the URL as it is configured, so the slashes
  \<open>rest\<close> at its end are part of the path it asks for.
\<close>

definition waitChainReady ::
  "'w clock \<Rightarrow> ('w \<Rightarrow> chain_error option) \<Rightarrow> 'w net \<Rightarrow> string \<Rightarrow> 'w \<Rightarrow> ((chain_error + unit) \<times> 'w) option" where
  "waitChainReady C ctxErr N rest w =
     pollUntil (ck_now C) (ck_sleep C (seconds 1))
       (\<lambda>w. case ctxErr w of
          Some e \<Rightarrow> (Some (Inl e), w)
        | None \<Rightarrow> (case net_get N (rest @ ''/status'') w of
            (a, w') \<Rightarrow> (if respondsOk a then Some (Inr ()) else None, w')))
       (Inl (ErrText ''chain not reachable'')) (ck_now C w + seconds 60) w"

subsection \<open>The two start-up sequences\<close>

text \<open>A step of \<open>main\<close>: an error is fatal, and a wait that does not return stops everything after it.\<close>

definition orFatal ::
  "string \<Rightarrow> ((chain_error + 'a) \<times> 's) option \<Rightarrow> ('a \<Rightarrow> 's \<Rightarrow> ((chain_error + 'b) \<times> 's) option)
    \<Rightarrow> ((chain_error + 'b) \<times> 's) option" where
  "orFatal m x f =
     (case x of
        None \<Rightarrow> None
      | Some (Inl e, s) \<Rightarrow> Some (Inl (Wrapped m e), s)
      | Some (Inr a, s) \<Rightarrow> f a s)"

text \<open>The flags of the inference node, and what it reads from its disk.\<close>

record 'w node_flags =
  nf_key_name :: string
  nf_llama_url :: string
  nf_model_sha :: string
  nf_config :: node_config
  nf_stat_keyring :: "'w \<Rightarrow> bool"
  nf_keyring :: "'w \<Rightarrow> key_file"
  nf_model_file :: "'w \<Rightarrow> chain_error + bytes"

text \<open>
  \<open>main\<close> of the inference node up to its loop: the key and the configuration with the fingerprint of
  the model, or the error it dies of. The height that the client remembers starts at 0.
\<close>

definition nodeMain ::
  "'w clock \<Rightarrow> 'w worker_env \<Rightarrow> (string \<Rightarrow> i64 option) \<Rightarrow> 'w node_flags \<Rightarrow> 'w
    \<Rightarrow> ((chain_error + node_key \<times> node_config) \<times> i64 \<times> 'w) option" where
  "nodeMain C V dec F w =
     orFatal ''keyring not available'' (map_option (\<lambda>(r, w). (r, 0, w)) (waitFor C (nf_stat_keyring F) (seconds 60) w))
       (\<lambda>_ hw.
     orFatal ''load signer'' (Some (loadNodeKey (nf_keyring F (snd hw)) (nf_key_name F), hw)) (\<lambda>key hw.
     orFatal ''chain not ready'' (nodeWaitChain C V dec hw) (\<lambda>_ hw.
     orFatal ''executor init'' (Some (newExecutor (nf_llama_url F), hw)) (\<lambda>_ hw.
     orFatal ''llama-server not ready''
         (map_option (\<lambda>(r, w). (r, fst hw, w)) (waitReady C (we_llama V) (seconds 60) (snd hw))) (\<lambda>_ hw.
     Some (Inr (key, (nf_config F)\<lparr>nc_model_sha256 :=
                       modelFingerprint (we_sha256 V) (nf_model_sha F) (nf_model_file F (snd hw))\<rparr>), hw))))))"

text \<open>\<open>main\<close> of the harness up to its loop: a key that cannot be loaded only switches filing off.\<close>

definition harnessMain ::
  "'w clock \<Rightarrow> ('w \<Rightarrow> chain_error option) \<Rightarrow> 'w net \<Rightarrow> string \<Rightarrow> ('w \<Rightarrow> key_file) \<Rightarrow> string \<Rightarrow> 'w
    \<Rightarrow> ((chain_error + signer option) \<times> 'w) option" where
  "harnessMain C ctxErr N rest keyring name w =
     (let sg = (case loadSigner (keyring w) name of Inl e \<Rightarrow> None | Inr s \<Rightarrow> Some s) in
      orFatal ''chain not reachable'' (waitChainReady C ctxErr N rest w) (\<lambda>_ w. Some (Inr sg, w)))"

text \<open>The HTTP server of the harness.\<close>

datatype harness_body = HealthOk | ReportBody report | PlainText string

definition harnessServe :: "verdict list \<Rightarrow> string \<Rightarrow> string \<Rightarrow> nat \<times> harness_body" where
  "harnessServe rs m path =
     (if path = ''/health'' \<or> path = ''/report'' then
        if m = ''GET'' \<or> m = ''HEAD'' then
          (200, if path = ''/health'' then HealthOk else ReportBody (reportOf rs))
        else (405, PlainText ''Method Not Allowed'')
      else (404, PlainText ''404 page not found''))"

subsection \<open>Subscribing for ever\<close>

text \<open>Opening a stream: a transport error, a status other than 200, or the text of the stream.\<close>

definition openStream :: "'w net \<Rightarrow> string \<Rightarrow> 'w \<Rightarrow> (string + string) \<times> 'w" where
  "openStream N path w =
     (case net_get N path w of
        (Inl e, w') \<Rightarrow> (Inl e, w')
      | (Inr (status, body), w') \<Rightarrow> if status \<noteq> 200 then (Inl ''subscribe status'', w') else (Inr body, w'))"

text \<open>
  The loop of the three clients. \<open>over\<close> is whether the context is done (or the process has died),
  \<open>connect\<close> one subscription, and \<open>wait\<close> the \<open>select\<close> between the timer and the context, which says
  whether the context won.
\<close>

partial_function (option) keepSubscribed ::
  "('s \<Rightarrow> bool) \<Rightarrow> ('s \<Rightarrow> (string + unit) \<times> 's) \<Rightarrow> (i64 \<Rightarrow> 's \<Rightarrow> bool \<times> 's) \<Rightarrow> i64 \<Rightarrow> 's \<Rightarrow> 's option" where
  "keepSubscribed over connect wait backoff s =
     (if over s then Some s
      else case connect s of
        (Inr _, s') \<Rightarrow> Some s'
      | (Inl e, s') \<Rightarrow>
          if over s' then Some s'
          else (case wait backoff s' of (finished, s'') \<Rightarrow>
            if finished then Some s''
            else keepSubscribed over connect wait (if backoff <s maxBackoff then backoff * 2 else backoff) s''))"

definition runLoop ::
  "'w worker_env \<Rightarrow> ('w \<Rightarrow> bool) \<Rightarrow> (nat \<Rightarrow> bool) \<Rightarrow> (i64 \<Rightarrow> 'w \<Rightarrow> bool \<times> 'w)
    \<Rightarrow> handled list \<times> i64 \<times> 'w \<Rightarrow> (handled list \<times> i64 \<times> 'w) option" where
  "runLoop V ctxDone cancelled wait st =
     keepSubscribed (\<lambda>(hs, h, w). ctxDone w \<or> crashed hs)
       (\<lambda>(hs, h, w). case openStream (we_chain V) (subscribePath workerTypes) w of
          (Inl e, w') \<Rightarrow> (Inl e, hs, h, w')
        | (Inr stream, w') \<Rightarrow> workerStream V cancelled stream (hs, h, w'))
       (\<lambda>backoff (hs, h, w). case wait backoff w of (d, w') \<Rightarrow> (d, hs, h, w'))
       (1 * second) st"

text \<open>The harness: the state is the list of the requests whose checks were started.\<close>

definition runWatchLoop ::
  "harness_codec \<Rightarrow> 'w net \<Rightarrow> ('w \<Rightarrow> bool) \<Rightarrow> (nat \<Rightarrow> bool) \<Rightarrow> (i64 \<Rightarrow> 'w \<Rightarrow> bool \<times> 'w)
    \<Rightarrow> u64 list \<times> 'w \<Rightarrow> (u64 list \<times> 'w) option" where
  "runWatchLoop K N ctxDone cancelled wait st =
     keepSubscribed (\<lambda>(ks, w). ctxDone w)
       (\<lambda>(ks, w). case openStream N harnessPath w of
          (Inl e, w') \<Rightarrow> (Inl e, ks, w')
        | (Inr stream, w') \<Rightarrow> (case subscribeHarness K cancelled stream ks of (r, ks') \<Rightarrow> (r, ks', w')))
       (\<lambda>backoff (ks, w). case wait backoff w of (d, w') \<Rightarrow> (d, ks, w'))
       (1 * second) st"

text \<open>The indexer: the state is the store. It subscribes to every event.\<close>

definition runSubscriber ::
  "driver \<Rightarrow> idx_codec \<Rightarrow> 'w net \<Rightarrow> ('w \<Rightarrow> bool) \<Rightarrow> (nat \<Rightarrow> bool) \<Rightarrow> (i64 \<Rightarrow> 'w \<Rightarrow> bool \<times> 'w)
    \<Rightarrow> store \<times> 'w \<Rightarrow> (store \<times> 'w) option" where
  "runSubscriber Q K N ctxDone cancelled wait st =
     keepSubscribed (\<lambda>(db, w). ctxDone w)
       (\<lambda>(db, w). case openStream N ''/events'' w of
          (Inl e, w') \<Rightarrow> (Inl e, db, w')
        | (Inr stream, w') \<Rightarrow> subscribeIndexer Q K N cancelled stream (db, w'))
       (\<lambda>backoff (db, w). case wait backoff w of (d, w') \<Rightarrow> (d, db, w'))
       (1 * second) st"

text \<open>
  \<open>Migrate\<close> on a database file whose tables may not exist yet (\<open>None\<close>), and the start of the indexer,
  which dies of a failed migration.
\<close>

definition migrate :: "driver \<Rightarrow> store option \<Rightarrow> store_error + store" where
  "migrate Q db = runStmt Q ''migrate'' [] (Inr (case db of None \<Rightarrow> empty_store | Some st \<Rightarrow> st))"

definition indexerMain ::
  "driver \<Rightarrow> idx_codec \<Rightarrow> 'w net \<Rightarrow> ('w \<Rightarrow> bool) \<Rightarrow> (nat \<Rightarrow> bool) \<Rightarrow> (i64 \<Rightarrow> 'w \<Rightarrow> bool \<times> 'w)
    \<Rightarrow> store option \<Rightarrow> 'w \<Rightarrow> (store_error + store \<times> 'w) option" where
  "indexerMain Q K N ctxDone cancelled wait db w =
     (case migrate Q db of
        Inl e \<Rightarrow> Some (Inl e)
      | Inr st \<Rightarrow> map_option Inr (runSubscriber Q K N ctxDone cancelled wait (st, w)))"

end
