(* ===== verification/StartupSpec.thy ===== *)
theory StartupSpec
  imports Startup ClientDemo IndexerLaws
begin

text \<open>
  Properties of the start-up of the clients: every wait ends after at most as many probes as its timeout
  has pauses, so both \<open>main\<close> functions reach their loop or die; what the harness needs of its
  configured URL; and that a loop of subscriptions that keeps failing never ends by itself.
\<close>

section \<open>Time\<close>

text \<open>
  \<open>time.Sleep\<close> is documented to pause at least for the given duration, and the monotonic clock that
  \<open>time.Now\<close> carries never runs backwards, whatever a call over the network does meanwhile.
\<close>

definition clock_ok :: "'w clock \<Rightarrow> bool" where
  "clock_ok C \<longleftrightarrow> (\<forall>d w. ck_now C w + d \<le> ck_now C (ck_sleep C d w))"

definition keeps_time :: "'w clock \<Rightarrow> 'w net \<Rightarrow> bool" where
  "keeps_time C N \<longleftrightarrow> (\<forall>path w. ck_now C w \<le> ck_now C (snd (net_get N path w)))"

text \<open>
  One round of a wait: the probe and the pause after it. \<open>polled\<close> says how a wait ends: some number of
  rounds at most \<open>limit\<close> goes by, each probe before the deadline and without a decision; then the
  next probe decides, or the deadline has passed.
\<close>

definition pollRound :: "('s \<Rightarrow> 's) \<Rightarrow> ('s \<Rightarrow> 'r option \<times> 's) \<Rightarrow> 's \<Rightarrow> 's" where
  "pollRound pause probe s = pause (snd (probe s))"

definition polled ::
  "('s \<Rightarrow> int) \<Rightarrow> ('s \<Rightarrow> 's) \<Rightarrow> ('s \<Rightarrow> 'r option \<times> 's) \<Rightarrow> 'r \<Rightarrow> int \<Rightarrow> nat \<Rightarrow> 's \<Rightarrow> ('r \<times> 's) option \<Rightarrow> bool" where
  "polled now pause probe expired deadline limit s res \<longleftrightarrow>
     (\<exists>n \<le> limit.
        (\<forall>k < n. now ((pollRound pause probe ^^ k) s) < deadline
               \<and> fst (probe ((pollRound pause probe ^^ k) s)) = None)
        \<and> (if now ((pollRound pause probe ^^ n) s) < deadline
           then \<exists>r s'. probe ((pollRound pause probe ^^ n) s) = (Some r, s') \<and> res = Some (r, s')
           else res = Some (expired, (pollRound pause probe ^^ n) s)))"

lemma polled_returns: "polled now pause probe expired deadline limit s res \<Longrightarrow> \<exists>r. res = Some r"
  by (auto simp: polled_def split: if_splits)

lemma pollUntil_ends:
  assumes "\<And>s. now s + gap \<le> now (pollRound pause probe s)"
    and "deadline \<le> now s + int m * gap"
  shows "polled now pause probe expired deadline m s (pollUntil now pause probe expired deadline s)"
  using assms(2)
proof (induction m arbitrary: s)
  case 0
  then show ?case by (simp add: polled_def pollUntil.simps)
next
  case (Suc m)
  let ?f = "pollRound pause probe"
  show ?case
  proof (cases "now s < deadline \<and> fst (probe s) = None")
    case True
    then have step: "pollUntil now pause probe expired deadline s = pollUntil now pause probe expired deadline (?f s)"
      by (subst pollUntil.simps) (cases "probe s", simp add: pollRound_def)
    have "deadline \<le> now (?f s) + int m * gap"
      using Suc.prems assms(1) [of s] by (simp add: algebra_simps)
    then obtain n where n: "n \<le> m" and before: "\<And>k. k < n \<Longrightarrow> now ((?f ^^ k) (?f s)) < deadline \<and> fst (probe ((?f ^^ k) (?f s))) = None"
      and after: "if now ((?f ^^ n) (?f s)) < deadline
           then \<exists>r s'. probe ((?f ^^ n) (?f s)) = (Some r, s') \<and> pollUntil now pause probe expired deadline (?f s) = Some (r, s')
           else pollUntil now pause probe expired deadline (?f s) = Some (expired, (?f ^^ n) (?f s))"
      using Suc.IH [of "?f s"] unfolding polled_def by blast
    have "now ((?f ^^ k) s) < deadline \<and> fst (probe ((?f ^^ k) s)) = None" if "k < Suc n" for k
      using that True before by (cases k) (auto simp: funpow_Suc_right simp del: funpow.simps(2))
    then show ?thesis
      unfolding polled_def step using n after
      by (intro exI [of _ "Suc n"]) (simp add: funpow_Suc_right del: funpow.simps(2))
  next
    case False
    then have "if now s < deadline
        then \<exists>r s'. probe s = (Some r, s') \<and> pollUntil now pause probe expired deadline s = Some (r, s')
        else pollUntil now pause probe expired deadline s = Some (expired, s)"
      by (subst (1 2) pollUntil.simps) (cases "probe s", auto)
    then show ?thesis
      unfolding polled_def by (intro exI [of _ 0]) simp
  qed
qed

subsection \<open>The four waits\<close>

lemma sleep_forward: "clock_ok C \<Longrightarrow> ck_now C w + d \<le> ck_now C (ck_sleep C d w)"
  by (simp add: clock_ok_def)

lemma get_forward: "keeps_time C N \<Longrightarrow> net_get N path w = (a, w') \<Longrightarrow> ck_now C w \<le> ck_now C w'"
  by (metis keeps_time_def snd_conv)

lemma getDecode_forward: "keeps_time C N \<Longrightarrow> getDecode N dec path w = (r, w') \<Longrightarrow> ck_now C w \<le> ck_now C w'"
  by (auto simp: getDecode_def jsonOf_def wlift_def dest: get_forward split: prod.splits sum.splits if_splits)

lemma status_forward:
  assumes "keeps_time C (we_chain V)" and "clientStatus V dec hw = (r, hw')"
  shows "ck_now C (snd hw) \<le> ck_now C (snd hw')"
  using assms(2) getDecode_forward [OF assms(1)]
  by (auto simp: clientStatus_def wbind_def onNet_def storeHeight_def wlift_def split: prod.splits sum.splits)

lemma waitFor_ends:
  assumes "clock_ok C"
  shows "polled (ck_now C) (ck_sleep C (seconds 1)) (\<lambda>w. (if stat w then Some (Inr ()) else None, w))
    (Inl (ErrText ''timed out waiting'')) (ck_now C w + seconds (int n)) n w (waitFor C stat (seconds (int n)) w)"
  unfolding waitFor_def
  by (rule pollUntil_ends [where gap = "seconds 1"])
    (use sleep_forward [OF assms] in \<open>auto simp: pollRound_def seconds_def\<close>)

definition statusProbe :: "'w worker_env \<Rightarrow> (string \<Rightarrow> i64 option) \<Rightarrow> i64 \<times> 'w \<Rightarrow> (chain_error + unit) option \<times> i64 \<times> 'w" where
  "statusProbe V dec hw =
     (case clientStatus V dec hw of (Inl e, hw') \<Rightarrow> (None, hw') | (Inr _, hw') \<Rightarrow> (Some (Inr ()), hw'))"

lemma nodeWaitChain_ends:
  assumes "clock_ok C" and "keeps_time C (we_chain V)"
  shows "polled (ck_now C \<circ> snd) (apsnd (ck_sleep C (seconds 1))) (statusProbe V dec)
    (Inl (ErrText ''chain not reachable'')) (ck_now C (snd hw) + seconds 60) 60 hw (nodeWaitChain C V dec hw)"
  unfolding nodeWaitChain_def statusProbe_def [symmetric]
proof (rule pollUntil_ends [where gap = "seconds 1"])
  show "(ck_now C \<circ> snd) s + seconds 1 \<le> (ck_now C \<circ> snd) (pollRound (apsnd (ck_sleep C (seconds 1))) (statusProbe V dec) s)" for s
  proof (cases "clientStatus V dec s" rule: prod_cases3)
    case (fields r h w1)
    then have "snd (statusProbe V dec s) = (h, w1)"
      by (cases r) (simp_all add: statusProbe_def)
    then show ?thesis
      using status_forward [OF assms(2) fields] sleep_forward [OF assms(1), of w1 "seconds 1"]
      by (simp add: pollRound_def)
  qed
qed (simp add: seconds_def)

definition httpProbe :: "'w net \<Rightarrow> string \<Rightarrow> 'w \<Rightarrow> (chain_error + unit) option \<times> 'w" where
  "httpProbe N path w = (case net_get N path w of (a, w') \<Rightarrow> (if respondsOk a then Some (Inr ()) else None, w'))"

lemma snd_httpProbe [simp]: "snd (httpProbe N path w) = snd (net_get N path w)"
  by (simp add: httpProbe_def split: prod.splits)

lemma waitReady_ends:
  assumes "clock_ok C" and "keeps_time C N"
  shows "polled (ck_now C) (ck_sleep C (seconds 2)) (httpProbe N ''/health'')
    (Inl (ErrText ''llama-server not ready'')) (ck_now C w + seconds (2 * int n)) n w
    (waitReady C N (seconds (2 * int n)) w)"
  unfolding waitReady_def httpProbe_def [symmetric]
proof (rule pollUntil_ends [where gap = "seconds 2"])
  show "ck_now C s + seconds 2 \<le> ck_now C (pollRound (ck_sleep C (seconds 2)) (httpProbe N ''/health'') s)" for s
    using sleep_forward [OF assms(1), of "snd (net_get N ''/health'' s)" "seconds 2"] assms(2)
    by (simp add: pollRound_def keeps_time_def) (meson add_right_mono order_trans)
qed (simp add: seconds_def)

definition chainProbe :: "('w \<Rightarrow> chain_error option) \<Rightarrow> 'w net \<Rightarrow> string \<Rightarrow> 'w \<Rightarrow> (chain_error + unit) option \<times> 'w" where
  "chainProbe ctxErr N rest w =
     (case ctxErr w of Some e \<Rightarrow> (Some (Inl e), w) | None \<Rightarrow> httpProbe N (rest @ ''/status'') w)"

lemma waitChainReady_ends:
  assumes "clock_ok C" and "keeps_time C N"
  shows "polled (ck_now C) (ck_sleep C (seconds 1)) (chainProbe ctxErr N rest)
    (Inl (ErrText ''chain not reachable'')) (ck_now C w + seconds 60) 60 w (waitChainReady C ctxErr N rest w)"
  unfolding waitChainReady_def httpProbe_def [symmetric] chainProbe_def [symmetric]
proof (rule pollUntil_ends [where gap = "seconds 1"])
  fix s
  have "ck_now C s \<le> ck_now C (snd (chainProbe ctxErr N rest s))"
    using assms(2) by (auto simp: chainProbe_def keeps_time_def split: option.split)
  then show "ck_now C s + seconds 1 \<le> ck_now C (pollRound (ck_sleep C (seconds 1)) (chainProbe ctxErr N rest) s)"
    using sleep_forward [OF assms(1), of "snd (chainProbe ctxErr N rest s)" "seconds 1"] by (simp add: pollRound_def)
qed (simp add: seconds_def)


subsection \<open>The two main functions\<close>

lemma orFatal_returns:
  assumes "\<exists>r. x = Some r" and "\<And>a s. \<exists>r. f a s = Some r"
  shows "\<exists>r. orFatal m x f = Some r"
  using assms by (auto simp: orFatal_def split: sum.splits)

lemma Some_returns: "\<exists>r. Some x = Some r"
  by simp

lemma map_option_returns: "\<exists>r. x = Some r \<Longrightarrow> \<exists>r. map_option f x = Some r"
  by auto

lemma nodeMain_returns:
  assumes "clock_ok C" and "keeps_time C (we_chain V)" and "keeps_time C (we_llama V)"
  shows "\<exists>r. nodeMain C V dec F w = Some r"
proof -
  have waits: "\<exists>r. waitFor C stat (seconds 60) w = Some r" "\<exists>r. nodeWaitChain C V dec hw = Some r"
    "\<exists>r. waitReady C (we_llama V) (seconds 60) w = Some r" for stat hw w
    using polled_returns [OF waitFor_ends [OF assms(1), of stat w 60]]
      polled_returns [OF nodeWaitChain_ends [OF assms(1,2), of dec hw]]
      polled_returns [OF waitReady_ends [OF assms(1,3), of w 30]] by simp_all
  show ?thesis
    unfolding nodeMain_def by (intro orFatal_returns map_option_returns waits Some_returns)
qed

lemma harnessMain_returns:
  assumes "clock_ok C" and "keeps_time C N"
  shows "\<exists>r. harnessMain C ctxErr N rest kr name w = Some r"
  unfolding harnessMain_def Let_def
  by (intro orFatal_returns polled_returns [OF waitChainReady_ends [OF assms]] Some_returns)

text \<open>C27: With a clock that does not run backwards and a sleep that lasts at least as long as asked, no
  start-up hangs: the \<open>main\<close> functions of the inference node and of the harness reach their loop or end
  with an error, because every wait ends. The waits for the chain give up after at most 60 probes, the wait
  for the key file after one probe per second of its timeout and the wait for the model server after one
  per two seconds; until then no probe has decided and the deadline has not passed.\<close>

theorem startup_waits_end:
  assumes "clock_ok C" and "keeps_time C (we_chain V)" and "keeps_time C (we_llama V)"
  shows "(\<exists>r. nodeMain C V dec F w = Some r) \<and> (\<exists>r. harnessMain C ctxErr (we_chain V) rest kr name w = Some r)
    \<and> polled (ck_now C) (ck_sleep C (seconds 1)) (\<lambda>w. (if stat w then Some (Inr ()) else None, w))
        (Inl (ErrText ''timed out waiting'')) (ck_now C w + seconds (int n)) n w (waitFor C stat (seconds (int n)) w)
    \<and> polled (ck_now C \<circ> snd) (apsnd (ck_sleep C (seconds 1))) (statusProbe V dec)
        (Inl (ErrText ''chain not reachable'')) (ck_now C w + seconds 60) 60 (h, w) (nodeWaitChain C V dec (h, w))
    \<and> polled (ck_now C) (ck_sleep C (seconds 2)) (httpProbe (we_llama V) ''/health'')
        (Inl (ErrText ''llama-server not ready'')) (ck_now C w + seconds (2 * int n)) n w
        (waitReady C (we_llama V) (seconds (2 * int n)) w)
    \<and> polled (ck_now C) (ck_sleep C (seconds 1)) (chainProbe ctxErr (we_chain V) rest)
        (Inl (ErrText ''chain not reachable'')) (ck_now C w + seconds 60) 60 w
        (waitChainReady C ctxErr (we_chain V) rest w)"
  using nodeMain_returns [OF assms] harnessMain_returns [OF assms(1,2)] waitFor_ends [OF assms(1)]
    nodeWaitChain_ends [OF assms(1,2), of dec "(h, w)"] waitReady_ends [OF assms(1,3)] waitChainReady_ends [OF assms(1,2)]
  by simp

text \<open>
  A world that is only the time, with a server that is up after three seconds and takes a millisecond to
  answer.
\<close>

definition tick_clock :: "int clock" where
  "tick_clock = \<lparr>ck_now = (\<lambda>t. t), ck_sleep = (\<lambda>d t. t + d)\<rparr>"

definition tick_net :: "int net" where
  "tick_net = \<lparr>net_get = (\<lambda>path t. (if t < seconds 3 then Inl ''refused'' else Inr (200, ''ok''), t + 10 ^ 6)),
     net_post = (\<lambda>path body t. (Inl ''refused'', t))\<rparr>"

definition tick_worker :: "int worker_env" where
  "tick_worker = \<lparr>we_codec = worker_texts, we_wallet = watch_wallet, we_sha256 = demo_sha256, we_key = we_key worker,
     we_config = we_config worker, we_malicious = False, we_chain = tick_net, we_llama = tick_net\<rparr>"

lemma tick_ok: "clock_ok tick_clock" "keeps_time tick_clock (we_chain tick_worker)" "keeps_time tick_clock (we_llama tick_worker)"
  by (simp_all add: clock_ok_def keeps_time_def tick_clock_def tick_net_def tick_worker_def)

lemma startup_waits_end_witness:
  "(\<exists>r. harnessMain tick_clock (\<lambda>_. None) tick_net '''' (\<lambda>_. Inl (ErrText ''no file'')) ''harness'' 0 = Some r)
   \<and> waitChainReady tick_clock (\<lambda>_. None) tick_net '''' 0 = Some (Inr (), seconds 3 + 4 * 10 ^ 6)
   \<and> waitFor tick_clock (\<lambda>_. False) (seconds 2) 0 = Some (Inl (ErrText ''timed out waiting''), seconds 2)"
proof (intro conjI)
  show "\<exists>r. harnessMain tick_clock (\<lambda>_. None) tick_net '''' (\<lambda>_. Inl (ErrText ''no file'')) ''harness'' 0 = Some r"
    using startup_waits_end [OF tick_ok] by (auto simp: tick_worker_def)
  show "waitChainReady tick_clock (\<lambda>_. None) tick_net '''' 0 = Some (Inr (), seconds 3 + 4 * 10 ^ 6)"
    by (simp add: waitChainReady_def pollUntil.simps tick_clock_def tick_net_def seconds_def respondsOk_def)
  show "waitFor tick_clock (\<lambda>_. False) (seconds 2) 0 = Some (Inl (ErrText ''timed out waiting''), seconds 2)"
    by (simp add: waitFor_def pollUntil.simps tick_clock_def seconds_def)
qed

section \<open>The loops of subscriptions\<close>

text \<open>
  While the context is never done and every subscription ends with an error, the loop does not return,
  however often it has waited.
\<close>

lemma keepSubscribed_never_ends:
  assumes never: "\<And>s. \<not> over s" and fails: "\<And>s. \<exists>e s'. connect s = (Inl e, s')" and waits: "\<And>b s. \<not> fst (wait b s)"
  shows "keepSubscribed over connect wait b s = None"
proof (rule ccontr)
  assume "keepSubscribed over connect wait b s \<noteq> None"
  then obtain t where ret: "keepSubscribed over connect wait b s = Some t" by blast
  have "(\<forall>s. \<not> over s) \<and> (\<forall>s. \<exists>e s'. connect s = (Inl e, s')) \<and> (\<forall>b s. \<not> fst (wait b s)) \<longrightarrow> False"
  proof (rule keepSubscribed.raw_induct [where P = "\<lambda>over connect wait b s t.
        (\<forall>s. \<not> over s) \<and> (\<forall>s. \<exists>e s'. connect s = (Inl e, s')) \<and> (\<forall>b s. \<not> fst (wait b s)) \<longrightarrow> False", OF _ ret], intro impI)
    fix rec and over :: "'a \<Rightarrow> bool" and connect :: "'a \<Rightarrow> (string + unit) \<times> 'a"
      and wait :: "i64 \<Rightarrow> 'a \<Rightarrow> bool \<times> 'a" and b s t
    assume IH: "\<And>over connect wait b s t. rec over connect wait b s = Some t \<Longrightarrow>
        (\<forall>s. \<not> over s) \<and> (\<forall>s. \<exists>e s'. connect s = (Inl e, s')) \<and> (\<forall>b s. \<not> fst (wait b s)) \<longrightarrow> False"
      and eq: "(if over s then Some s
        else case connect s of (Inl e, s') \<Rightarrow> if over s' then Some s'
             else (case wait b s' of (finished, s'') \<Rightarrow> if finished then Some s''
               else rec over connect wait (if b <s maxBackoff then b * 2 else b) s'')
           | (Inr _, s') \<Rightarrow> Some s') = Some t"
      and a: "(\<forall>s. \<not> over s) \<and> (\<forall>s. \<exists>e s'. connect s = (Inl e, s')) \<and> (\<forall>b s. \<not> fst (wait b s))"
    obtain e s' where c: "connect s = (Inl e, s')" using a by blast
    obtain s'' where "wait b s' = (False, s'')" using a by (metis prod.collapse)
    with eq a c have "rec over connect wait (if b <s maxBackoff then b * 2 else b) s'' = Some t"
      by simp
    with IH a show False by blast
  qed
  with never fails waits show False by blast
qed

text \<open>What every subscription and every wait keeps, the loop keeps.\<close>

lemma keepSubscribed_keeps:
  assumes ret: "keepSubscribed over connect wait b s = Some t" and "P s"
    and "\<And>s. P s \<Longrightarrow> P (snd (connect s))" and "\<And>b s. P s \<Longrightarrow> P (snd (wait b s))"
  shows "P t"
proof -
  have "(\<forall>s. P s \<longrightarrow> P (snd (connect s))) \<and> (\<forall>b s. P s \<longrightarrow> P (snd (wait b s))) \<and> P s \<longrightarrow> P t"
  proof (rule keepSubscribed.raw_induct [where P = "\<lambda>over connect wait b s t.
        (\<forall>s. P s \<longrightarrow> P (snd (connect s))) \<and> (\<forall>b s. P s \<longrightarrow> P (snd (wait b s))) \<and> P s \<longrightarrow> P t", OF _ ret], intro impI)
    fix rec and over :: "'a \<Rightarrow> bool" and connect :: "'a \<Rightarrow> (string + unit) \<times> 'a"
      and wait :: "i64 \<Rightarrow> 'a \<Rightarrow> bool \<times> 'a" and b s t
    assume IH: "\<And>over connect wait b s t. rec over connect wait b s = Some t \<Longrightarrow>
        (\<forall>s. P s \<longrightarrow> P (snd (connect s))) \<and> (\<forall>b s. P s \<longrightarrow> P (snd (wait b s))) \<and> P s \<longrightarrow> P t"
      and eq: "(if over s then Some s
        else case connect s of (Inl e, s') \<Rightarrow> if over s' then Some s'
             else (case wait b s' of (finished, s'') \<Rightarrow> if finished then Some s''
               else rec over connect wait (if b <s maxBackoff then b * 2 else b) s'')
           | (Inr _, s') \<Rightarrow> Some s') = Some t"
      and a: "(\<forall>s. P s \<longrightarrow> P (snd (connect s))) \<and> (\<forall>b s. P s \<longrightarrow> P (snd (wait b s))) \<and> P s"
    obtain x s' where c: "connect s = (x, s')" by fastforce
    obtain over' s'' where w: "wait b s' = (over', s'')" by fastforce
    have P: "P s" "P s'" "P s''"
      using a c w by (metis snd_conv)+
    have "rec over connect wait (if b <s maxBackoff then b * 2 else b) s'' = Some t \<longrightarrow> P t"
      using IH a P(3) by blast
    then show "P t"
      using eq P by (simp add: c w split: if_splits sum.splits)
  qed
  with assms(2-4) show ?thesis by blast
qed

text \<open>So the store of the indexer satisfies its schema whenever the process ends, whatever it was sent.\<close>

lemma indexerMain_ok:
  assumes "indexerMain Q K N ctxDone cancelled wait db w = Some (Inr (st, w'))"
    and "case db of None \<Rightarrow> True | Some st0 \<Rightarrow> store_ok st0"
  shows "store_ok st"
proof -
  obtain st0 where m: "migrate Q db = Inr st0"
    and run: "runSubscriber Q K N ctxDone cancelled wait (st0, w) = Some (st, w')"
    using assms(1) by (auto simp: indexerMain_def split: sum.splits)
  have "store_ok st0"
    using m assms(2) store_ok_empty by (auto simp: migrate_def runStmt_def split: option.splits)
  then have "store_ok (fst (st, w'))"
    by (intro keepSubscribed_keeps [where P = "\<lambda>stw. store_ok (fst stw)", OF run [unfolded runSubscriber_def]])
      (auto simp: openStream_def subscribeIndexer_ok split: prod.splits sum.splits)
  then show ?thesis by simp
qed

end
