(* ===== verification/ProcessDemo.thy ===== *)
theory ProcessDemo
  imports Daemon Demo
begin

text \<open>
  A concrete life of the process, used to show that the hypotheses of the properties about it can hold: the
  first start creates and funds the keys of the run in the theory \<open>Demo\<close>, a provider registers a service
  and a requester asks it for an inference.
\<close>

definition market_gen :: "string \<Rightarrow> chain_error + bytes \<times> bytes" where
  "market_gen name =
     (let n = if name = ''alice'' then 1 else if name = ''bob'' then 2 else if name = ''harness'' then 3 else 4
      in Inr (demo_pub n, demo_pub n @ demo_pub n))"

definition market_funded :: chain_state where
  "market_funded = (nd_db demo_genesis)\<lparr>cs_accounts := [demo_acc provider 1000000000, demo_acc requester 1000000000,
     demo_acc challenger 1000000000, demo_acc witnessA 1000000000]\<rparr>"

definition market_started :: aid where
  "market_started = aid_started aid_fresh (aidMain demo_env True False market_gen (\<lambda>_. Inr ()) empty_db)"

lemma demo_addr_not_less [simp]:
  "\<not> demo_addr 2 < demo_addr 1" "\<not> demo_addr 3 < demo_addr 1" "\<not> demo_addr 4 < demo_addr 1"
  "\<not> demo_addr 3 < demo_addr 2" "\<not> demo_addr 4 < demo_addr 2" "\<not> demo_addr 4 < demo_addr 3"
  "\<not> moduleEscrowAddr < demo_addr 1" "\<not> moduleEscrowAddr < demo_addr 2" "\<not> moduleEscrowAddr < demo_addr 3"
  "\<not> moduleEscrowAddr < demo_addr 4"
  using demo_addr_less demo_addr_order by (simp_all only: less_not_sym not_False_eq_True)

lemma demo_credit:
  "c \<noteq> 0 \<Longrightarrow> credit demo_env s (demo_addr n) c =
     Inr (s\<lparr>cs_accounts := bput (demo_addr n) ((loadAccount s (demo_addr n))\<lparr>acc_balance := acc_balance (loadAccount s (demo_addr n)) + c\<rparr>) (cs_accounts s)\<rparr>)"
  by (simp add: credit_def bucket_put_def Let_def)

lemma market_keys: "\<exists>ks. generateKeys demo_env market_gen devNames = Inr ks
    \<and> fundKeys demo_env ks (nd_db demo_genesis) = Inr market_funded"
  by (simp add: devNames_def market_gen_def demo_credit initialFunds_def)
    (simp add: loadAccount_def demo_addr_eq demo_acc_def market_funded_def demo_genesis_def empty_db_def)

lemma market_started_fields: "aid_db market_started = market_funded" "aid_bus market_started = Some empty_bus"
proof -
  have "initState demo_env empty_db = Inr (nd_db demo_genesis)"
    by (simp add: demo_genesis_def initState_def initKey_def putMeta_def bucket_put_def empty_db_def meta_keys demo_put)
  moreover obtain ks where "generateKeys demo_env market_gen devNames = Inr ks"
    and "fundKeys demo_env ks (nd_db demo_genesis) = Inr market_funded"
    using market_keys by blast
  ultimately show "aid_db market_started = market_funded" "aid_bus market_started = Some empty_bus"
    by (simp_all add: market_started_def aidMain_def openState_def dbUpdate_def aid_started_def ensureDevKeyring_def)
qed

lemma market_started_reach: "aid_reach demo_env market_started"
  using aid_reach.step [OF aid_reach.fresh aid_step.started [of demo_env aid_fresh True market_gen "\<lambda>_. Inr ()"]]
  by (simp add: market_started_def aid_fresh_def)

text \<open>The provider registers its service.\<close>

definition market_listed :: chain_state where
  "market_listed = market_funded\<lparr>
     cs_meta := bput keyNextSvcID (MetaU64 2) (cs_meta market_funded),
     cs_accounts := [demo_acc provider 999999900, demo_acc requester 1000000000, demo_acc challenger 1000000000,
       demo_acc witnessA 1000000000, demo_acc moduleEscrowAddr 100],
     cs_services := [(1, demo_svc)], cs_svc_by_name := [(''echo'', 1)]\<rparr>"

lemma market_register: "\<exists>ev. applyRegisterService demo_env market_funded provider ''svc'' 0 = Inr (market_listed, 1, ev)"
proof -
  have msg: "dec_register_service demo_env ''svc'' = Some
      \<lparr>mrs_owner = provider, mrs_name = ''echo'', mrs_description = '''', mrs_price = aios 10, mrs_domain_id = 0\<rparr>"
    by (simp add: demo_env_def)
  have esc: "moduleEscrowAddr \<noteq> []"
    by (simp add: moduleEscrowAddr_def)
  show ?thesis
    unfolding applyRegisterService_def decode_def msg
    by (simp add: check_def requireActiveDomain_def isPositive_iff aios_def lockBond_move move_def debit_def credit_def
        loadAccount_def bucket_put_def putMeta_def putService_def Let_def esc demo_svc_def market_listed_def
        market_funded_def demo_genesis_def empty_db_def demo_acc_def paramsLocked_def getMetaUint64_def
        defaultParams_def string_bytes_def demo_addr_eq)
      (simp add: meta_keys)
qed

text \<open>The requester asks for an inference, with deadline 1.\<close>

definition market_request :: inference_request where
  "market_request = demo_pending\<lparr>req_deadline := 1, req_created_at := 0\<rparr>"

definition market_open :: chain_state where
  "market_open = market_listed\<lparr>
     cs_meta := bput keyNextReqID (MetaU64 2) (cs_meta market_listed),
     cs_accounts := [demo_acc provider 999999900, demo_acc requester 999999990, demo_acc challenger 1000000000,
       demo_acc witnessA 1000000000, demo_acc moduleEscrowAddr 110],
     cs_requests := [(1, market_request)], cs_nonces := [(provider, 1)]\<rparr>"

lemma market_ask:
  "\<exists>ev. applyRequestInference demo_env (market_listed\<lparr>cs_nonces := [(provider, 1)]\<rparr>) requester ''req'' 0 = Inr (market_open, 1, ev)"
proof -
  have msg: "dec_request_inference demo_env ''req'' = Some \<lparr>mri_requester = requester, mri_service_id = 1, mri_input_hash = ''in'',
      mri_input_uri = '''', mri_input_text = ''hi'', mri_max_price = aios 12, mri_deadline = 1\<rparr>"
    by (simp add: demo_env_def)
  have esc: "moduleEscrowAddr \<noteq> []"
    by (simp add: moduleEscrowAddr_def)
  have svc: "getService market_listed 1 = Inr demo_svc" and ps: "paramsLocked market_listed = Inr defaultParams"
    by (simp_all add: getService_def market_listed_def paramsLocked_def market_funded_def demo_genesis_def meta_keys)
  have mv: "move id demo_env (market_listed\<lparr>cs_nonces := n\<rparr>) requester moduleEscrowAddr 10 =
      Inr (market_listed\<lparr>cs_accounts := cs_accounts market_open, cs_nonces := n\<rparr>)" for n
    by (simp add: move_def debit_def credit_def loadAccount_def bucket_put_def Let_def esc demo_addr_eq
        market_listed_def market_open_def demo_acc_def)
  have id: "getMetaUint64 market_listed keyNextReqID = 1"
    by (simp add: getMetaUint64_def market_listed_def market_funded_def demo_genesis_def meta_keys)
  have svcs: "svc_active demo_svc" "svc_price demo_svc = aios 10" "denom (aios n) = denom (aios m)" "amount (aios n) = n" for n m
    by (simp_all add: demo_svc_def aios_def)
  have key: "keyNextReqID \<noteq> []"
    by (simp add: meta_keys)
  let ?s = "market_listed\<lparr>cs_accounts := cs_accounts market_open, cs_nonces := [(provider, 1)]\<rparr>"
  have "?s\<lparr>cs_meta := bput keyNextReqID (MetaU64 2) (cs_meta ?s), cs_requests := bput 1 market_request (cs_requests ?s)\<rparr> = market_open"
    by (simp add: market_open_def market_listed_def market_funded_def demo_genesis_def empty_db_def)
  moreover have "\<exists>ev. applyRequestInference demo_env (market_listed\<lparr>cs_nonces := [(provider, 1)]\<rparr>) requester ''req'' 0 =
    Inr (?s\<lparr>cs_meta := bput keyNextReqID (MetaU64 2) (cs_meta ?s), cs_requests := bput 1 market_request (cs_requests ?s)\<rparr>, 1, ev)"
    unfolding applyRequestInference_def decode_def msg
    using key by (simp add: check_def svc ps svcs mv id Let_def putMeta_def bucket_put_def word_sle_eq)
      (simp add: market_request_def demo_pending_def)
  ultimately show ?thesis by simp
qed

text \<open>Both as steps of the process.\<close>

lemma demo_submit_step:
  assumes "aid_bus a = Some b" and "ids_left (aid_db a)" and "ty \<in> set known_tx_types" and "p \<noteq> ''''"
    and "nextNonce (aid_db a) (demo_addr who) = n"
    and "dispatch demo_env (aid_db a) (demo_addr who) (demo_tx ty n who p) (heightLocked (aid_db a)) = Inr (s, rc)"
  obtains a' b' where "aid_step demo_env a a'" and "aid_bus a' = Some b'"
    and "aid_db a' = s\<lparr>cs_nonces := bput (demo_addr who) (nextNonce s (demo_addr who) + 1) (cs_nonces s)\<rparr>"
proof -
  obtain res nd where t: "submitTx demo_env (demo_tx ty n who p) (aid_node a b) = (res, nd)" by fastforce
  have "nd_db nd = s\<lparr>cs_nonces := bput (demo_addr who) (nextNonce s (demo_addr who) + 1) (cs_nonces s)\<rparr>"
    using t assms(6) demo_envelope [OF assms(3,4), of n who]
    by (auto simp: submitTx_def dbUpdate_def runTx_def aid_node_def incNonce_def bucket_put_def assms(5) demo_tx_def)
  then show thesis
    using that aid_step.submitted [OF assms(1,2) t] by (simp add: aid_runs_def)
qed

lemma market_reads:
  "ids_left market_funded" "nextNonce market_funded provider = 0" "heightLocked market_funded = 0"
  "ids_left market_listed" "nextNonce market_listed provider = 0" "heightLocked market_listed = 0"
  "heightLocked market_open = 0" "nextNonce market_open requester = 0"
  by (simp_all add: ids_left_def nextNonce_def heightLocked_def getMetaUint64_def market_open_def market_listed_def
      market_funded_def demo_genesis_def empty_db_def meta_keys demo_addr_eq)

lemma market_steps:
  obtains a1 a2 b where "aid_step demo_env market_started a1" and "aid_step demo_env a1 a2"
    and "aid_db a1 = market_listed\<lparr>cs_nonces := [(provider, 1)]\<rparr>"
    and "aid_bus a2 = Some b" and "aid_db a2 = market_open\<lparr>cs_nonces := [(provider, 1), (requester, 1)]\<rparr>"
proof -
  have ty: "txRegisterService \<in> set known_tx_types" "txRequestInference \<in> set known_tx_types"
    by (simp_all add: known_tx_types_def)
  obtain rc where d1: "dispatch demo_env (aid_db market_started) provider (demo_tx txRegisterService 0 1 ''svc'')
      (heightLocked (aid_db market_started)) = Inr (market_listed, rc)"
    using market_register by (auto simp: dispatch_def demo_tx_def market_started_fields(1) market_reads)
  obtain a1 b1 where s1: "aid_step demo_env market_started a1" "aid_bus a1 = Some b1"
    and db1: "aid_db a1 = market_listed\<lparr>cs_nonces := bput provider (nextNonce market_listed provider + 1) (cs_nonces market_listed)\<rparr>"
    using demo_submit_step [OF market_started_fields(2) _ ty(1) _ _ d1]
    by (simp add: market_started_fields(1) market_reads) blast
  have db1': "aid_db a1 = market_listed\<lparr>cs_nonces := [(provider, 1)]\<rparr>"
    unfolding db1 by (simp add: market_reads) (simp add: market_listed_def market_funded_def demo_genesis_def empty_db_def)
  have r1: "ids_left (aid_db a1)" "nextNonce (aid_db a1) requester = 0" "heightLocked (aid_db a1) = 0"
    using market_reads(4,6) unfolding db1' by (simp_all add: ids_left_def nextNonce_def heightLocked_def demo_addr_eq)
  have ne: "txRequestInference \<noteq> txRegisterService"
    by (simp add: tx_names)
  obtain rc2 where d2: "dispatch demo_env (aid_db a1) requester (demo_tx txRequestInference 0 2 ''req'')
      (heightLocked (aid_db a1)) = Inr (market_open, rc2)"
    using market_ask ne by (auto simp: dispatch_def demo_tx_def r1 db1' [symmetric])
  obtain a2 b2 where s2: "aid_step demo_env a1 a2" "aid_bus a2 = Some b2"
    and db2: "aid_db a2 = market_open\<lparr>cs_nonces := bput requester (nextNonce market_open requester + 1) (cs_nonces market_open)\<rparr>"
    using demo_submit_step [OF s1(2) r1(1) ty(2) _ r1(2) d2] by auto
  have "aid_db a2 = market_open\<lparr>cs_nonces := [(provider, 1), (requester, 1)]\<rparr>"
    unfolding db2 by (simp add: market_reads) (simp add: market_open_def demo_addr_eq)
  with s1 s2 db1' show thesis by (rule_tac that)
qed

end
