(* ===== verification/Lifecycle.thy ===== *)
theory Lifecycle
  imports Settings
begin

text \<open>
  The life of one request as a state machine of its own: \<open>request_opened\<close> are the requests the chain may
  create and \<open>req_trans\<close> the changes it may make to one, with the height at which it makes them. The machine
  knows neither transactions nor accounts. The theory shows that every handler, and every block, makes at most one
  such change to each stored request, so that what holds of the machine holds of the chain; the deadlines
  that follow from it are in the theory \<open>LivenessSpec\<close>.
\<close>

section \<open>The machine\<close>

definition request_opened :: "i64 \<Rightarrow> u64 \<Rightarrow> inference_request \<Rightarrow> bool" where
  "request_opened h k r \<longleftrightarrow>
     req_id r = k \<and> req_status r = StatusPending \<and> req_created_at r = h \<and> h <s req_deadline r
     \<and> req_result r = None \<and> req_provider_bond r = None \<and> req_paid r = None
     \<and> req_challenges r = [] \<and> req_vouchers r = []"

text \<open>
  A pending request is answered until its deadline, and refunded after it. A submitted one is disputed within
  its challenge window, and paid after it; with no window it is paid at once. A challenged one
  collects vouchers within the resolution window and is then decided, by a block or by the
  authority. Any open request is voided when its domain is deactivated.
\<close>

inductive req_trans :: "params \<Rightarrow> i64 \<Rightarrow> inference_request \<Rightarrow> inference_request \<Rightarrow> bool" for ps h where
  answered: "req_status r = StatusPending \<Longrightarrow> h <=s req_deadline r \<Longrightarrow> p_challenge_window ps \<noteq> 0 \<Longrightarrow>
    req_trans ps h r (submitted h res (p_provider_bond ps) r)"
| paid_at_once: "req_status r = StatusPending \<Longrightarrow> h <=s req_deadline r \<Longrightarrow> p_challenge_window ps = 0 \<Longrightarrow>
    req_trans ps h r (dismissed h (submitted h res (p_provider_bond ps) r))"
| disputed: "req_status r = StatusSubmitted \<Longrightarrow> h <=s req_submitted_at r + p_challenge_window ps \<Longrightarrow>
    ch_posted_at ch = h \<Longrightarrow> ch_bond ch = p_challenger_bond ps \<Longrightarrow> req_trans ps h r (challenged ch r)"
| supported: "req_status r = StatusChallenged \<Longrightarrow> req_challenges r = ch # chs \<Longrightarrow>
    h <=s ch_posted_at ch + challengeResolutionWindowBlocks \<Longrightarrow> v_posted_at v = h \<Longrightarrow>
    v_voucher v \<notin> set (map v_voucher (req_vouchers r)) \<Longrightarrow> v_bond v = voucherBond ps (req_provider_bond r) \<Longrightarrow>
    req_trans ps h r (vouched v r)"
| upheld: "req_status r = StatusChallenged \<Longrightarrow> req_trans ps h r (dismissed h r)"
| overturned: "req_status r = StatusChallenged \<Longrightarrow> req_trans ps h r (slashed h r)"
| unanswered: "req_status r = StatusPending \<Longrightarrow> req_deadline r <s h \<Longrightarrow> req_trans ps h r (refunded h r)"
| undisputed: "req_status r = StatusSubmitted \<Longrightarrow> req_submitted_at r + p_challenge_window ps <s h \<Longrightarrow>
    req_trans ps h r (dismissed h r)"
| voided: "isOpen r \<Longrightarrow> req_trans ps h r (refunded h r)"

text \<open>A change of the chain follows the machine when every request stored afterwards is new, as it was, or
  one transition on.\<close>

definition follows :: "params \<Rightarrow> i64 \<Rightarrow> chain_state \<Rightarrow> chain_state \<Rightarrow> bool" where
  "follows ps h s s' \<longleftrightarrow>
     (\<forall>k r'. getRequest s' k = Inr r' \<longrightarrow>
        (case getRequest s k of
           Inl _ \<Rightarrow> request_opened h k r'
         | Inr r \<Rightarrow> r' = r \<or> req_trans ps h r r'))"

lemma follows_same: "getRequest s' = getRequest s \<Longrightarrow> follows ps h s s'"
  by (simp add: follows_def split: sum.splits)

lemma follows_upd:
  assumes "getRequest s' = (getRequest s)(k := Inr r')" and "getRequest s k = Inr r" and "req_trans ps h r r'"
  shows "follows ps h s s'"
  using assms by (auto simp: follows_def split: sum.splits)

lemma follows_new:
  assumes "getRequest s' = (getRequest s)(k := Inr r')" and "getRequest s k = Inl e" and "request_opened h k r'"
  shows "follows ps h s s'"
  using assms by (auto simp: follows_def split: sum.splits)

lemma follows_stored:
  assumes "follows ps h s s'" and "getRequest s' k = Inr r'" and r: "getRequest s k = Inr r"
  shows "r' = r \<or> req_trans ps h r r'"
  using assms(1) [unfolded follows_def, rule_format, OF assms(2)] unfolding r by simp

lemma follows_fresh:
  assumes "follows ps h s s'" and "getRequest s' k = Inr r'" and e: "getRequest s k = Inl e"
  shows "request_opened h k r'"
  using assms(1) [unfolded follows_def, rule_format, OF assms(2)] unfolding e by simp

section \<open>The handlers follow it\<close>

named_theorems handler_follows

lemma register_service_follows [handler_follows]:
  assumes "chain_inv E {} s" and "isValidAddress signer" and "applyRegisterService E s signer p h = Inr (s', k, ev)"
  shows "follows ps h s s'"
  using assms(3)
proof (rule applyRegisterService_Inr)
  fix msg qs s1 svc
  assume "move (Wrapped ''locking service registration bond'') E s signer moduleEscrowAddr
           (amount (p_service_registration_bond qs)) = Inr s1"
    and s': "s' = s1\<lparr>cs_meta := bput keyNextSvcID (MetaU64 (svc_id svc + 1)) (cs_meta s1),
                 cs_services := bput (svc_id svc) svc (cs_services s1),
                 cs_svc_by_name := bput (svc_name svc) (svc_id svc) (cs_svc_by_name s1)\<rparr>"
  from gets_same_but_accounts(2) [OF lock_facts(2) [OF inv_accounts [OF assms(1)] assms(2) this(1)]]
  show ?thesis by (simp add: follows_same s')
qed

lemma request_inference_follows [handler_follows]:
  assumes "chain_inv E {} s" and "isValidAddress signer" and "applyRequestInference E s signer p h = Inr (s', k, ev)"
  shows "follows ps h s s'"
  using assms(3)
proof (rule applyRequestInference_Inr)
  fix msg svc qs s1 deadline r
  assume lock: "move id E s signer moduleEscrowAddr (amount (svc_price svc)) = Inr s1"
    and dl: "h <s deadline" and k: "k = getMetaUint64 s1 keyNextReqID"
    and r: "r = \<lparr>req_id = k, req_service_id = mri_service_id msg, req_requester = signer,
         req_input_hash = mri_input_hash msg, req_input_uri = mri_input_uri msg,
         req_input_text = mri_input_text msg, req_escrow = svc_price svc, req_deadline = deadline,
         req_status = StatusPending, req_created_at = h, req_finalized_at = 0,
         req_result = None, req_paid = None, req_submitted_at = 0, req_challenges = [],
         req_provider_bond = None, req_vouchers = []\<rparr>"
    and s': "s' = s1\<lparr>cs_meta := bput keyNextReqID (MetaU64 (req_id r + 1)) (cs_meta s1),
                 cs_requests := bput (req_id r) r (cs_requests s1)\<rparr>"
  note g = gets_same_but_accounts [OF lock_facts(2) [OF inv_accounts [OF assms(1)] assms(2) lock]]
  have "getRequest s k \<noteq> Inr q" for q
    using wf_request [OF inv_wf [OF assms(1)], of k q] by (auto simp: req_ok_def k g)
  then obtain e where "getRequest s k = Inl e"
    by (cases "getRequest s k") auto
  moreover have "getRequest s' = (getRequest s)(k := Inr r)"
    by (simp add: s' g r fun_eq_iff)
  ultimately show ?thesis
    by (rule_tac follows_new [of s' s k r e]) (simp_all add: request_opened_def r dl)
qed

lemma submit_result_follows [handler_follows]:
  assumes "chain_inv E {} s" and "isValidAddress signer" and app: "applySubmitResult E s signer p h = Inr (s', fin, evs)"
    and ps: "paramsLocked s = Inr ps"
  shows "follows ps h s s'"
proof -
  obtain msg r where a: "dec_submit_result E p = Some msg" "getRequest s (msr_request_id msg) = Inr r"
    and dl: "h <=s req_deadline r"
    using app by (elim applySubmitResult_Inr) blast
  note f = submit_result_facts [OF assms(1-3) a ps]
  show ?thesis
  proof (rule follows_upd [OF f(6) stored_id [OF assms(1) a(2)]])
    show "req_trans ps h r (let r1 = submitted h (msr_result msg) (p_provider_bond ps) r in
           if p_challenge_window ps = 0 then dismissed h r1 else r1)"
      using req_trans.answered [OF f(4) dl] req_trans.paid_at_once [OF f(4) dl] by (simp add: Let_def)
  qed
qed

lemma transfer_follows [handler_follows]:
  assumes "chain_inv E D s" and "applyTransfer E s signer p = Inr (s', ev)"
  shows "follows ps h s s'"
  using assms(2)
proof (rule applyTransfer_Inr)
  fix msg
  assume "move id E s signer (mt_to msg) (amount (mt_amount msg)) = Inr s'"
  from gets_same_but_accounts(2) [OF move_facts(3) [OF inv_accounts [OF assms(1)] this]]
  show ?thesis by (rule follows_same)
qed

lemma register_domain_follows [handler_follows]:
  "applyRegisterDomain E s signer p h = Inr (s', k, ev) \<Longrightarrow> follows ps h s s'"
  by (erule applyRegisterDomain_Inr) (auto intro!: follows_same)

lemma challenge_follows [handler_follows]:
  assumes "chain_inv E {} s" and "isValidAddress signer" and app: "applyChallenge E s signer p h = Inr (s', ev)"
    and ps: "paramsLocked s = Inr ps"
  shows "follows ps h s s'"
proof -
  obtain msg r where a: "dec_challenge E p = Some msg" "getRequest s (mc_request_id msg) = Inr r"
    and w: "h <=s req_submitted_at r + p_challenge_window ps"
    using app ps by (elim applyChallenge_Inr) fastforce
  note f = challenge_facts [OF assms(1-3) a ps]
  show ?thesis
    by (rule follows_upd [OF f(4) stored_id [OF assms(1) a(2)] req_trans.disputed [OF f(5) w]]) simp_all
qed

lemma vouch_follows [handler_follows]:
  assumes "chain_inv E {} s" and "isValidAddress signer" and app: "applyVouch E s signer p h = Inr (s', ev)"
    and ps: "paramsLocked s = Inr ps"
  shows "follows ps h s s'"
proof -
  obtain msg r ch chs where a: "dec_vouch E p = Some msg" "getRequest s (mv_request_id msg) = Inr r"
    and c: "req_challenges r = ch # chs" "h <=s ch_posted_at ch + challengeResolutionWindowBlocks"
    using app by (elim applyVouch_Inr) blast
  note f = vouch_facts [OF assms(1-3) a ps]
  obtain side where "getRequest s' = (getRequest s)(req_id r := Inr (vouched
           \<lparr>v_voucher = signer, v_posted_at = h, v_attestation = mv_attestation msg,
            v_bond = voucherBond ps (req_provider_bond r), v_supports_provider = side\<rparr> r))"
    using f(6) by blast
  then show ?thesis
    by (rule follows_upd [OF _ stored_id [OF assms(1) a(2)] req_trans.supported [OF f(4) c]]) (use f(5) in simp_all)
qed

lemma update_service_follows [handler_follows]:
  "applyUpdateService E s signer p h = Inr (s', ev) \<Longrightarrow> follows ps h s s'"
  by (erule applyUpdateService_Inr) (auto simp: putService_Inr intro!: follows_same)

lemma deactivate_service_follows [handler_follows]:
  assumes "chain_inv E D s" and "applyDeactivateService E s signer p h = Inr (s', ev)"
  shows "follows ps h s s'"
  using assms(2)
proof (rule applyDeactivateService_Inr)
  fix msg svc qs s1 c
  assume svc: "getService s (mds_service_id msg) = Inr svc"
    and pay: "settleServiceBond E s qs svc h = Inr (s1, c)" and put: "putService E s1 (retired svc) = Inr s'"
  have id: "getService s (svc_id svc) = Inr svc"
    using svc service_id [OF assms(1) svc] by simp
  from pay have "pays E [(if p_min_service_lifetime qs <=s h - svc_created_at svc then svc_owner svc
        else moduleTreasuryAddr, amount (svc_registration_bond svc))] s = Inr s1"
    by (simp only: settleServiceBond_Inr)
  note f = retire(4) [OF assms(1) id this put]
  then show ?thesis
    by (intro follows_same) (simp add: getRequest_def fun_eq_iff)
qed

lemma deactivate_domain_follows [handler_follows]:
  assumes inv: "chain_inv E {} s" and app: "applyDeactivateDomain E s signer p h = Inr (s', evs)"
  shows "follows ps h s s'"
proof -
  obtain msg where msg: "dec_deactivate_domain E p = Some msg"
    using app by (rule applyDeactivateDomain_Inr)
  note f = deactivate_domain_facts [OF inv app msg]
  have "r' = r \<or> req_trans ps h r r'" if r: "getRequest s k = Inr r" and r': "getRequest s' k = Inr r'" for k r r'
  proof -
    obtain v where "getService s (req_service_id r) = Inr v"
      by (rule wf_request_service [OF inv_wf [OF inv] r])
    from f(5) [OF r this] r' show ?thesis
      by (auto intro: req_trans.voided split: if_splits)
  qed
  then show ?thesis
    using f(8) by (fastforce simp: follows_def split: sum.split)
qed

lemma resolve_follows [handler_follows]:
  assumes inv: "chain_inv E {} s" and app: "applyResolveChallenge E s signer p h = Inr (s', evs)"
  shows "follows ps h s s'"
  using app
proof (rule applyResolveChallenge_Inr)
  fix msg r ev
  assume r: "getRequest s (mrc_request_id msg) = Inr r" and st: "req_status r = StatusChallenged"
    and run: "mrc_decision msg = ''dismiss'' \<and> executeDismiss E h s r = Inr (s', ev)
       \<or> mrc_decision msg = ''slash'' \<and> executeSlash E h s r = Inr (s', ev)"
  note id = stored_id [OF inv r]
  obtain svc where svc: "getService s (req_service_id r) = Inr svc"
    by (rule wf_request_service [OF inv_wf [OF inv] r])
  from run show ?thesis
    using follows_upd [OF dismiss.step(4) [OF inv id st svc] id req_trans.upheld [OF st]]
      follows_upd [OF slash.step(4) [OF inv id st svc] id req_trans.overturned [OF st]] by blast
qed

lemma dispatch_follows:
  assumes "chain_inv E {} s" and "isValidAddress signer" and "dispatch E s signer t h = Inr (s', rc)"
    and "paramsLocked s = Inr ps"
  shows "follows ps h s s'"
  using assms by (simp only: dispatch_def Let_def split: if_split_asm) (auto dest: handler_follows)

section \<open>The chain follows it\<close>

lemma submitTx_follows:
  assumes sha: "sha_ok E" and inv: "chain_inv E {} (nd_db nd)" and sub: "submitTx E t nd = (res, nd')"
    and ps: "paramsLocked (nd_db nd) = Inr ps"
  shows "follows ps (heightLocked (nd_db nd')) (nd_db nd) (nd_db nd')"
proof (rule submitTx_cases [of E t nd])
  fix signer s' rc
  assume a: "checkEnvelope E t = Inr signer" "runTx E signer t (nd_db nd) = Inr (s', rc)"
    "submitTx E t nd = (Inr rc, nd\<lparr>nd_db := s', nd_bus := emitAll (pendingOf rc) (nd_bus nd)\<rparr>)"
  obtain s1 where d: "dispatch E (nd_db nd) signer t (heightLocked (nd_db nd)) = Inr (s1, rc)"
    and inc: "incNonce E s1 signer = Inr s'"
    using a(2) by (auto simp: runTx_def split: if_splits)
  have "heightLocked (nd_db nd') = heightLocked (nd_db nd)"
    using submitTx_settings [OF sha inv sub] by (simp add: same_settings_def)
  with dispatch_follows [OF inv signer_valid [OF sha a(1)] d ps] show ?thesis
    using inc a(3) sub by (auto simp: incNonce_Inr follows_def)
qed (use sub in \<open>auto intro: follows_same\<close>)

lemma sweepRequest_trans: "sweepRequest s ps h r = r \<or> req_trans ps h r (sweepRequest s ps h r)"
  by (cases "req_status r"; cases "req_challenges r")
    (auto simp: sweepRequest_def intro: req_trans.intros)

lemma commitBlock_follows:
  assumes inv: "chain_inv E {} (nd_db nd)" and c: "commitBlock E now nd = (res, nd')"
    and ps: "paramsLocked (nd_db nd) = Inr ps"
  shows "follows ps (heightLocked (nd_db nd')) (nd_db nd) (nd_db nd')"
proof (rule commitBlock_cases [of E nd now])
  fix s' h evs
  assume a: "commitDb E (nd_db nd) = Inr (s', h, evs)"
    "commitBlock E now nd = (Inr (), nd\<lparr>nd_db := s', nd_bus :=
       emit (mk_event h (BlockCommitted \<lparr>ebc_height = h, ebc_time = now\<rparr>)) (emitAll evs (nd_bus nd))\<rparr>)"
  note f = commitDb_facts(2,5) [OF inv a(1) ps]
  have "nd_db nd' = s'" using a(2) c by auto
  have "case getRequest (nd_db nd) k of Inl _ \<Rightarrow> request_opened h k r'
      | Inr r \<Rightarrow> r' = r \<or> req_trans ps h r r'" if "getRequest s' k = Inr r'" for k r'
    using that sweepRequest_trans [of "nd_db nd" ps h] by (cases "getRequest (nd_db nd) k") (auto simp: f(2))
  with \<open>nd_db nd' = s'\<close> show ?thesis
    by (simp add: follows_def f(1))
qed (use c in \<open>auto intro: follows_same\<close>)

lemma node_step_follows:
  assumes sha: "sha_ok E" and inv: "chain_inv E {} (nd_db nd)" and step: "node_step E nd nd'"
    and ps: "paramsLocked (nd_db nd) = Inr ps"
  shows "follows ps (heightLocked (nd_db nd')) (nd_db nd) (nd_db nd')"
  using step
proof cases
  case (tx t res)
  from submitTx_follows [OF sha inv tx(2) ps] show ?thesis .
next
  case (block now res)
  from commitBlock_follows [OF inv block ps] show ?thesis .
next
  case (minted a n s')
  from gets_same_but_accounts(2) [OF mint_keeps(3) [OF inv minted(2,3)]] minted(1) show ?thesis
    by (simp add: follows_same)
qed (auto simp: setParams_def setAuthority_def putMeta_def intro!: follows_same)

end
