(* ===== verification/LivenessSpec.thy ===== *)
theory LivenessSpec
  imports ProcessDemo Lifecycle
begin

text \<open>
  Deadlines. From the machine of the theory \<open>Lifecycle\<close>: how long a request can stay open, counted in the
  blocks the process has made since its first start, whatever transactions, restarts and failures come
  in between; and so that every request is settled.
\<close>

section \<open>One step of the chain\<close>

text \<open>C5: The chain implements the life cycle \<open>req_trans\<close>, request by request. From a node that satisfies the
  invariant, whatever step is taken (a transaction of any kind, a block, or a call of the administration), a
  request stored afterwards is a new one as the machine opens them, or as it was, or exactly one
  transition of the machine on, at the height of the chain after the step.\<close>

theorem lifecycle_refinement:
  assumes "sha_ok E" and "chain_inv E {} (nd_db nd)" and "node_step E nd nd'"
    and "paramsLocked (nd_db nd) = Inr ps" and "getRequest (nd_db nd') k = Inr r'"
  shows "case getRequest (nd_db nd) k of
      Inl _ \<Rightarrow> request_opened (heightLocked (nd_db nd')) k r'
    | Inr r \<Rightarrow> r' = r \<or> req_trans ps (heightLocked (nd_db nd')) r r'"
  using node_step_follows [OF assms(1-4)] assms(5) by (simp add: follows_def)

theorem lifecycle_refinement_witness:
  "\<exists>nd' r'. commitBlock demo_env ''now'' (demo_node demo_pending) = (Inr (), nd')
     \<and> getRequest (nd_db nd') 1 = Inr r'
     \<and> (r' = demo_pending \<or> req_trans defaultParams (heightLocked (nd_db nd')) demo_pending r')"
proof -
  have nd: "chain_inv demo_env {} (nd_db (demo_node demo_pending))" "paramsLocked (nd_db (demo_node demo_pending)) = Inr defaultParams"
    "getRequest (nd_db (demo_node demo_pending)) 1 = Inr demo_pending"
    by (simp_all add: demo_invs)
  obtain nd' where b: "commitBlock demo_env ''now'' (demo_node demo_pending) = (Inr (), nd')"
    using demo_commit [OF demo_invs(1)] by blast
  obtain r' where r': "getRequest (nd_db nd') 1 = Inr r'"
    using node_step_forward [OF demo_sha nd(1) node_step.block [OF b], unfolded forward_def, rule_format, OF nd(3)] by blast
  from lifecycle_refinement [OF demo_sha nd(1) node_step.block [OF b] nd(2) r'] b r' show ?thesis
    using nd(3) by auto
qed

section \<open>Counting blocks\<close>

definition blocks_made :: "aid \<Rightarrow> aid \<Rightarrow> nat" where
  "blocks_made a a' = (if heightLocked (aid_db a') = heightLocked (aid_db a) then 0 else 1)"

text \<open>The histories of the process, as in \<open>aid_reach\<close>, with the number of blocks made.\<close>

inductive aid_run :: "env \<Rightarrow> nat \<Rightarrow> aid \<Rightarrow> bool" for E where
  fresh: "aid_run E 0 aid_fresh"
| step: "aid_run E n a \<Longrightarrow> aid_step E a a' \<Longrightarrow> aid_run E (n + blocks_made a a') a'"

lemma aid_reach_run: "aid_reach E a \<longleftrightarrow> (\<exists>n. aid_run E n a)"
proof
  show "\<exists>n. aid_run E n a" if "aid_reach E a"
    using that by induction (auto intro: aid_run.intros)
  show "aid_reach E a" if run: "\<exists>n. aid_run E n a"
  proof -
    from run obtain n where "aid_run E n a" ..
    then show ?thesis by induction (auto intro: aid_reach.intros)
  qed
qed

lemma sint_height: "n < 2 ^ 62 \<Longrightarrow> sint (of_nat n :: i64) = int n"
  using sint_fits [of "int n"] by simp

lemma sint_after:
  fixes x :: i64
  assumes "0 \<le> sint x" and "sint x < 2 ^ 62" and "0 \<le> c" and "c < 2 ^ 62"
  shows "sint (x + word_of_int c) = sint x + c"
proof -
  have "x + word_of_int c = word_of_int (sint x + c)" by simp
  moreover have "sint (word_of_int (sint x + c) :: i64) = sint x + c"
    using assms by (intro sint_fits) simp_all
  ultimately show ?thesis by (simp only:)
qed

section \<open>Requests on time\<close>

text \<open>
  The bounds, on integers, of a request at height \<open>n\<close>. The windows are those of the default parameters,
  which the process never changes: 45 blocks to challenge and 20 to vouch.
\<close>

definition on_time :: "int \<Rightarrow> inference_request \<Rightarrow> bool" where
  "on_time n r \<longleftrightarrow>
     (case req_status r of
        StatusPending \<Rightarrow> n \<le> sint (req_deadline r)
      | StatusSubmitted \<Rightarrow>
          0 \<le> sint (req_submitted_at r) \<and> sint (req_submitted_at r) \<le> n
          \<and> sint (req_submitted_at r) \<le> sint (req_deadline r) \<and> n \<le> sint (req_submitted_at r) + 45
      | StatusChallenged \<Rightarrow>
          (case req_challenges r of
             [] \<Rightarrow> False
           | ch # _ \<Rightarrow> 0 \<le> sint (ch_posted_at ch) \<and> sint (ch_posted_at ch) \<le> n
               \<and> sint (ch_posted_at ch) \<le> sint (req_deadline r) + 45 \<and> n \<le> sint (ch_posted_at ch) + 20)
      | _ \<Rightarrow> True)"

lemma on_time_bound: "on_time n r \<Longrightarrow> isOpen r \<Longrightarrow> n \<le> sint (req_deadline r) + 65"
  by (cases "req_status r"; cases "req_challenges r") (auto simp: on_time_def isOpen_def)

lemma on_time_terminal: "terminal (req_status r) \<Longrightarrow> on_time n r"
  by (cases "req_status r") (simp_all add: on_time_def)

lemma on_time_opened: "n < 2 ^ 62 \<Longrightarrow> request_opened (of_nat n) k r \<Longrightarrow> on_time (int n) r"
  by (simp add: request_opened_def on_time_def word_sless_alt sint_height)

text \<open>No transition at the same height makes a request late.\<close>

lemma on_time_trans:
  assumes n: "n < 2 ^ 62" and "on_time (int n) r" and shape: "req_shape r"
    and "req_trans ps (of_nat n) r r'"
  shows "on_time (int n) r'"
  using assms(4)
proof cases
  case (answered res)
  then show ?thesis
    by (simp add: on_time_def submitted_def word_sle_eq sint_height [OF n])
next
  case (disputed ch)
  have "req_challenges r = []"
    using shape disputed(2) by (simp add: req_shape_def)
  then show ?thesis
    using disputed assms(2) by (simp add: on_time_def challenged_def sint_height [OF n])
next
  case (supported ch chs v)
  then show ?thesis
    using assms(2) by (simp add: on_time_def vouched_def)
qed (simp_all add: on_time_terminal)

text \<open>The next block leaves no request late: those that would be are settled.\<close>

lemma on_time_swept:
  assumes n: "Suc n < 2 ^ 62" and r: "on_time (int n) r" and shape: "req_shape r"
  shows "on_time (int (Suc n)) (sweepRequest s defaultParams (of_nat (Suc n)) r)"
proof (cases "isOverdue defaultParams (of_nat (Suc n)) r")
  case True
  then show ?thesis
    by (simp add: sweepRequest_overdue on_time_terminal)
next
  case False
  have h: "sint (1 + of_nat n :: i64) = 1 + int n"
    using sint_height [OF n] by simp
  have "on_time (int (Suc n)) r"
  proof (cases "req_status r")
    case StatusPending
    then show ?thesis
      using False by (simp add: isOverdue_def on_time_def word_sless_alt h)
  next
    case StatusSubmitted
    then have "sint (req_submitted_at r + word_of_int 45) = sint (req_submitted_at r) + 45"
      using r n by (intro sint_after) (simp_all add: on_time_def)
    then show ?thesis
      using False StatusSubmitted r by (simp add: isOverdue_def on_time_def word_sless_alt h defaultParams_def)
  next
    case StatusChallenged
    then obtain ch chs where c: "req_challenges r = ch # chs"
      using r by (simp add: on_time_def split: list.split_asm)
    then have "sint (ch_posted_at ch + word_of_int 20) = sint (ch_posted_at ch) + 20"
      using r n StatusChallenged by (intro sint_after) (simp_all add: on_time_def)
    then show ?thesis
      using False StatusChallenged c r
      by (simp add: isOverdue_def on_time_def word_sless_alt h challengeResolutionWindowBlocks_def)
  qed (simp_all add: on_time_terminal)
  then show ?thesis
    using False by (simp add: sweepRequest_overdue)
qed

section \<open>Histories on time\<close>

definition timely :: "nat \<Rightarrow> chain_state \<Rightarrow> bool" where
  "timely n s \<longleftrightarrow> heightLocked s = of_nat n \<and> (\<forall>k r. getRequest s k = Inr r \<longrightarrow> on_time (int n) r)"

lemma timely_gets:
  "timely n s \<Longrightarrow> getRequest s' = getRequest s \<Longrightarrow> heightLocked s' = heightLocked s \<Longrightarrow> timely n s'"
  by (simp add: timely_def)

lemma timely_follows:
  assumes n: "n < 2 ^ 62" and s: "timely n s" and inv: "chain_inv E D s"
    and f: "follows defaultParams (of_nat n) s s'" and h: "heightLocked s' = heightLocked s"
  shows "timely n s'"
proof -
  have "on_time (int n) r'" if r': "getRequest s' k = Inr r'" for k r'
  proof (cases "getRequest s k")
    case (Inl e)
    from on_time_opened [OF n follows_fresh [OF f r' Inl]] show ?thesis .
  next
    case (Inr r)
    have "on_time (int n) r" and "req_shape r"
      using s wf_request [OF inv_wf [OF inv] Inr] Inr by (auto simp: timely_def req_ok_def)
    then show ?thesis
      using follows_stored [OF f r' Inr] on_time_trans [OF n] by blast
  qed
  then show ?thesis
    using s h by (simp add: timely_def)
qed

lemma timely_block:
  assumes n: "Suc n < 2 ^ 62" and s: "timely n s" and inv: "chain_inv E {} s"
    and run: "commitDb E s = Inr (s', h, evs)" and ps: "paramsLocked s = Inr defaultParams"
  shows "timely (Suc n) s'"
proof -
  note f = commitDb_facts(1,2,5) [OF inv run ps]
  have h: "h = of_nat (Suc n)"
    using s f(1) by (simp add: timely_def)
  have "on_time (int (Suc n)) r'" if r': "getRequest s' k = Inr r'" for k r'
  proof (cases "getRequest s k")
    case (Inr r)
    have "on_time (int n) r" and "req_shape r"
      using s wf_request [OF inv_wf [OF inv] Inr] Inr by (auto simp: timely_def req_ok_def)
    from on_time_swept [OF n this, of s] show ?thesis
      using r' f(3) [of k] unfolding Inr h by simp
  qed (use r' f(3) [of k] in simp)
  then show ?thesis
    unfolding timely_def using f(2) h by blast
qed

lemma timely_start:
  assumes inv: "aid_inv E a" and s: "timely n (aid_db a)" and fresh: "aid_db a = empty_db \<Longrightarrow> n = 0"
  shows "timely n (aid_db (aid_started a (aidMain E dev (aid_file a \<noteq> None) gen write (aid_db a))))"
proof (rule aidMain_db [OF inv, of dev gen "write"])
  fix s0
  let ?s = "aid_db (aid_started a (aidMain E dev (aid_file a \<noteq> None) gen write (aid_db a)))"
  assume o: "s0 = aid_db a \<or> aid_db a = empty_db \<and> initState E empty_db = Inr s0" and "same_but_accounts s0 ?s"
  then have "getRequest ?s = getRequest s0" and "heightLocked ?s = heightLocked s0"
    using gets_same_but_accounts(2) same_but_accounts_fields(1) by (auto simp: heightLocked_def getMetaUint64_def)
  moreover have "timely n s0"
    using o
  proof
    assume g: "aid_db a = empty_db \<and> initState E empty_db = Inr s0"
    note i = initState_Inr [OF g [THEN conjunct2]]
    have "cs_requests s0 = []"
      by (subst i(1)) (simp add: empty_db_def)
    then show ?thesis
      using i(3) fresh g by (simp add: timely_def getRequest_def)
  qed (use s in simp)
  ultimately show ?thesis by (rule_tac timely_gets)
qed

text \<open>What one tick does to the process.\<close>

lemma tick_cases:
  assumes "aid_inv E a" and "aid_bus a = Some b" and "tick E now (aid_node a b) = (res, nd)"
  obtains (failed) e where "commitDb E (aid_db a) = Inl e" and "aid_runs a nd = a"
  | (made) s h evs where "res = Inr ()" and "commitDb E (aid_db a) = Inr (s, h, evs)" and "nd_db nd = s"
proof (rule commitBlock_cases [of E "aid_node a b" now])
  fix e assume "commitDb E (nd_db (aid_node a b)) = Inl e"
    and "commitBlock E now (aid_node a b) = (Inl e, aid_node a b)"
  then have "commitDb E (aid_db a) = Inl e" and nd: "nd = aid_node a b"
    using assms(3) by (auto simp: tick_def aid_node_def)
  moreover have "aid_runs a nd = a"
    using assms(2) unfolding nd by (simp add: aid_runs_def aid_node_def)
  ultimately show thesis using failed by blast
next
  fix s h evs
  assume "commitDb E (nd_db (aid_node a b)) = Inr (s, h, evs)"
    and "commitBlock E now (aid_node a b) = (Inr (), (aid_node a b)\<lparr>nd_db := s, nd_bus :=
           emit (mk_event h (BlockCommitted \<lparr>ebc_height = h, ebc_time = now\<rparr>)) (emitAll evs (nd_bus (aid_node a b)))\<rparr>)"
  then show thesis
    using made assms(3) by (auto simp: tick_def aid_node_def)
qed

lemma timely_step:
  assumes sha: "sha_ok E" and inv: "aid_inv E a" and s: "timely n (aid_db a)" and step: "aid_step E a a'"
    and n: "n + blocks_made a a' < 2 ^ 62"
  shows "timely (n + blocks_made a a') (aid_db a')"
proof -
  have same: "timely (n + blocks_made a a') (aid_db a')" if t: "timely n (aid_db a')"
  proof -
    have "blocks_made a a' = 0"
      using s t by (simp add: timely_def blocks_made_def)
    with t show ?thesis by simp
  qed
  from step show ?thesis
  proof cases
    case (started dev gen "write")
    have "n = 0" if e: "aid_db a = empty_db"
    proof -
      have "heightLocked empty_db = (of_nat n :: i64)"
        using s e by (simp add: timely_def)
      moreover have "heightLocked empty_db = 0"
        by (simp add: heightLocked_def getMetaUint64_def empty_db_def)
      ultimately show ?thesis
        using sint_height [of n] n by simp
    qed
    then have "timely n (aid_db a')"
      unfolding started by (rule timely_start [OF inv s])
    then show ?thesis by (rule same)
  next
    case (submitted b t res nd)
    note r = aid_running [OF inv submitted(2)]
    have c: "chain_inv E {} (nd_db (aid_node a b))" and p: "paramsLocked (nd_db (aid_node a b)) = Inr defaultParams"
      using r(2) opened_reads(1) [OF r(1)] by (simp_all add: aid_node_def)
    have h: "heightLocked (nd_db nd) = heightLocked (aid_db a)"
      using submitTx_settings [OF sha c submitted(4)] by (simp add: same_settings_def aid_node_def)
    have f: "follows defaultParams (of_nat n) (aid_db a) (nd_db nd)"
      using submitTx_follows [OF sha c submitted(4) p] s h by (simp add: timely_def aid_node_def)
    have "n < 2 ^ 62" using n by simp
    from timely_follows [OF this s r(2) f h] show ?thesis
      using submitted(1) by (intro same) (simp add: aid_runs_def)
  next
    case (ticked b now res nd)
    note r = aid_running [OF inv ticked(2)]
    from inv ticked(2,3) show ?thesis
    proof (cases rule: tick_cases)
      case failed
      then show ?thesis using s ticked(1) by (intro same) simp
    next
      case (made s' h evs)
      note f = commitDb_facts(1,2) [OF r(2) made(2) opened_reads(1) [OF r(1)]]
      have "blocks_made a a' = 1"
        using f made(3) ticked(1) by (simp add: blocks_made_def aid_runs_def)
      with timely_block [OF _ s r(2) made(2) opened_reads(1) [OF r(1)]] n show ?thesis
        using made(3) ticked(1) by (simp add: aid_runs_def)
    qed
  next
    case stopped
    then show ?thesis using s by (intro same) simp
  qed
qed

lemma aid_run_timely:
  assumes "aid_run E n a" and "sha_ok E" and "n < 2 ^ 62"
  shows "timely n (aid_db a)"
  using assms(1,3)
proof induction
  case fresh
  show ?case
    by (simp add: timely_def aid_fresh_def heightLocked_def getMetaUint64_def getRequest_def empty_db_def)
next
  case (step n a a')
  have "aid_reach E a"
    using step.hyps(1) aid_reach_run by blast
  from timely_step [OF assms(2) aid_reach_inv [OF this assms(2)] _ step.hyps(2) step.prems] step show ?case
    by simp
qed

section \<open>Every request is settled\<close>

text \<open>The block producer from a running process: as many blocks as ticks, and no request is lost.\<close>

lemma producer_run:
  assumes E: "put_accepts E" and sha: "sha_ok E"
  shows "aid_run E n a \<Longrightarrow> aid_bus a = Some b \<Longrightarrow> getRequest (aid_db a) k = Inr r \<Longrightarrow>
    \<exists>a' b' r'. aid_run E (n + length nows) a' \<and> aid_bus a' = Some b'
      \<and> snd (runBlockProducer E nows (aid_node a b)) = aid_node a' b'
      \<and> getRequest (aid_db a') k = Inr r' \<and> req_deadline r' = req_deadline r"
proof (induction nows arbitrary: n a b r)
  case Nil
  then show ?case by fastforce
next
  case (Cons now nows)
  have inv: "aid_inv E a"
    using aid_reach_inv [OF _ sha] aid_reach_run Cons.prems(1) by blast
  note q = aid_running [OF inv Cons.prems(2)]
  obtain res nd where t: "tick E now (aid_node a b) = (res, nd)" by fastforce
  obtain s h evs where made: "commitDb E (aid_db a) = Inr (s, h, evs)" "nd_db nd = s"
    using inv Cons.prems(2) t
  proof (cases rule: tick_cases)
    case (failed e)
    then show ?thesis using commitDb_ok [OF E q(2)] by auto
  qed (rule that)
  note f = commitDb_facts(1,2,5) [OF q(2) made(1) opened_reads(1) [OF q(1)]]
  let ?a = "aid_runs a nd"
  have "blocks_made a ?a = 1"
    using f(1,2) made(2) by (simp add: blocks_made_def aid_runs_def)
  then have run: "aid_run E (Suc n) ?a"
    using aid_run.step [OF Cons.prems(1) aid_step.ticked [OF Cons.prems(2) t]] by simp
  have "getRequest (aid_db ?a) k = Inr (sweepRequest (aid_db a) defaultParams h r)"
    using f(3) [of k] Cons.prems(3) made(2) by (simp add: aid_runs_def)
  moreover have "req_deadline (sweepRequest (aid_db a) defaultParams h r) = req_deadline r"
    by (simp add: sweepRequest_overdue closed_defs)
  moreover have "aid_bus ?a = Some (nd_bus nd)" and "nd = aid_node ?a (nd_bus nd)"
    by (simp_all add: aid_runs_def aid_node_def)
  moreover have "snd (runBlockProducer E (now # nows) (aid_node a b)) = snd (runBlockProducer E nows nd)"
    using t by (simp add: tick_def split: prod.split)
  ultimately show ?case
    using Cons.IH [OF run, of "nd_bus nd"] by fastforce
qed

text \<open>C3: Every request is settled, at the latest 66 blocks after its deadline. Take any history of the
  process (starts, stops, crashes, transactions, blocks) in which it has made \<open>n\<close> blocks, and a stored
  request. While the request is open, \<open>n\<close> is at most 65 above its deadline: the answer
  comes until the deadline, a challenge within 45 blocks of the answer, and the decision 20 blocks after
  the challenge. So once the block producer has run past that height, the request is finalized, slashed or
  refunded. Heights are below \<open>2 ^ 62\<close>, far above what a chain can reach; the deadline may be any 64-bit
  number.\<close>

theorem every_request_settles:
  assumes "sha_ok E" and "put_accepts E" and "aid_run E n a" and "aid_bus a = Some b"
    and "getRequest (aid_db a) k = Inr r" and "n + length nows < 2 ^ 62"
  shows "(if isOpen r then int n \<le> sint (req_deadline r) + 65 else True)
    \<and> (if sint (req_deadline r) + 65 < int (n + length nows)
       then \<exists>r'. getRequest (nd_db (snd (runBlockProducer E nows (aid_node a b)))) k = Inr r'
              \<and> terminal (req_status r')
       else True)"
proof -
  have late: "int m \<le> sint (req_deadline q) + 65"
    if "aid_run E m c" "m < 2 ^ 62" "getRequest (aid_db c) k = Inr q" "isOpen q" for m c q
    using aid_run_timely [OF that(1) assms(1) that(2)] that(3,4) on_time_bound by (auto simp: timely_def)
  obtain a' b' r' where run: "aid_run E (n + length nows) a'"
    and nd: "snd (runBlockProducer E nows (aid_node a b)) = aid_node a' b'"
    and r': "getRequest (aid_db a') k = Inr r'" "req_deadline r' = req_deadline r"
    using producer_run [OF assms(2,1,3-5)] by blast
  have "terminal (req_status r')" if "sint (req_deadline r) + 65 < int (n + length nows)"
    using late [OF run assms(6) r'(1)] that r'(2) by (auto simp: isOpen_iff)
  then show ?thesis
    using late [OF assms(3) _ assms(5)] assms(6) r'(1) unfolding nd by (simp add: aid_node_def)
qed

theorem every_request_settles_witness:
  "\<exists>a b r'. aid_run demo_env 0 a \<and> aid_bus a = Some b \<and> getRequest (aid_db a) 1 = Inr market_request
     \<and> sint (req_deadline market_request) = 1
     \<and> getRequest (nd_db (snd (runBlockProducer demo_env (replicate 67 ''now'') (aid_node a b)))) 1 = Inr r'
     \<and> terminal (req_status r')"
proof (rule market_steps)
  fix a1 a2 b
  assume s1: "aid_step demo_env market_started a1" and s2: "aid_step demo_env a1 a2"
    and db1: "aid_db a1 = market_listed\<lparr>cs_nonces := [(provider, 1)]\<rparr>" and bus: "aid_bus a2 = Some b"
    and db2: "aid_db a2 = market_open\<lparr>cs_nonces := [(provider, 1), (requester, 1)]\<rparr>"
  have h: "heightLocked (aid_db aid_fresh) = 0" "heightLocked (aid_db market_started) = 0"
    "heightLocked (aid_db a1) = 0" "heightLocked (aid_db a2) = 0"
    using market_reads(3,6,7)
    by (simp_all add: db1 db2 market_started_fields(1) heightLocked_def getMetaUint64_def aid_fresh_def empty_db_def)
  have "aid_step demo_env aid_fresh market_started"
    using aid_step.started [of demo_env aid_fresh True market_gen "\<lambda>_. Inr ()"]
    by (simp add: market_started_def aid_fresh_def)
  from aid_run.step [OF aid_run.step [OF aid_run.step [OF aid_run.fresh this] s1] s2]
  have run: "aid_run demo_env 0 a2"
    by (simp add: blocks_made_def h)
  have r: "getRequest (aid_db a2) 1 = Inr market_request" and d: "sint (req_deadline market_request) = 1"
    by (simp_all add: db2 market_open_def getRequest_def market_request_def)
  from every_request_settles [OF demo_sha demo_accepts run bus r, of "replicate 67 ''now''"]
  show ?thesis
    using run bus r d by auto
qed

end
