(* ===== verification/OutcomeSpec.thy ===== *)
theory OutcomeSpec
  imports LivenessSpec SettlementSpec
begin

text \<open>
  How a request ends when nobody touches it again: the block producer alone carries it to its outcome.
  The two cases that make the market work are an answer that nobody disputes, which is paid,
  and a challenge that nobody votes down, which is slashed.
\<close>

section \<open>Blocks until a request is overdue\<close>

lemma sweep_frame:
  assumes "getService s' = getService s" and "getDomain s' = getDomain s"
  shows "sweepRequest s' = sweepRequest s" and "blockPayouts s' = blockPayouts s"
proof -
  have "effectiveMargin s' = effectiveMargin s"
    by (intro ext) (simp only: effectiveMargin_def assms)
  then have p: "providerPrevails s' = providerPrevails s"
    by (intro ext) (simp only: providerPrevails_def)
  show "sweepRequest s' = sweepRequest s" and "blockPayouts s' = blockPayouts s"
    by (intro ext, simp only: sweepRequest_def p) (intro ext, simp only: blockPayouts_def assms p)
qed

text \<open>One tick, on the node.\<close>

lemma tick_block:
  assumes E: "put_accepts E" and sha: "sha_ok E" and inv: "chain_inv E {} (nd_db nd)"
    and ps: "paramsLocked (nd_db nd) = Inr ps"
  obtains nd' where "commitBlock E now nd = (Inr (), nd')" and "chain_inv E {} (nd_db nd')"
    and "paramsLocked (nd_db nd') = Inr ps" and "heightLocked (nd_db nd') = heightLocked (nd_db nd) + 1"
    and "getService (nd_db nd') = getService (nd_db nd)" and "getDomain (nd_db nd') = getDomain (nd_db nd)"
    and "\<And>k r. getRequest (nd_db nd) k = Inr r \<Longrightarrow>
      getRequest (nd_db nd') k = Inr (sweepRequest (nd_db nd) ps (heightLocked (nd_db nd) + 1) r)"
    and "\<And>a k r. a \<noteq> moduleEscrowAddr \<Longrightarrow> getRequest (nd_db nd) k = Inr r \<Longrightarrow>
      bal (nd_db nd) a + received (blockPayouts (nd_db nd) ps (heightLocked (nd_db nd) + 1) r) a \<le> bal (nd_db nd') a"
proof -
  obtain s' h evs where run: "commitDb E (nd_db nd) = Inr (s', h, evs)"
    using commitDb_ok [OF E inv] by blast
  obtain nd' where c: "commitBlock E now nd = (Inr (), nd')" and db: "nd_db nd' = s'"
    using run by (cases rule: commitBlock_cases [of E nd now]) auto
  note f = commitDb_facts [OF inv run ps, folded db]
  have "bal (nd_db nd) a + received (blockPayouts (nd_db nd) ps (heightLocked (nd_db nd) + 1) r) a \<le> bal (nd_db nd') a"
    if "a \<noteq> moduleEscrowAddr" and r: "getRequest (nd_db nd) k = Inr r" for a k r
  proof -
    have "r \<in> set (map snd (cs_requests (nd_db nd)))"
    proof -
      have "map_of (cs_requests (nd_db nd)) k = Some r"
        using r by (simp add: getRequest_def split: option.splits)
      from map_of_SomeD [OF this] show ?thesis by force
    qed
    then have "received (blockPayouts (nd_db nd) ps h r) a
        \<le> (\<Sum>r\<leftarrow>map snd (cs_requests (nd_db nd)). received (blockPayouts (nd_db nd) ps h r) a)"
      using member_le_sum_list [of "received (blockPayouts (nd_db nd) ps h r) a"
          "map (\<lambda>r. received (blockPayouts (nd_db nd) ps h r) a) (map snd (cs_requests (nd_db nd)))"] by fastforce
    then show ?thesis
      using commitDb_bal [OF inv run ps, of a, folded db] that(1) f(1) by simp
  qed
  moreover have "getRequest (nd_db nd') k = Inr (sweepRequest (nd_db nd) ps (heightLocked (nd_db nd) + 1) r)"
    if "getRequest (nd_db nd) k = Inr r" for k r
    using f(5) [of k] that f(1) by simp
  ultimately show thesis
    using f(1) by (rule_tac that [OF c f(3) _ _ f(6,7)]) (simp_all add: f(2,9) ps)
qed

text \<open>Ticks while a request is not overdue, and the one at which it is.\<close>

lemma producer_until:
  assumes E: "put_accepts E" and sha: "sha_ok E"
  shows "chain_inv E {} (nd_db nd) \<Longrightarrow> paramsLocked (nd_db nd) = Inr ps \<Longrightarrow> getRequest (nd_db nd) k = Inr r \<Longrightarrow>
    (\<And>i. i < length nows \<Longrightarrow> \<not> isOverdue ps (heightLocked (nd_db nd) + of_nat (Suc i)) r) \<Longrightarrow>
    h = heightLocked (nd_db nd) + of_nat (Suc (length nows)) \<Longrightarrow>
    nd' = snd (runBlockProducer E (nows @ [now]) nd) \<Longrightarrow>
    getRequest (nd_db nd') k = Inr (sweepRequest (nd_db nd) ps h r)
    \<and> (a \<noteq> moduleEscrowAddr \<longrightarrow> bal (nd_db nd) a + received (blockPayouts (nd_db nd) ps h r) a \<le> bal (nd_db nd') a)"
proof (induction nows arbitrary: nd)
  case Nil
  show ?case
    by (rule tick_block [OF E sha Nil(1,2), of now]) (use Nil in auto)
next
  case (Cons first nows)
  show ?case
  proof (rule tick_block [OF E sha Cons.prems(1,2), of first])
    fix nd1
    assume c: "commitBlock E first nd = (Inr (), nd1)" and inv: "chain_inv E {} (nd_db nd1)"
      and ps: "paramsLocked (nd_db nd1) = Inr ps" and h1: "heightLocked (nd_db nd1) = heightLocked (nd_db nd) + 1"
      and same: "getService (nd_db nd1) = getService (nd_db nd)" "getDomain (nd_db nd1) = getDomain (nd_db nd)"
      and req: "\<And>k r. getRequest (nd_db nd) k = Inr r \<Longrightarrow>
        getRequest (nd_db nd1) k = Inr (sweepRequest (nd_db nd) ps (heightLocked (nd_db nd) + 1) r)"
      and pay: "\<And>a k r. a \<noteq> moduleEscrowAddr \<Longrightarrow> getRequest (nd_db nd) k = Inr r \<Longrightarrow>
        bal (nd_db nd) a + received (blockPayouts (nd_db nd) ps (heightLocked (nd_db nd) + 1) r) a \<le> bal (nd_db nd1) a"
    have calm: "\<not> isOverdue ps (heightLocked (nd_db nd) + 1) r"
      using Cons.prems(4) [of 0] by simp
    then have r1: "getRequest (nd_db nd1) k = Inr r"
      using req [OF Cons.prems(3)] by (simp add: sweepRequest_overdue)
    have "\<not> isOverdue ps (heightLocked (nd_db nd1) + of_nat (Suc i)) r" if "i < length nows" for i
      using Cons.prems(4) [of "Suc i"] that by (simp add: h1 add.assoc)
    moreover have "h = heightLocked (nd_db nd1) + of_nat (Suc (length nows))"
      using Cons.prems(5) by (simp add: h1 add.assoc)
    moreover have "nd' = snd (runBlockProducer E (nows @ [now]) nd1)"
      using Cons.prems(6) c by (simp split: prod.split)
    ultimately have "getRequest (nd_db nd') k = Inr (sweepRequest (nd_db nd1) ps h r)
        \<and> (a \<noteq> moduleEscrowAddr \<longrightarrow> bal (nd_db nd1) a + received (blockPayouts (nd_db nd1) ps h r) a \<le> bal (nd_db nd') a)"
      by (rule Cons.IH [OF inv ps r1])
    then show ?thesis
      using pay [OF _ Cons.prems(3), of a] by (auto simp: sweep_frame [OF same])
  qed
qed

section \<open>An accepted transaction, then only blocks\<close>

lemma submitTx_dispatch:
  assumes "submitTx E t nd = (Inr rc, nd')"
  obtains signer s where "checkEnvelope E t = Inr signer"
    and "dispatch E (nd_db nd) signer t (heightLocked (nd_db nd)) = Inr (s, rc)" and "incNonce E s signer = Inr (nd_db nd')"
proof (rule submitTx_cases [of E t nd])
  fix signer s' rc'
  assume a: "checkEnvelope E t = Inr signer" "runTx E signer t (nd_db nd) = Inr (s', rc')"
    "submitTx E t nd = (Inr rc', nd\<lparr>nd_db := s', nd_bus := emitAll (pendingOf rc') (nd_bus nd)\<rparr>)"
  then show thesis
    using that assms by (auto simp: runTx_def split: if_splits)
qed (use assms in simp)

lemma incNonce_frame:
  assumes "incNonce E s a = Inr s'"
  shows "getRequest s' = getRequest s" and "getService s' = getService s" and "bal s' = bal s"
  using assms by (auto simp: incNonce_Inr)

text \<open>What is known of the node once a transaction has been accepted.\<close>

lemma accepted_tx:
  assumes "sha_ok E" and "chain_inv E {} (nd_db nd)" and "ids_left (nd_db nd)" and run: "submitTx E t nd = (Inr rc, nd1)"
    and "paramsLocked (nd_db nd) = Inr ps"
  obtains signer s where "isValidAddress signer" and "signer \<noteq> moduleEscrowAddr"
    and "dispatch E (nd_db nd) signer t (heightLocked (nd_db nd)) = Inr (s, rc)"
    and "getRequest (nd_db nd1) = getRequest s" and "getService (nd_db nd1) = getService s" and "bal (nd_db nd1) = bal s"
    and "chain_inv E {} (nd_db nd1)" and "paramsLocked (nd_db nd1) = Inr ps"
    and "heightLocked (nd_db nd1) = heightLocked (nd_db nd)"
proof -
  obtain signer s where env: "checkEnvelope E t = Inr signer"
    and d: "dispatch E (nd_db nd) signer t (heightLocked (nd_db nd)) = Inr (s, rc)" and inc: "incNonce E s signer = Inr (nd_db nd1)"
    using run by (rule submitTx_dispatch)
  note a = signer_valid [OF assms(1) env]
  have "chain_inv E {} (nd_db nd1)"
    by (rule node_step_keeps [OF assms(1,2) node_step.tx [OF assms(3) run]])
  moreover have "same_settings (nd_db nd) (nd_db nd1)"
    by (rule submitTx_settings [OF assms(1,2) run])
  then have "paramsLocked (nd_db nd1) = Inr ps" and "heightLocked (nd_db nd1) = heightLocked (nd_db nd)"
    using assms(5) by (simp_all add: same_settings_def keeps_settings_def paramsLocked_def)
  moreover have "signer \<noteq> moduleEscrowAddr"
    using a moduleAddr_invalid(1) by blast
  ultimately show thesis
    using that [OF a _ d incNonce_frame [OF inc]] by blast
qed

text \<open>On the states of the run of \<open>Demo\<close>, a transaction whose handler succeeds is accepted.\<close>

lemma demo_tx_accepted:
  assumes "ty \<in> set known_tx_types" and "p \<noteq> ''''"
    and "dispatch demo_env (demo_state r) (demo_addr who) (demo_tx ty 0 who p) 10 = Inr (s', rc)"
  shows "\<exists>nd1. submitTx demo_env (demo_tx ty 0 who p) (demo_node r) = (Inr rc, nd1)"
proof -
  obtain s'' where "incNonce demo_env s' (demo_addr who) = Inr s''"
    by (simp add: incNonce_Inr string_bytes_def)
  moreover have "tx_nonce (demo_tx ty 0 who p) = 0"
    by (simp add: demo_tx_def)
  ultimately show ?thesis
    unfolding submitTx_def runTx_def by (simp add: demo_envelope [OF assms(1,2)] assms(3) dbUpdate_def)
qed

lemma sint_sum:
  "t + n < 2 ^ 62 \<Longrightarrow> sint (of_nat t + of_nat n :: i64) = int (t + n)"
  using sint_height [of "t + n"] by simp

text \<open>When a window of \<open>W\<close> blocks that opened at height \<open>t\<close> is over.\<close>

lemma window_over:
  assumes "t + W + 1 < 2 ^ 62"
  shows "i \<le> W \<Longrightarrow> \<not> (of_nat t + of_nat W :: i64) <s of_nat t + of_nat i"
    and "(of_nat t + of_nat W :: i64) <s of_nat t + of_nat (Suc W)"
  using assms sint_sum [of t W] sint_sum [of t i] sint_sum [of t "Suc W"] by (auto simp: word_sless_alt)

lemma submit_result_bal:
  assumes inv: "chain_inv E {} s" and app: "applySubmitResult E s signer p h = Inr (s', fin, evs)"
    and ps: "paramsLocked s = Inr ps" and w: "p_challenge_window ps \<noteq> 0" and "a \<noteq> moduleEscrowAddr"
  shows "bal s' a + (if a = signer then unat (amount (p_provider_bond ps)) else 0) = bal s a"
  using app
proof (rule applySubmitResult_Inr)
  fix msg req svc qs s1 evs1
  assume "paramsLocked s = Inr qs"
    and lock: "move (Wrapped ''locking provider bond'') E s signer moduleEscrowAddr (amount (p_provider_bond qs)) = Inr s1"
    and fin: "finishSubmit E s1 signer h qs (submitted h (msr_result msg) (p_provider_bond qs) req) evs1 = Inr (s', fin, evs)"
  then have qs: "qs = ps" using ps by simp
  have "bal s' a = bal s1 a"
    using fin w by (auto simp: finishSubmit_Inr qs putRequest_Inr)
  then show ?thesis
    using move_facts(5) [OF inv_accounts [OF inv] lock, of a] assms(5) by (auto simp: qs)
qed

text \<open>C7: An answer that nobody disputes is paid. When the chain has accepted a result and then makes
  one block more than the challenge window has, the request is finalized with that result, the price is
  recorded as paid, and the provider, who got the bond back as well, has at least the price more than before
  the answer. Other requests that the same blocks settle can only add to it.\<close>

theorem undisputed_answer_is_paid:
  assumes "sha_ok E" and "put_accepts E" and "chain_inv E {} (nd_db nd)" and "ids_left (nd_db nd)"
    and "submitTx E t nd = (Inr rc, nd1)" and "tx_type t = txSubmitResult"
    and "dec_submit_result E (tx_payload t) = Some msg" and "getRequest (nd_db nd) (msr_request_id msg) = Inr r"
    and "paramsLocked (nd_db nd) = Inr ps" and "p_challenge_window ps = of_nat W" and "0 < W"
    and "heightLocked (nd_db nd) = of_nat n" and "n + W + 1 < 2 ^ 62" and "length nows = W"
  shows "let nd2 = snd (runBlockProducer E (nows @ [now]) nd1) in
      (\<exists>r2. getRequest (nd_db nd2) (msr_request_id msg) = Inr r2 \<and> req_status r2 = StatusFinalized
         \<and> req_result r2 = Some (msr_result msg) \<and> req_paid r2 = Some (req_escrow r))
      \<and> bal (nd_db nd) (msr_provider msg) + unat (amount (req_escrow r)) \<le> bal (nd_db nd2) (msr_provider msg)"
proof -
  let ?s = "nd_db nd" and ?nd2 = "snd (runBlockProducer E (nows @ [now]) nd1)"
  let ?r1 = "submitted (heightLocked ?s) (msr_result msg) (p_provider_bond ps) r"
  obtain signer s where a: "isValidAddress signer" "signer \<noteq> moduleEscrowAddr"
    and d: "dispatch E ?s signer t (heightLocked ?s) = Inr (s, rc)"
    and fr: "getRequest (nd_db nd1) = getRequest s" "getService (nd_db nd1) = getService s" "bal (nd_db nd1) = bal s"
    and inv1: "chain_inv E {} (nd_db nd1)" and ps1: "paramsLocked (nd_db nd1) = Inr ps"
    and h1: "heightLocked (nd_db nd1) = heightLocked ?s"
    using accepted_tx [OF assms(1,3,4,5,9)] by blast
  note h1 = h1 [unfolded assms(12)]
  obtain fin evs where app: "applySubmitResult E ?s signer (tx_payload t) (heightLocked ?s) = Inr (s, fin, evs)"
    using d assms(6) by (auto simp: dispatch_def tx_names)
  obtain v where pr: "msr_provider msg = signer" and v: "getService ?s (req_service_id r) = Inr v" and own: "svc_owner v = signer"
    using app assms(7,8) by (elim applySubmitResult_Inr) auto
  have w: "p_challenge_window ps \<noteq> 0"
    using assms(10,11,13) sint_height [of W] by auto
  note f = submit_result_facts [OF assms(3) a(1) app assms(7,8,9)]
  have id: "req_id r = msr_request_id msg" and shape: "req_shape r"
    using wf_request [OF inv_wf [OF assms(3)] assms(8)] by (simp_all add: req_ok_def)
  have r1: "getRequest (nd_db nd1) (msr_request_id msg) = Inr ?r1"
    using f(6) w by (simp add: fr id Let_def)
  have sv1: "getService (nd_db nd1) = getService ?s"
    using close_frame_gets(1) [OF f(3)] fr(2) by simp
  have over: "isOverdue ps (of_nat n + of_nat i) ?r1 \<longleftrightarrow> (of_nat n + of_nat W :: i64) <s of_nat n + of_nat i" for i
    by (simp add: isOverdue_def assms(10,12))
  note wo = window_over [OF assms(13)]
  have "getRequest (nd_db ?nd2) (msr_request_id msg) = Inr (sweepRequest (nd_db nd1) ps (of_nat n + of_nat (Suc W)) ?r1)
      \<and> (signer \<noteq> moduleEscrowAddr \<longrightarrow> bal (nd_db nd1) signer
          + received (blockPayouts (nd_db nd1) ps (of_nat n + of_nat (Suc W)) ?r1) signer \<le> bal (nd_db ?nd2) signer)"
    by (rule producer_until [OF assms(2,1) inv1 ps1 r1, of nows _ _ _ signer])
      (use wo(1) in \<open>simp_all only: h1 over assms(14) Suc_le_eq not_False_eq_True\<close>)
  moreover have "sweepRequest (nd_db nd1) ps (of_nat n + of_nat (Suc W)) ?r1 = dismissed (of_nat n + of_nat (Suc W)) ?r1"
    using wo(2) over [of "Suc W"] by (simp only: sweepRequest_overdue if_True submitted_simps) simp
  moreover have "received (blockPayouts (nd_db nd1) ps (of_nat n + of_nat (Suc W)) ?r1) signer
      = unat (amount (req_escrow r)) + unat (amount (p_provider_bond ps))"
    using wo(2) over [of "Suc W"] v own submitted_shape(2) [OF shape f(4)]
    by (simp only: blockPayouts_def sv1 submitted_simps sum.case if_True not_True_eq_False if_False)
      (simp add: finalizePayouts_def received_def)
  ultimately show ?thesis
    using submit_result_bal [OF assms(3) app assms(9) w a(2)] pr fr(3) a(2)
    by (simp add: Let_def dismissed_def)
qed

theorem undisputed_answer_is_paid_witness:
  "\<exists>rc nd1 r2. submitTx demo_env (demo_tx txSubmitResult 0 1 ''res'') (demo_node demo_pending) = (Inr rc, nd1)
     \<and> getRequest (nd_db (snd (runBlockProducer demo_env (replicate 45 ''now'' @ [''now'']) nd1))) 1 = Inr r2
     \<and> req_status r2 = StatusFinalized \<and> req_result r2 = Some demo_res
     \<and> 1010 \<le> bal (nd_db (snd (runBlockProducer demo_env (replicate 45 ''now'' @ [''now'']) nd1))) provider"
proof -
  let ?t = "demo_tx txSubmitResult 0 1 ''res''" and ?msg = "\<lparr>msr_provider = provider, msr_request_id = 1, msr_result = demo_res\<rparr>"
  have f: "tx_type ?t = txSubmitResult" "tx_payload ?t = ''res''"
    by (simp_all add: demo_tx_def)
  obtain rc nd1 where s: "submitTx demo_env ?t (demo_node demo_pending) = (Inr rc, nd1)"
    using demo_submit_run demo_tx_accepted [of txSubmitResult "''res''" demo_pending 1] f
    by (fastforce simp: dispatch_def tx_names known_tx_types_def)
  have "dec_submit_result demo_env (tx_payload ?t) = Some ?msg"
    by (simp add: f demo_env_def demo_res_def)
  note p = undisputed_answer_is_paid [OF demo_sha demo_accepts _ _ s f(1) this, of demo_pending defaultParams 45 10 "replicate 45 ''now''" "''now''"]
  have "p_challenge_window defaultParams = of_nat 45"
    by (simp add: defaultParams_def)
  moreover have "unat (amount (req_escrow demo_pending)) = 10"
    by (simp add: demo_pending_def aios_def)
  ultimately show ?thesis
    using p s by (simp add: demo_invs demo_ids_left demo_bal Let_def) auto
qed

section \<open>A challenge that nobody votes down\<close>

lemma no_votes_no_defence: "req_vouchers r = [] \<Longrightarrow> \<not> providerPrevails s ps r"
  by (simp add: providerPrevails_def)

lemma challenge_bal:
  assumes inv: "chain_inv E {} s" and a: "isValidAddress signer" and app: "applyChallenge E s signer p h = Inr (s', ev)"
    and ps: "paramsLocked s = Inr ps" and "a \<noteq> moduleEscrowAddr"
  shows "bal s' a + (if a = signer then unat (amount (p_challenger_bond ps)) else 0) = bal s a"
  using app
proof (rule applyChallenge_Inr)
  fix req qs s1 ch
  assume "paramsLocked s = Inr qs"
    and lock: "move (Wrapped ''locking challenger bond'') E s signer moduleEscrowAddr (amount (p_challenger_bond qs)) = Inr s1"
    and "putRequest E s1 (challenged ch req) = Inr s'"
  then have "qs = ps" and "bal s' a = bal s1 a"
    using ps by (simp_all add: putRequest_Inr)
  with move_facts(5) [OF inv_accounts [OF inv] lock, of a] show ?thesis
    using assms(5) by auto
qed

text \<open>C8: A challenge that nobody votes down takes the provider's bond. When the chain has accepted a
  challenge and then makes 21 blocks, one more than the resolution window has, and nobody vouches for the
  answer, the request is slashed. The challenger, whose own bond came back, then has at least
  the bond of the provider more than before the challenge, and the requester at least the escrow.\<close>

theorem undefended_challenge_slashes:
  assumes "sha_ok E" and "put_accepts E" and "chain_inv E {} (nd_db nd)" and "ids_left (nd_db nd)"
    and "submitTx E t nd = (Inr rc, nd1)" and "tx_type t = txChallenge"
    and "dec_challenge E (tx_payload t) = Some msg" and "getRequest (nd_db nd) (mc_request_id msg) = Inr r"
    and "paramsLocked (nd_db nd) = Inr ps" and "heightLocked (nd_db nd) = of_nat n" and "n + 21 < 2 ^ 62"
    and "length nows = 20" and "a \<noteq> moduleEscrowAddr"
  shows "let nd2 = snd (runBlockProducer E (nows @ [now]) nd1) in
      (\<exists>r2. getRequest (nd_db nd2) (mc_request_id msg) = Inr r2 \<and> req_status r2 = StatusSlashed \<and> req_paid r2 = None)
      \<and> bal (nd_db nd) a + (if a = mc_challenger msg then unat (opt_amount (req_provider_bond r)) else 0)
          + (if a = req_requester r then unat (amount (req_escrow r)) else 0) \<le> bal (nd_db nd2) a"
proof -
  let ?s = "nd_db nd" and ?nd2 = "snd (runBlockProducer E (nows @ [now]) nd1)"
  obtain signer s where a: "isValidAddress signer" "signer \<noteq> moduleEscrowAddr"
    and d: "dispatch E ?s signer t (heightLocked ?s) = Inr (s, rc)"
    and fr: "getRequest (nd_db nd1) = getRequest s" "getService (nd_db nd1) = getService s" "bal (nd_db nd1) = bal s"
    and inv1: "chain_inv E {} (nd_db nd1)" and ps1: "paramsLocked (nd_db nd1) = Inr ps"
    and h1: "heightLocked (nd_db nd1) = heightLocked ?s"
    using accepted_tx [OF assms(1,3,4,5,9)] by blast
  note h1 = h1 [unfolded assms(10)]
  let ?ch = "\<lparr>ch_challenger = signer, ch_posted_at = heightLocked ?s, ch_attestation = mc_attestation msg,
              ch_bond = p_challenger_bond ps\<rparr>"
  let ?r1 = "challenged ?ch r"
  obtain ev where app: "applyChallenge E ?s signer (tx_payload t) (heightLocked ?s) = Inr (s, ev)"
    using d assms(6) by (auto simp: dispatch_def tx_names)
  obtain v where ch: "mc_challenger msg = signer" and v: "getService ?s (req_service_id r) = Inr v"
    using app assms(7,8) by (elim applyChallenge_Inr) auto
  note f = challenge_facts [OF assms(3) a(1) app assms(7,8,9)]
  have id: "req_id r = mc_request_id msg" and shape: "req_shape r"
    using wf_request [OF inv_wf [OF assms(3)] assms(8)] by (simp_all add: req_ok_def)
  have none: "req_challenges r = []" "req_vouchers r = []" "req_paid r = None"
    using shape f(5) by (simp_all add: req_shape_def)
  have r1: "getRequest (nd_db nd1) (mc_request_id msg) = Inr ?r1"
    using f(4) by (simp add: fr id)
  have sv1: "getService (nd_db nd1) = getService ?s"
    using close_frame_gets(1) [OF f(3)] fr(2) by simp
  have over: "isOverdue ps (of_nat n + of_nat i) ?r1 \<longleftrightarrow> (of_nat n + of_nat 20 :: i64) <s of_nat n + of_nat i" for i
    by (simp add: isOverdue_def assms(10) challenged_def none challengeResolutionWindowBlocks_def)
  have wo: "i \<le> 20 \<Longrightarrow> \<not> (of_nat n + of_nat 20 :: i64) <s of_nat n + of_nat i"
    "(of_nat n + of_nat 20 :: i64) <s of_nat n + of_nat (Suc 20)" for i
    using window_over [of n 20] assms(11) by simp_all
  have out: "getRequest (nd_db ?nd2) (mc_request_id msg) = Inr (sweepRequest (nd_db nd1) ps (of_nat n + of_nat (Suc 20)) ?r1)
      \<and> (a \<noteq> moduleEscrowAddr \<longrightarrow> bal (nd_db nd1) a
          + received (blockPayouts (nd_db nd1) ps (of_nat n + of_nat (Suc 20)) ?r1) a \<le> bal (nd_db ?nd2) a)"
    by (rule producer_until [OF assms(2,1) inv1 ps1 r1, of nows _ _ _ a])
      (use wo(1) in \<open>simp_all only: h1 over assms(12) Suc_le_eq not_False_eq_True\<close>)
  have lost: "\<not> providerPrevails (nd_db nd1) ps ?r1"
    by (rule no_votes_no_defence) (simp add: challenged_def none)
  have swept: "sweepRequest (nd_db nd1) ps (of_nat n + of_nat (Suc 20)) ?r1 = slashed (of_nat n + of_nat (Suc 20)) ?r1"
    using wo(2) over [of "Suc 20"] lost by (simp only: sweepRequest_overdue if_True) (simp add: challenged_def)
  have paid: "blockPayouts (nd_db nd1) ps (of_nat n + of_nat (Suc 20)) ?r1
      = [(req_requester r, amount (req_escrow r)), (signer, opt_amount (req_provider_bond r)),
         (signer, amount (p_challenger_bond ps))]"
    using wo(2) over [of "Suc 20"] lost v
    by (simp only: blockPayouts_def sv1 sum.case if_True not_True_eq_False if_False)
      (simp add: challenged_def slashPayouts_def none)
  show ?thesis
    using out [unfolded swept paid] challenge_bal [OF assms(3) a(1) app assms(9,13)] ch fr(3) assms(13)
    by (auto simp: Let_def slashed_def challenged_def none received_def)
qed

theorem undefended_challenge_slashes_witness:
  "\<exists>rc nd1 r2. submitTx demo_env (demo_tx txChallenge 0 3 ''chl'') (demo_node demo_submitted) = (Inr rc, nd1)
     \<and> getRequest (nd_db (snd (runBlockProducer demo_env (replicate 20 ''now'' @ [''now'']) nd1))) 1 = Inr r2
     \<and> req_status r2 = StatusSlashed
     \<and> 1050 \<le> bal (nd_db (snd (runBlockProducer demo_env (replicate 20 ''now'' @ [''now'']) nd1))) challenger"
proof -
  let ?t = "demo_tx txChallenge 0 3 ''chl''"
    and ?msg = "\<lparr>mc_challenger = challenger, mc_request_id = 1, mc_attestation = demo_att ''bad''\<rparr>"
  have f: "tx_type ?t = txChallenge" "tx_payload ?t = ''chl''"
    by (simp_all add: demo_tx_def)
  obtain rc nd1 where s: "submitTx demo_env ?t (demo_node demo_submitted) = (Inr rc, nd1)"
    using demo_challenge_run demo_tx_accepted [of txChallenge "''chl''" demo_submitted 3] f
    by (fastforce simp: dispatch_def tx_names known_tx_types_def)
  have "dec_challenge demo_env (tx_payload ?t) = Some ?msg"
    by (simp add: f demo_env_def)
  note p = undefended_challenge_slashes [OF demo_sha demo_accepts _ _ s f(1) this, of demo_submitted defaultParams 10
      "replicate 20 ''now''" challenger "''now''"]
  moreover have "unat (opt_amount (req_provider_bond demo_submitted)) = 50" "req_requester demo_submitted = requester"
    by (simp_all add: demo_reqs)
  ultimately show ?thesis
    using s by (simp add: demo_invs demo_ids_left demo_bal Let_def demo_addr_eq) auto
qed

end
