(* ===== verification/RequestSpec.thy ===== *)
theory RequestSpec
  imports OutcomeSpec WorkerLaws
begin

text \<open>
  What holds of every request that the chain process ever stores. \<open>aid_reach_requests\<close> is the principle:
  what the machine of the theory \<open>Lifecycle\<close> establishes and keeps holds of every request after any history of
  starts, stops, transactions and blocks, because the process changes its requests only as the machine
  does.
\<close>

section \<open>Histories of the process\<close>

lemma started_requests:
  assumes inv: "aid_inv E a"
    and "getRequest (aid_db (aid_started a (aidMain E dev (aid_file a \<noteq> None) gen write (aid_db a)))) k = Inr r"
  shows "getRequest (aid_db a) k = Inr r"
proof (rule aidMain_db [OF inv, of dev gen "write"])
  fix s0
  let ?s = "aid_db (aid_started a (aidMain E dev (aid_file a \<noteq> None) gen write (aid_db a)))"
  assume o: "s0 = aid_db a \<or> aid_db a = empty_db \<and> initState E empty_db = Inr s0" and "same_but_accounts s0 ?s"
  then have "getRequest s0 k = Inr r"
    using gets_same_but_accounts(2) assms(2) by metis
  with o show ?thesis
  proof (elim disjE conjE)
    assume g: "initState E empty_db = Inr s0" and "getRequest s0 k = Inr r"
    have "cs_requests s0 = []"
      by (subst initState_Inr(1) [OF g]) (simp add: empty_db_def)
    with \<open>getRequest s0 k = Inr r\<close> show ?thesis
      by (simp add: getRequest_def)
  qed simp
qed

lemma step_requests:
  assumes sha: "sha_ok E" and inv: "aid_inv E a" and step: "aid_step E a a'" and r': "getRequest (aid_db a') k = Inr r'"
  shows "(\<exists>h. request_opened h k r') \<or> (\<exists>r. getRequest (aid_db a) k = Inr r \<and> (r' = r \<or> (\<exists>h. req_trans defaultParams h r r')))"
proof -
  have node: ?thesis
    if b: "aid_bus a = Some b" and n: "node_step E (aid_node a b) nd" and a': "a' = aid_runs a nd" for b nd
  proof -
    note run = aid_running [OF inv b]
    have f: "follows defaultParams (heightLocked (nd_db nd)) (aid_db a) (nd_db nd)"
      using node_step_follows [OF sha _ n, of defaultParams] run opened_reads(1) [OF run(1)] by (simp add: aid_node_def)
    have "getRequest (nd_db nd) k = Inr r'"
      using r' a' by (simp add: aid_runs_def)
    from follows_stored [OF f this] follows_fresh [OF f this] show ?thesis
      by (cases "getRequest (aid_db a) k") auto
  qed
  from step show ?thesis
  proof cases
    case started
    then show ?thesis using started_requests [OF inv] r' by blast
  next
    case (submitted b t res nd)
    have "ids_left (nd_db (aid_node a b))" using submitted(3) by (simp add: aid_node_def)
    from node [OF submitted(2) node_step.tx [OF this submitted(4)] submitted(1)] show ?thesis .
  next
    case (ticked b now res nd)
    from node [OF ticked(2) node_step.block [OF ticked(3) [unfolded tick_def]] ticked(1)] show ?thesis .
  next
    case stopped
    then show ?thesis using r' by simp
  qed
qed

lemma aid_reach_requests [consumes 3, case_names opened trans]:
  assumes "aid_reach E a" and "sha_ok E" and "getRequest (aid_db a) k = Inr r"
    and opened: "\<And>h k r. request_opened h k r \<Longrightarrow> P r"
    and trans: "\<And>h r r'. P r \<Longrightarrow> req_trans defaultParams h r r' \<Longrightarrow> P r'"
  shows "P r"
  using assms(1,3)
proof (induction arbitrary: r)
  case fresh
  then show ?case by (simp add: aid_fresh_def getRequest_def empty_db_def)
next
  case (step a a')
  from step_requests [OF assms(2) aid_reach_inv [OF step(1) assms(2)] step(2,4)] show ?case
    using opened trans step.IH by blast
qed

section \<open>The stakes of a request\<close>

definition stakes_ok :: "inference_request \<Rightarrow> bool" where
  "stakes_ok r \<longleftrightarrow>
     (case req_status r of
        StatusPending \<Rightarrow> req_provider_bond r = None
      | StatusRefunded \<Rightarrow> req_provider_bond r \<in> {None, Some (aios 50)}
      | _ \<Rightarrow> req_provider_bond r = Some (aios 50))
     \<and> list_all (\<lambda>ch. ch_bond ch = aios 50) (req_challenges r)
     \<and> list_all (\<lambda>v. v_bond v = aios 25) (req_vouchers r)"

text \<open>With the default parameters the 64-bit product of the scaled bond does not wrap.\<close>

lemma default_voucher_bond: "voucherBond defaultParams (Some (aios 50)) = aios 25"
  by (simp add: voucherBond_def defaultParams_def aios_def isPositive_iff word_sless_alt)

lemma default_bonds: "p_provider_bond defaultParams = aios 50" "p_challenger_bond defaultParams = aios 50"
  by (simp_all add: defaultParams_def)

lemma stakes_opened: "request_opened h k r \<Longrightarrow> stakes_ok r"
  by (simp add: request_opened_def stakes_ok_def)

lemma submitted_default:
  "req_provider_bond (submitted h res (aios 50) r) = Some (aios 50)"
  "req_challenges (submitted h res (aios 50) r) = req_challenges r" "req_vouchers (submitted h res (aios 50) r) = req_vouchers r"
  by (simp_all add: submitted_def isPositive_iff aios_def)

lemma stakes_trans: "stakes_ok r \<Longrightarrow> req_trans defaultParams h r r' \<Longrightarrow> stakes_ok r'"
  by (erule req_trans.cases)
    (auto simp: submitted_default default_bonds default_voucher_bond stakes_ok_def challenged_def vouched_def dismissed_def
      slashed_def refunded_def isOpen_def split: request_status.splits)

lemma voucher_locked_same: "list_all (\<lambda>v. v_bond v = aios 25) vs \<Longrightarrow> voucher_locked vs = 25 * length vs"
  unfolding voucher_locked_def by (induction vs) (simp_all add: aios_def)

lemma process_request:
  assumes "aid_reach E a" and "sha_ok E" and "getRequest (aid_db a) k = Inr r"
  shows "chain_inv E {} (aid_db a)" and "req_ok {} (aid_db a) k r" and "stakes_ok r"
proof -
  have "aid_inv E a"
    by (rule aid_reach_inv [OF assms(1,2)])
  moreover have "a \<noteq> aid_fresh"
    using assms(3) by (auto simp: aid_fresh_def getRequest_def empty_db_def)
  ultimately show inv: "chain_inv E {} (aid_db a)"
    by (simp add: aid_inv_def)
  from wf_request [OF inv_wf [OF inv] assms(3)] show "req_ok {} (aid_db a) k r" .
  show "stakes_ok r"
    using assms(1,2,3) by (rule aid_reach_requests) (erule stakes_opened, erule stakes_trans)
qed

text \<open>C36: No bond is ever other than it should be, and no computation of one wraps around. After any
  history of the process: a pending request has no provider bond and an answered one a bond of 50; every
  challenge on it holds 50, and every voucher 25, which is the scaled bond that the code computes from the
  provider's in 64 bits. So an open request holds its escrow and nothing else while pending, 50 more once
  answered, and 100 and 25 for each voucher more once challenged, and a closed one holds nothing.\<close>

theorem stakes_are_exact:
  assumes "aid_reach E a" and "sha_ok E" and "getRequest (aid_db a) k = Inr r"
  shows "(case req_status r of
        StatusPending \<Rightarrow> req_provider_bond r = None
      | StatusRefunded \<Rightarrow> req_provider_bond r \<in> {None, Some (aios 50)}
      | _ \<Rightarrow> req_provider_bond r = Some (aios 50))
    \<and> list_all (\<lambda>ch. ch_bond ch = aios 50) (req_challenges r)
    \<and> list_all (\<lambda>v. v_bond v = aios 25) (req_vouchers r) \<and> voucherBond defaultParams (req_provider_bond r) = aios 25
    \<and> req_locked r = (case req_status r of
        StatusPending \<Rightarrow> unat (amount (req_escrow r))
      | StatusSubmitted \<Rightarrow> unat (amount (req_escrow r)) + 50
      | StatusChallenged \<Rightarrow> unat (amount (req_escrow r)) + 100 + 25 * length (req_vouchers r)
      | _ \<Rightarrow> 0)"
proof -
  note r = process_request [OF assms]
  have shape: "req_shape r"
    using r(2) by (simp add: req_ok_def)
  have "req_provider_bond r \<in> {None, Some (aios 50)}"
    using r(3) by (cases "req_status r") (simp_all add: stakes_ok_def)
  then have "voucherBond defaultParams (req_provider_bond r) = aios 25"
    using default_voucher_bond by (auto simp: voucherBond_def defaultParams_def)
  moreover have "req_locked r = (case req_status r of
        StatusPending \<Rightarrow> unat (amount (req_escrow r))
      | StatusSubmitted \<Rightarrow> unat (amount (req_escrow r)) + 50
      | StatusChallenged \<Rightarrow> unat (amount (req_escrow r)) + 100 + 25 * length (req_vouchers r)
      | _ \<Rightarrow> 0)"
    using r(3) shape voucher_locked_same [of "req_vouchers r"]
    by (cases "req_status r"; cases "req_challenges r")
      (auto simp: req_locked_def req_stakes_def stakes_ok_def req_shape_def challenge_locked_def opt_amount_def aios_def)
  ultimately show ?thesis
    using r(3) by (simp add: stakes_ok_def)
qed

text \<open>C32: The requests of the process are well-formed. After any history of starts, stops, transactions
  and blocks, every stored request carries the id it is stored under and belongs to a stored service, whose
  verification domain, if the request is open and the service is bound to one, is stored and active;
  no address vouches twice on a request; a challenged one has a result and exactly one challenge; nobody has
  a stake in a pending one but the requester; and a request is marked paid exactly when it is finalized,
  for its whole escrow.\<close>

theorem requests_wellformed:
  assumes "aid_reach E a" and "sha_ok E" and "getRequest (aid_db a) k = Inr r"
  shows "req_id r = k \<and> distinct (map v_voucher (req_vouchers r))
    \<and> (\<exists>v. getService (aid_db a) (req_service_id r) = Inr v
         \<and> (if isOpen r \<and> svc_domain_id v \<noteq> 0
            then \<exists>d. getDomain (aid_db a) (svc_domain_id v) = Inr d \<and> dom_active d else True))
    \<and> (case req_status r of
         StatusPending \<Rightarrow> req_result r = None \<and> req_provider_bond r = None \<and> req_challenges r = [] \<and> req_vouchers r = []
       | StatusSubmitted \<Rightarrow> req_result r \<noteq> None \<and> req_challenges r = [] \<and> req_vouchers r = []
       | StatusChallenged \<Rightarrow> req_result r \<noteq> None \<and> length (req_challenges r) = 1
       | StatusFinalized \<Rightarrow> req_result r \<noteq> None
       | StatusSlashed \<Rightarrow> req_result r \<noteq> None
       | StatusRefunded \<Rightarrow> True)
    \<and> req_paid r = (if req_status r = StatusFinalized then Some (req_escrow r) else None)"
proof -
  note r = process_request(2) [OF assms]
  have "\<exists>v. getService (aid_db a) (req_service_id r) = Inr v
         \<and> (if isOpen r \<and> svc_domain_id v \<noteq> 0
            then \<exists>d. getDomain (aid_db a) (svc_domain_id v) = Inr d \<and> dom_active d else True)"
    using r by (auto simp: req_ok_def domain_live_def isOpen_iff)
  then show ?thesis
    using r by (cases "req_status r") (simp_all add: req_ok_def req_shape_def)
qed

section \<open>A disputed request\<close>

text \<open>
  The life of the theory \<open>ProcessDemo\<close> goes on: the provider answers, the challenger disputes the answer and
  a witness vouches for it.
\<close>

lemma demo_messages:
  "dec_submit_result demo_env ''res'' = Some \<lparr>msr_provider = provider, msr_request_id = 1, msr_result = demo_res\<rparr>"
  "dec_challenge demo_env ''chl'' = Some \<lparr>mc_challenger = challenger, mc_request_id = 1, mc_attestation = demo_att ''bad''\<rparr>"
  "dec_vouch demo_env ''vch'' = Some \<lparr>mv_voucher = witnessA, mv_request_id = 1, mv_attestation = demo_att ''good''\<rparr>"
  by (simp_all add: demo_env_def demo_res_def)

lemma default_window: "p_challenge_window defaultParams = 45"
  by (simp add: defaultParams_def)

lemma demo_svc_open: "svc_domain_id demo_svc = 0" "svc_owner demo_svc = provider"
  by (simp_all add: demo_svc_def)

lemma demo_answers:
  assumes "chain_inv demo_env {} s" and "getRequest s 1 = Inr r" and "req_status r = StatusPending" and "req_service_id r = 1"
    and "req_input_hash r = ''in''" and "h <=s req_deadline r" and "getService s 1 = Inr demo_svc"
    and "paramsLocked s = Inr defaultParams" and "50 \<le> bal s provider"
  shows "\<exists>s' evs. applySubmitResult demo_env s provider ''res'' h = Inr (s', False, evs)"
  by (rule submit_result_ok [where ps = defaultParams and svc = demo_svc, OF demo_accepts assms(1) demo_addr_valid demo_messages(1) _ _ assms(3)])
    (use assms in \<open>simp_all add: demo_svc_open matchDomain_def demo_res_def demo_att_def default_bonds default_window aios_def\<close>)

lemma demo_disputes:
  assumes "chain_inv demo_env {} s" and "getRequest s 1 = Inr r" and "req_status r = StatusSubmitted" and "req_service_id r = 1"
    and "req_input_hash r = ''in''" and "req_result r = Some demo_res" and "h <=s req_submitted_at r + 45"
    and "getService s 1 = Inr demo_svc" and "paramsLocked s = Inr defaultParams" and "50 \<le> bal s challenger"
  shows "\<exists>s' ev. applyChallenge demo_env s challenger ''chl'' h = Inr (s', ev)"
  by (rule challenge_ok [where ps = defaultParams and svc = demo_svc and res = demo_res, OF demo_accepts assms(1) demo_addr_valid demo_messages(2) _ _ assms(3)])
    (use assms in \<open>simp_all add: demo_svc_open matchDomain_def demo_res_def demo_att_def default_bonds default_window aios_def\<close>)

lemma demo_vouches:
  assumes "chain_inv demo_env {} s" and "getRequest s 1 = Inr r" and "req_status r = StatusChallenged" and "req_service_id r = 1"
    and "req_input_hash r = ''in''" and "req_result r = Some demo_res" and "req_challenges r = [ch]"
    and "att_output_hash (ch_attestation ch) = ''bad''" and "req_vouchers r = []" and "req_provider_bond r = Some (aios 50)"
    and "h <=s ch_posted_at ch + 20" and "getService s 1 = Inr demo_svc" and "paramsLocked s = Inr defaultParams"
    and "25 \<le> bal s witnessA"
  shows "\<exists>s' ev. applyVouch demo_env s witnessA ''vch'' h = Inr (s', ev)"
proof -
  obtain s1 where "move (Wrapped ''locking voucher bond'') demo_env s witnessA moduleEscrowAddr (amount (aios 25)) = Inr s1"
    using lock_ok [OF demo_accepts inv_accounts [OF assms(1)], of witnessA "amount (aios 25)"] assms(14) by (auto simp: aios_def)
  moreover have "put_err demo_env BktRequests (uint64Key (req_id r)) = None"
    by (rule put_accepts_None [OF demo_accepts]) (simp_all add: length_uint64Key)
  ultimately show ?thesis
    using assms(2-13) demo_messages(3)
    by (simp add: applyVouch_def lockBond_move Let_def matchDomain_def check_def decode_def appendSlice_def default_voucher_bond
        voucherSide_def demo_svc_open demo_res_def demo_att_def putRequest_def bucket_put_def signed.not_less
        challengeResolutionWindowBlocks_def)
qed

text \<open>A running process in which service 1 is the one of the run and request 1 is \<open>r\<close>, before its first block.\<close>

definition market_at :: "aid \<Rightarrow> inference_request \<Rightarrow> bool" where
  "market_at a r \<longleftrightarrow>
     aid_reach demo_env a \<and> aid_bus a \<noteq> None \<and> ids_left (aid_db a) \<and> heightLocked (aid_db a) = 0
     \<and> getService (aid_db a) 1 = Inr demo_svc \<and> getRequest (aid_db a) 1 = Inr r
     \<and> req_service_id r = 1 \<and> req_input_hash r = ''in'' \<and> req_escrow r = aios 10"

lemma market_at_inv:
  assumes "market_at a r"
  shows "chain_inv demo_env {} (aid_db a)" and "paramsLocked (aid_db a) = Inr defaultParams" and "req_id r = 1"
proof -
  obtain b where "aid_reach demo_env a" "aid_bus a = Some b" and r: "getRequest (aid_db a) 1 = Inr r"
    using assms by (auto simp: market_at_def)
  note run = aid_running [OF aid_reach_inv [OF this(1) demo_sha] this(2)]
  show "chain_inv demo_env {} (aid_db a)" and "paramsLocked (aid_db a) = Inr defaultParams"
    using run opened_reads(1) by blast+
  show "req_id r = 1"
    using wf_request [OF inv_wf [OF run(2)] r] by (simp add: req_ok_def)
qed

lemma market_step:
  assumes m: "market_at a r" and "ty \<in> set known_tx_types" and "p \<noteq> ''''"
    and "\<forall>t. tx_type t = ty \<and> tx_payload t = p \<longrightarrow> (\<exists>rc. dispatch demo_env (aid_db a) (demo_addr who) t 0 = Inr (s, rc))"
    and f: "close_frame (aid_db a) s" and r': "getRequest s 1 = Inr r'"
    and same: "req_service_id r' = 1" "req_input_hash r' = ''in''" "req_escrow r' = aios 10"
  obtains a' where "market_at a' r'" and "bal (aid_db a') = bal s"
proof -
  obtain b where b: "aid_bus a = Some b"
    using m by (auto simp: market_at_def)
  have tx: "tx_type (demo_tx ty n who p) = ty" "tx_payload (demo_tx ty n who p) = p" for n
    by (simp_all add: demo_tx_def)
  obtain rc where d: "dispatch demo_env (aid_db a) (demo_addr who) (demo_tx ty (nextNonce (aid_db a) (demo_addr who)) who p)
      (heightLocked (aid_db a)) = Inr (s, rc)"
    using assms(4) tx m unfolding market_at_def by metis
  have "ids_left (aid_db a)"
    using m by (simp add: market_at_def)
  then obtain a' b' n where step: "aid_step demo_env a a'" and "aid_bus a' = Some b'" and db: "aid_db a' = s\<lparr>cs_nonces := n\<rparr>"
    using demo_submit_step [OF b _ assms(2,3) refl d] by blast
  moreover have "aid_reach demo_env a'"
    using aid_reach.step [OF _ step] m by (simp add: market_at_def)
  ultimately have "market_at a' r'" and "bal (aid_db a') = bal s"
    using m r' same close_frame_gets [OF f] by (simp_all add: market_at_def ids_left_def heightLocked_def)
  then show thesis by (rule that)
qed

text \<open>The three transactions.\<close>

definition market_answer :: inference_request where
  "market_answer = submitted 0 demo_res (aios 50) market_request"

definition market_challenge :: challenge where
  "market_challenge = \<lparr>ch_challenger = challenger, ch_posted_at = 0, ch_attestation = demo_att ''bad'', ch_bond = aios 50\<rparr>"

definition market_dispute :: inference_request where
  "market_dispute = challenged market_challenge market_answer"

lemma market_answered:
  obtains a where "market_at a market_answer" and "bal (aid_db a) challenger = 1000000000" and "bal (aid_db a) witnessA = 1000000000"
proof (rule market_steps)
  fix a1 a2 b2
  assume s1: "aid_step demo_env market_started a1" and s2: "aid_step demo_env a1 a2" and b2: "aid_bus a2 = Some b2"
    and db2: "aid_db a2 = market_open\<lparr>cs_nonces := [(provider, 1), (requester, 1)]\<rparr>"
  have "aid_reach demo_env a2"
    by (rule aid_reach.step [OF aid_reach.step [OF market_started_reach s1] s2])
  then have m2: "market_at a2 market_request"
    using b2 by (simp add: market_at_def)
      (simp add: db2 market_open_def market_listed_def market_funded_def demo_genesis_def empty_db_def getRequest_def
        getService_def ids_left_def heightLocked_def getMetaUint64_def meta_keys market_request_def demo_pending_def)
  have bal2: "bal (aid_db a2) provider = 999999900" "bal (aid_db a2) challenger = 1000000000" "bal (aid_db a2) witnessA = 1000000000"
    by (simp_all add: db2 market_open_def bal_def loadAccount_def demo_acc_def demo_addr_eq)
  have known: "txSubmitResult \<in> set known_tx_types"
    by (simp add: known_tx_types_def)
  note i2 = market_at_inv [OF m2]
  have r2: "req_status market_request = StatusPending" "req_deadline market_request = 1" "req_vouchers market_request = []"
    "req_challenges market_request = []" "getRequest (aid_db a2) 1 = Inr market_request"
    using m2 by (simp_all add: market_request_def demo_pending_def market_at_def)
  obtain s3 evs where app3: "applySubmitResult demo_env (aid_db a2) provider ''res'' 0 = Inr (s3, False, evs)"
    using demo_answers [OF i2(1) r2(5,1), of 0] i2(2) m2 bal2 r2(2) by (auto simp: market_at_def word_sle_eq)
  have g2: "getRequest (aid_db a2) (msr_request_id \<lparr>msr_provider = provider, msr_request_id = 1, msr_result = demo_res\<rparr>) = Inr market_request"
    using r2(5) by simp
  note f3 = submit_result_facts [OF i2(1) demo_addr_valid app3 demo_messages(1) g2 i2(2)]
  have r3: "getRequest s3 1 = Inr market_answer"
    using f3(6) i2(3) by (simp add: default_window default_bonds market_answer_def)
  have d: "\<forall>t. tx_type t = txSubmitResult \<and> tx_payload t = ''res'' \<longrightarrow> (\<exists>rc. dispatch demo_env (aid_db a2) provider t 0 = Inr (s3, rc))"
    using app3 by (simp add: dispatch_def tx_names)
  have same: "req_service_id market_answer = 1" "req_input_hash market_answer = ''in''" "req_escrow market_answer = aios 10"
    using m2 by (simp_all add: market_at_def market_answer_def submitted_def)
  obtain a3 where m3: "market_at a3 market_answer" and "bal (aid_db a3) = bal s3"
    using market_step [OF m2 known _ d f3(3) r3 same] by blast
  then have bal3: "bal (aid_db a3) challenger = 1000000000" "bal (aid_db a3) witnessA = 1000000000"
    using submit_result_bal [OF i2(1) app3 i2(2), of challenger] submit_result_bal [OF i2(1) app3 i2(2), of witnessA] bal2
    by (simp_all add: default_window demo_addr_eq)
  with m3 show thesis by (rule_tac that)
qed

lemma market_challenged:
  obtains a where "market_at a market_dispute" and "bal (aid_db a) witnessA = 1000000000"
proof (rule market_answered)
  fix a3
  assume m3: "market_at a3 market_answer" and bal3: "bal (aid_db a3) challenger = 1000000000" "bal (aid_db a3) witnessA = 1000000000"
  have known: "txChallenge \<in> set known_tx_types"
    by (simp add: known_tx_types_def)
  note i3 = market_at_inv [OF m3]
  have q3: "getRequest (aid_db a3) 1 = Inr market_answer" "getService (aid_db a3) 1 = Inr demo_svc" "req_service_id market_answer = 1" "req_input_hash market_answer = ''in''"
    using m3 by (simp_all add: market_at_def)
  obtain s4 ev4 where app4: "applyChallenge demo_env (aid_db a3) challenger ''chl'' 0 = Inr (s4, ev4)"
    using demo_disputes [OF i3(1) q3(1) _ q3(3,4) _ _ q3(2) i3(2), of 0] bal3 by (auto simp: word_sle_eq market_answer_def)
  have g3: "getRequest (aid_db a3) (mc_request_id \<lparr>mc_challenger = challenger, mc_request_id = 1, mc_attestation = demo_att ''bad''\<rparr>) = Inr market_answer"
    using q3(1) by simp
  note f4 = challenge_facts [OF i3(1) demo_addr_valid app4 demo_messages(2) g3 i3(2)]
  have r4: "getRequest s4 1 = Inr market_dispute"
    using f4(4) i3(3) by (simp add: default_bonds market_dispute_def market_challenge_def)
  have d: "\<forall>t. tx_type t = txChallenge \<and> tx_payload t = ''chl'' \<longrightarrow> (\<exists>rc. dispatch demo_env (aid_db a3) challenger t 0 = Inr (s4, rc))"
    using app4 by (simp add: dispatch_def tx_names)
  have same: "req_service_id market_dispute = 1" "req_input_hash market_dispute = ''in''" "req_escrow market_dispute = aios 10"
    using m3 by (simp_all add: market_at_def market_dispute_def challenged_def)
  obtain a4 where m4: "market_at a4 market_dispute" and "bal (aid_db a4) = bal s4"
    using market_step [OF m3 known _ d f4(3) r4 same] by blast
  then have bal4: "bal (aid_db a4) witnessA = 1000000000"
    using challenge_bal [OF i3(1) demo_addr_valid app4 i3(2), of witnessA] bal3 by (simp add: demo_addr_eq)
  with m4 show thesis by (rule_tac that)
qed

lemma market_disputed:
  obtains a r where "market_at a r" and "req_status r = StatusChallenged" and "length (req_vouchers r) = 1"
proof (rule market_challenged)
  fix a4
  assume m4: "market_at a4 market_dispute" and bal4: "bal (aid_db a4) witnessA = 1000000000"
  have known: "txVouch \<in> set known_tx_types"
    by (simp add: known_tx_types_def)
  note i4 = market_at_inv [OF m4]
  have q4: "getRequest (aid_db a4) 1 = Inr market_dispute" "getService (aid_db a4) 1 = Inr demo_svc" "req_service_id market_dispute = 1" "req_input_hash market_dispute = ''in''"
    using m4 by (simp_all add: market_at_def)
  have h4: "req_status market_dispute = StatusChallenged" "req_result market_dispute = Some demo_res" "req_challenges market_dispute = [market_challenge]" "req_vouchers market_dispute = []"
    "req_provider_bond market_dispute = Some (aios 50)"
    by (simp_all add: market_dispute_def market_answer_def challenged_def submitted_default market_request_def demo_pending_def)
  obtain s5 ev5 where app5: "applyVouch demo_env (aid_db a4) witnessA ''vch'' 0 = Inr (s5, ev5)"
    using demo_vouches [OF i4(1) q4(1) h4(1) q4(3,4) h4(2,3) _ h4(4,5) _ q4(2) i4(2), of 0] bal4
    by (auto simp: demo_att_def word_sle_eq market_challenge_def)
  have g4: "getRequest (aid_db a4) (mv_request_id \<lparr>mv_voucher = witnessA, mv_request_id = 1, mv_attestation = demo_att ''good''\<rparr>) = Inr market_dispute"
    using q4(1) by simp
  note f5 = vouch_facts [OF i4(1) demo_addr_valid app5 demo_messages(3) g4 i4(2)]
  obtain v where r5: "getRequest s5 1 = Inr (vouched v market_dispute)"
    using f5(6) i4(3) by auto
  let ?r5 = "vouched v market_dispute"
  have d: "\<forall>t. tx_type t = txVouch \<and> tx_payload t = ''vch'' \<longrightarrow> (\<exists>rc. dispatch demo_env (aid_db a4) witnessA t 0 = Inr (s5, rc))"
    using app5 by (simp add: dispatch_def tx_names)
  have same: "req_service_id ?r5 = 1" "req_input_hash ?r5 = ''in''" "req_escrow ?r5 = aios 10"
    using m4 by (simp_all add: market_at_def vouched_def)
  obtain a5 where m5: "market_at a5 ?r5"
    using market_step [OF m4 known _ d f5(3) r5 same] by blast
  show thesis
    using that [OF m5] h4(1,4) by (simp add: vouched_def)
qed

theorem stakes_are_exact_witness:
  "\<exists>a r. aid_reach demo_env a \<and> getRequest (aid_db a) 1 = Inr r \<and> req_status r = StatusChallenged
     \<and> list_all (\<lambda>v. v_bond v = aios 25) (req_vouchers r) \<and> req_locked r = 135"
proof (rule market_disputed)
  fix a r
  assume m: "market_at a r" and r: "req_status r = StatusChallenged" "length (req_vouchers r) = 1"
  then have a: "aid_reach demo_env a" "getRequest (aid_db a) 1 = Inr r" "unat (amount (req_escrow r)) = 10"
    by (simp_all add: market_at_def aios_def)
  from stakes_are_exact [OF a(1) demo_sha a(2)] a r show ?thesis
    by (intro exI [of _ a] exI [of _ r]) simp
qed

theorem requests_wellformed_witness:
  "\<exists>a r v. aid_reach demo_env a \<and> getRequest (aid_db a) 1 = Inr r \<and> req_status r = StatusChallenged
     \<and> length (req_vouchers r) = 1 \<and> length (req_challenges r) = 1 \<and> req_paid r = None
     \<and> getService (aid_db a) (req_service_id r) = Inr v"
proof (rule market_disputed)
  fix a r
  assume m: "market_at a r" and r: "req_status r = StatusChallenged" "length (req_vouchers r) = 1"
  then have a: "aid_reach demo_env a" "getRequest (aid_db a) 1 = Inr r"
    by (simp_all add: market_at_def)
  from requests_wellformed [OF a(1) demo_sha a(2)] a r show ?thesis
    by auto
qed

end
