(* ===== verification/Config.thy ===== *)
theory Config
  imports Startup Daemon
begin

text \<open>
  The settings of the four processes: what each \<open>main\<close> reads from its command line and its environment, and
  the process with these settings put in. The parameters are the command line as package \<open>flag\<close> parses it, the
  environment \<open>getenv\<close> (an unset variable reads as the empty string), the disk by path, and the
  network by base URL. The log level and the listen address are left out: they reach only the logger and the
  HTTP server.
\<close>

section \<open>Flags\<close>

record cmd_line =
  cl_string :: "string \<Rightarrow> string option"
  cl_bool :: "string \<Rightarrow> bool option"

text \<open>A flag whose default comes from the environment.\<close>

definition flagString :: "cmd_line \<Rightarrow> (string \<Rightarrow> string) \<Rightarrow> string \<Rightarrow> string \<Rightarrow> string \<Rightarrow> string" where
  "flagString cl getenv name key dflt =
     (case cl_string cl name of Some v \<Rightarrow> v | None \<Rightarrow> envOr getenv key dflt)"

definition flagBool :: "cmd_line \<Rightarrow> (string \<Rightarrow> string) \<Rightarrow> string \<Rightarrow> string \<Rightarrow> bool \<Rightarrow> bool" where
  "flagBool cl getenv name key dflt =
     (case cl_bool cl name of Some v \<Rightarrow> v | None \<Rightarrow> envBool getenv key dflt)"

definition no_args :: cmd_line where
  "no_args = \<lparr>cl_string = (\<lambda>_. None), cl_bool = (\<lambda>_. None)\<rparr>"

lemma flag_no_args [simp]:
  "flagString no_args getenv name key dflt = envOr getenv key dflt"
  "flagBool no_args getenv name key b = envBool getenv key b"
  by (simp_all add: flagString_def flagBool_def no_args_def)

section \<open>The chain\<close>

text \<open>
  \<open>main\<close> of the chain: the data directory, which is created, then the start of the process on the files in
  it. \<open>homeOf\<close> is \<open>defaultHome\<close>, \<open>mkdir\<close> the outcome of creating the directory and \<open>present\<close> whether
  it holds a key file.
\<close>

definition aidHome :: "cmd_line \<Rightarrow> (string \<Rightarrow> string) \<Rightarrow> string \<Rightarrow> string" where
  "aidHome cl getenv homeOf = flagString cl getenv ''home'' ''AID_HOME'' homeOf"

definition aidProcess ::
  "cmd_line \<Rightarrow> (string \<Rightarrow> string) \<Rightarrow> string \<Rightarrow> (string \<Rightarrow> chain_error + unit) \<Rightarrow> env \<Rightarrow> (string \<Rightarrow> bool)
    \<Rightarrow> (string \<Rightarrow> chain_error + bytes \<times> bytes) \<Rightarrow> (keyring_entry list \<Rightarrow> chain_error + unit)
    \<Rightarrow> chain_state \<Rightarrow> keyring_entry list option \<times> (chain_error + bus) \<times> chain_state" where
  "aidProcess cl getenv homeOf mkdir E present gen write s =
     (let home = aidHome cl getenv homeOf in
      case mkdir home of
        Inl e \<Rightarrow> (None, Inl (Wrapped ''create home dir'' e), s)
      | Inr _ \<Rightarrow> aidMain E (flagBool cl getenv ''dev-keyring'' ''DEV_KEYRING'' True) (present home) gen write s)"

section \<open>The inference node\<close>

text \<open>What the processes read from their disks, by path.\<close>

record 'w disk =
  dk_stat :: "string \<Rightarrow> 'w \<Rightarrow> bool"
  dk_keyring :: "string \<Rightarrow> 'w \<Rightarrow> key_file"
  dk_file :: "string \<Rightarrow> 'w \<Rightarrow> chain_error + bytes"

definition nodeFlags :: "cmd_line \<Rightarrow> (string \<Rightarrow> string) \<Rightarrow> 'w disk \<Rightarrow> 'w node_flags" where
  "nodeFlags cl getenv D =
     (let keyring = flagString cl getenv ''keyring'' ''KEYRING_PATH'' ''/keys/keys.json'' in
      \<lparr>nf_key_name = flagString cl getenv ''key-name'' ''PROVIDER_KEY'' ''bob'',
       nf_llama_url = flagString cl getenv ''llama'' ''LLAMA_SERVER_URL'' ''http://llama-server:8080'',
       nf_model_sha = flagString cl getenv ''model-sha'' ''MODEL_SHA256'' '''',
       nf_config = \<lparr>nc_model_sha256 = '''',
         nc_runtime_id = flagString cl getenv ''runtime-id'' ''RUNTIME_ID'' ''llama.cpp-server'',
         nc_precision = flagString cl getenv ''precision'' ''PRECISION'' ''q4_k_m'',
         nc_hardware_tag = flagString cl getenv ''hw-tag'' ''HARDWARE_TAG'' ''cpu-x86_64-tinyllama-q4'',
         nc_tokenizer_id = flagString cl getenv ''tokenizer-id'' ''TOKENIZER_ID'' ''''\<rparr>,
       nf_stat_keyring = dk_stat D keyring, nf_keyring = dk_keyring D keyring,
       nf_model_file = dk_file D (flagString cl getenv ''model-path'' ''MODEL_PATH''
         ''/models/tinyllama-1.1b-chat-v1.0.Q4_K_M.gguf'')\<rparr>)"

text \<open>The environment of the worker: the two servers at their URLs, and the flag of the fabricated output.\<close>

definition nodeEnv ::
  "cmd_line \<Rightarrow> (string \<Rightarrow> string) \<Rightarrow> (string \<Rightarrow> 'w net) \<Rightarrow> 'w worker_env \<Rightarrow> 'w worker_env" where
  "nodeEnv cl getenv N V = V\<lparr>
     we_malicious := getenv ''MALICIOUS_PROVIDER'' = ''1'',
     we_chain := N (trimRight (flagString cl getenv ''chain'' ''CHAIN_URL'' ''http://chain:26657'') ''/''),
     we_llama := N (trimRight (flagString cl getenv ''llama'' ''LLAMA_SERVER_URL'' ''http://llama-server:8080'') ''/'')\<rparr>"

definition inferencedMain ::
  "cmd_line \<Rightarrow> (string \<Rightarrow> string) \<Rightarrow> 'w disk \<Rightarrow> (string \<Rightarrow> 'w net) \<Rightarrow> 'w clock \<Rightarrow> 'w worker_env
    \<Rightarrow> (string \<Rightarrow> i64 option) \<Rightarrow> 'w \<Rightarrow> ((chain_error + 'w worker_env) \<times> i64 \<times> 'w) option" where
  "inferencedMain cl getenv D N C V dec w =
     (let V = nodeEnv cl getenv N V in
      map_option (\<lambda>(r, hw). (case r of Inl e \<Rightarrow> Inl e | Inr (key, cfg) \<Rightarrow> Inr (V\<lparr>we_key := key, we_config := cfg\<rparr>), hw))
        (nodeMain C V dec (nodeFlags cl getenv D) w))"

section \<open>The harness\<close>

record harness_flags =
  hf_chain_url :: string
  hf_llama_url :: string
  hf_keyring_path :: string
  hf_key_name :: string

definition harnessFlags :: "cmd_line \<Rightarrow> (string \<Rightarrow> string) \<Rightarrow> harness_flags" where
  "harnessFlags cl getenv =
     \<lparr>hf_chain_url = flagString cl getenv ''chain'' ''CHAIN_URL'' ''http://chain:26657'',
      hf_llama_url = flagString cl getenv ''llama'' ''LLAMA_SERVER_URL'' ''http://llama-server:8080'',
      hf_keyring_path = flagString cl getenv ''keyring'' ''KEYRING_PATH'' ''/keys/keys.json'',
      hf_key_name = flagString cl getenv ''key-name'' ''HARNESS_KEY'' ''harness''\<rparr>"

text \<open>The start of the harness probes the URL as it is configured; everything after it uses the trimmed one.\<close>

definition harnessdMain ::
  "cmd_line \<Rightarrow> (string \<Rightarrow> string) \<Rightarrow> 'w disk \<Rightarrow> (string \<Rightarrow> 'w net) \<Rightarrow> 'w clock \<Rightarrow> ('w \<Rightarrow> chain_error option)
    \<Rightarrow> 'w harness_env \<Rightarrow> 'w \<Rightarrow> ((chain_error + 'w harness_env) \<times> 'w) option" where
  "harnessdMain cl getenv D N C ctxErr H w =
     (let F = harnessFlags cl getenv; base = trimRight (hf_chain_url F) ''/'';
          H = H\<lparr>he_chain := N base, he_llama := N (trimRight (hf_llama_url F) ''/'')\<rparr> in
      map_option (\<lambda>(r, w). (case r of Inl e \<Rightarrow> Inl e | Inr sg \<Rightarrow> Inr (H\<lparr>he_signer := sg\<rparr>), w))
        (harnessMain C ctxErr (N base) (drop (length base) (hf_chain_url F))
           (dk_keyring D (hf_keyring_path F)) (hf_key_name F) w))"

section \<open>The indexer\<close>

text \<open>\<open>openDb\<close> is \<open>store.Open\<close>: the file it opens may have no tables yet.\<close>

definition indexerdMain ::
  "cmd_line \<Rightarrow> (string \<Rightarrow> string) \<Rightarrow> (string \<Rightarrow> store_error + store option) \<Rightarrow> driver \<Rightarrow> idx_codec
    \<Rightarrow> (string \<Rightarrow> 'w net) \<Rightarrow> ('w \<Rightarrow> bool) \<Rightarrow> (nat \<Rightarrow> bool) \<Rightarrow> (i64 \<Rightarrow> 'w \<Rightarrow> bool \<times> 'w) \<Rightarrow> 'w
    \<Rightarrow> (store_error + store \<times> 'w) option" where
  "indexerdMain cl getenv openDb Q K N ctxDone cancelled wait w =
     (case openDb (flagString cl getenv ''db'' ''DB_PATH'' ''/data/indexer.db'') of
        Inl e \<Rightarrow> Some (Inl e)
      | Inr db \<Rightarrow>
          indexerMain Q K (N (trimRight (flagString cl getenv ''chain'' ''CHAIN_URL'' ''http://chain:26657'') ''/''))
            ctxDone cancelled wait db w)"

end
