(* ===== verification/ConfigSpec.thy ===== *)
theory ConfigSpec
  imports Config ClientDemo
begin

text \<open>
  The stack of \<open>docker-compose.yml\<close>: whether the verification domain that the chain seeds for the demo is
  the one the inference node is configured for. If it is not, the chain rejects every answer of the node.
\<close>

section \<open>The two configurations\<close>

text \<open>The environment of the inference node in \<open>docker-compose.yml\<close>, with the value of its last variable.\<close>

definition composeNode :: "string \<Rightarrow> string \<Rightarrow> string" where
  "composeNode malicious key =
     (case map_of
        [(''CHAIN_URL'', ''http://chain:26657''), (''LLAMA_SERVER_URL'', ''http://llama-server:8080''),
         (''HARDWARE_TAG'', ''cpu-x86_64-tinyllama-q4''), (''LOG_LEVEL'', ''info''), (''PROVIDER_KEY'', ''bob''),
         (''KEYRING_PATH'', ''/keys/keys.json''),
         (''MODEL_PATH'', ''/models/tinyllama-1.1b-chat-v1.0.Q4_K_M.gguf''), (''PRECISION'', ''q4_k_m''),
         (''RUNTIME_ID'', ''llama.cpp-server''), (''TOKENIZER_ID'', ''llama.cpp-bpe-v1''),
         (''MALICIOUS_PROVIDER'', malicious)] key of
        None \<Rightarrow> ''''
      | Some v \<Rightarrow> v)"

text \<open>A domain with the tags of a registration.\<close>

definition registered_as :: "tx_msg \<Rightarrow> verification_domain \<Rightarrow> bool" where
  "registered_as m d \<longleftrightarrow>
     (case m of
        MRegisterDomain msg \<Rightarrow>
          dom_model_sha256 d = mrd_model_sha256 msg \<and> dom_runtime_id d = mrd_runtime_id msg
          \<and> dom_hardware_tag d = mrd_hardware_tag msg \<and> dom_precision d = mrd_precision msg
          \<and> dom_tokenizer_id d = mrd_tokenizer_id msg
      | _ \<Rightarrow> False)"

text \<open>Some state of some chain accepts an answer of the node for a service of the domain.\<close>

definition answers_accepted :: "env \<Rightarrow> 'w worker_env \<Rightarrow> verification_domain \<Rightarrow> bool" where
  "answers_accepted E V d \<longleftrightarrow>
     (\<exists>s v r p res h sig signer payload height.
        getRequest s (eir_request_id p) = Inr r \<and> getService s (req_service_id r) = Inr v
        \<and> svc_domain_id v \<noteq> 0 \<and> getDomain s (svc_domain_id v) = Inr d
        \<and> dec_submit_result E payload = Some (answer_msg V v p res h sig)
        \<and> (\<exists>x. applySubmitResult E s signer payload height = Inr x))"

lemma misconfigured_rejected:
  assumes "\<not> configured_for (we_config V) d"
  shows "\<not> answers_accepted E V d"
proof
  assume "answers_accepted E V d"
  then obtain s v r p res h sig signer payload height x where
    r: "getRequest s (eir_request_id p) = Inr r" and v: "getService s (req_service_id r) = Inr v"
    and nz: "svc_domain_id v \<noteq> 0" and d: "getDomain s (svc_domain_id v) = Inr d"
    and msg: "dec_submit_result E payload = Some (answer_msg V v p res h sig)"
    and app: "applySubmitResult E s signer payload height = Inr x"
    by (auto simp: answers_accepted_def)
  let ?att = "(workerAttestation V (service_view v) p res h)\<lparr>att_signature_hex := sig\<rparr>"
  have "matchDomain s ''loading svc domain'' ''domain expects'' ''domain tokenizer'' (svc_domain_id v) ?att = Inr ()"
    using app msg r v by (cases x) (auto elim!: applySubmitResult_Inr simp: answer_msg_def)
  then have "configured_for (we_config V) d"
    using nz d by (auto simp: matchDomain_def configured_for_def tuple_matches_def workerAttestation_def split: if_splits)
  with assms show False ..
qed

lemma hexEncode_not_placeholder: "hexEncode bs \<noteq> ''unverified-tinyllama-q4''"
proof
  assume "hexEncode bs = ''unverified-tinyllama-q4''"
  then have "hexDecode ''unverified-tinyllama-q4'' = Some bs"
    using hexDecode_Encode [of bs] by simp
  moreover have "hexDecode ''unverified-tinyllama-q4'' = None"
    by code_simp
  ultimately show False by simp
qed

text \<open>What \<open>main\<close> of the inference node computes, when it gets as far as its loop.\<close>

lemma nodeMain_config:
  assumes "nodeMain C V dec F w = Some (Inr (key, cfg), hw)"
  shows "cfg = (nf_config F)\<lparr>nc_model_sha256 := modelFingerprint (we_sha256 V) (nf_model_sha F) (nf_model_file F (snd hw))\<rparr>"
  using assms by (auto simp: nodeMain_def orFatal_def split: option.splits prod.splits sum.splits)

text \<open>C28: The demo stack works exactly when the operator has pinned the model. The inference node is started
  with the environment of \<open>docker-compose.yml\<close>, and \<open>/demo/seed\<close> of the chain registers a domain from the
  chain's \<open>MODEL_SHA256\<close>. The node is configured for that domain if and only if the variable is the hash of the
  model file that the node reads, or the node cannot read its file and the variable is left
  blank (or names the placeholder). So with a readable model and a blank variable the chain rejects every answer of the node
  for the seeded service, whatever the model says.\<close>

theorem pinned_model_decides:
  assumes "\<And>b. length (we_sha256 V b) = 32"
    and "inferencedMain no_args (composeNode malicious) D N C V dec w = Some (Inr V', h, w')"
    and "registered_as (seedDomain kr (orDefault modelSHA ''unverified-tinyllama-q4'')) d"
  shows "(configured_for (we_config V') d \<longleftrightarrow>
      (case dk_file D ''/models/tinyllama-1.1b-chat-v1.0.Q4_K_M.gguf'' w' of
         Inl _ \<Rightarrow> modelSHA \<in> {'''', ''unverified-tinyllama-q4''}
       | Inr content \<Rightarrow> modelSHA = hexEncode (we_sha256 V content)))
    \<and> (if configured_for (we_config V') d then True else \<not> answers_accepted E V' d)"
proof
  show "if configured_for (we_config V') d then True else \<not> answers_accepted E V' d"
    by (simp add: misconfigured_rejected)
  let ?F = "nodeFlags no_args (composeNode malicious) D"
  have "hexEncode bs \<noteq> ''''" if "length bs = 32" for bs
    using that hexEncode_ne [of bs] by fastforce
  then have ne: "hexEncode (we_sha256 V b) \<noteq> ''''" for b
    using assms(1) by blast
  obtain r where run: "nodeMain C (nodeEnv no_args (composeNode malicious) N V) dec ?F w = Some (r, h, w')"
    and V': "(case r of Inl e \<Rightarrow> Inl e | Inr (key, cfg) \<Rightarrow>
        Inr ((nodeEnv no_args (composeNode malicious) N V)\<lparr>we_key := key, we_config := cfg\<rparr>)) = Inr V'"
    using assms(2) by (auto simp: inferencedMain_def Let_def)
  obtain key cfg where r: "r = Inr (key, cfg)" and V: "we_config V' = cfg"
    using V' by (cases r) auto
  have cfg: "cfg = \<lparr>nc_model_sha256 = (case dk_file D ''/models/tinyllama-1.1b-chat-v1.0.Q4_K_M.gguf'' w' of
        Inl _ \<Rightarrow> ''unverified-tinyllama-q4'' | Inr content \<Rightarrow> hexEncode (we_sha256 V content)),
      nc_runtime_id = ''llama.cpp-server'', nc_precision = ''q4_k_m'', nc_hardware_tag = ''cpu-x86_64-tinyllama-q4'',
      nc_tokenizer_id = ''llama.cpp-bpe-v1''\<rparr>"
    using nodeMain_config [OF run [unfolded r]]
    by (simp add: nodeFlags_def Let_def envOr_def composeNode_def modelFingerprint_def sha256File_def nodeEnv_def split: sum.split)
  show "configured_for (we_config V') d \<longleftrightarrow>
      (case dk_file D ''/models/tinyllama-1.1b-chat-v1.0.Q4_K_M.gguf'' w' of
         Inl _ \<Rightarrow> modelSHA \<in> {'''', ''unverified-tinyllama-q4''}
       | Inr content \<Rightarrow> modelSHA = hexEncode (we_sha256 V content))"
    using assms(3) ne ne [symmetric] hexEncode_not_placeholder hexEncode_not_placeholder [symmetric]
    by (auto simp: V cfg configured_for_def registered_as_def seedDomain_def orDefault_def split: sum.split if_splits)
qed

text \<open>A run: both servers are up, the key file and the model file are there, and the variable is blank.\<close>

definition up_clock :: "int clock" where
  "up_clock = \<lparr>ck_now = (\<lambda>t. t), ck_sleep = (\<lambda>d t. t + d)\<rparr>"

definition up_net :: "string \<Rightarrow> int net" where
  "up_net base = \<lparr>net_get = (\<lambda>path t. (Inr (200, ''5''), t + 1)), net_post = (\<lambda>path body t. (Inl ''refused'', t))\<rparr>"

definition up_disk :: "int disk" where
  "up_disk = \<lparr>dk_stat = (\<lambda>_ _. True),
     dk_keyring = (\<lambda>_ _. Inr [\<lparr>ke_name = ''bob'', ke_address = requester, ke_pub_key_hex = hexEncode (demo_pub 2),
       ke_priv_key_hex = hexEncode (demo_key 2)\<rparr>]),
     dk_file = (\<lambda>_ _. Inr [1, 2, 3])\<rparr>"

definition up_worker :: "int worker_env" where
  "up_worker = \<lparr>we_codec = worker_texts, we_wallet = watch_wallet, we_sha256 = demo_sha256, we_key = we_key worker,
     we_config = we_config worker, we_malicious = False, we_chain = up_net '''', we_llama = up_net ''''\<rparr>"

definition seeded_blank :: verification_domain where
  "seeded_blank = demo_vd\<lparr>dom_model_sha256 := ''unverified-tinyllama-q4'', dom_runtime_id := ''llama.cpp-server'',
     dom_hardware_tag := ''cpu-x86_64-tinyllama-q4'', dom_precision := ''q4_k_m'', dom_tokenizer_id := ''llama.cpp-bpe-v1''\<rparr>"

lemma up_run:
  "\<exists>V'. inferencedMain no_args (composeNode '''') up_disk up_net up_clock up_worker (\<lambda>_. Some 5) 0 = Some (Inr V', 5, 2)"
proof -
  let ?V = "nodeEnv no_args (composeNode '''') up_net up_worker" and ?F = "nodeFlags no_args (composeNode '''') up_disk"
  have net: "we_chain ?V = up_net ''''" "we_llama ?V = up_net ''''"
    by (simp_all add: nodeEnv_def up_net_def)
  have "waitFor up_clock (nf_stat_keyring ?F) (seconds 60) 0 = Some (Inr (), 0)"
    by (simp add: waitFor_def pollUntil.simps up_clock_def nodeFlags_def Let_def up_disk_def seconds_def)
  moreover have "\<exists>key. loadNodeKey (nf_keyring ?F 0) (nf_key_name ?F) = Inr key"
    by (simp add: loadNodeKey_def nodeFlags_def Let_def envOr_def composeNode_def up_disk_def decodeHex_def hexDecode_Encode)
  moreover have "nodeWaitChain up_clock ?V (\<lambda>_. Some 5) (0, 0) = Some (Inr (), 5, 1)"
    by (simp add: nodeWaitChain_def pollUntil.simps clientStatus_def onNet_def getDecode_def jsonOf_def storeHeight_def wbind_def wlift_def
        net up_net_def up_clock_def seconds_def)
  moreover have "waitReady up_clock (we_llama ?V) (seconds 60) 1 = Some (Inr (), 2)"
    by (simp add: waitReady_def pollUntil.simps net up_net_def up_clock_def seconds_def respondsOk_def)
  moreover have "\<exists>url. newExecutor (nf_llama_url ?F) = Inr url"
    by (simp add: newExecutor_def nodeFlags_def Let_def envOr_def composeNode_def)
  ultimately have "\<exists>key cfg. nodeMain up_clock ?V (\<lambda>_. Some 5) ?F 0 = Some (Inr (key, cfg), 5, 2)"
    by (auto simp: nodeMain_def orFatal_def)
  then show ?thesis
    by (auto simp: inferencedMain_def Let_def)
qed

theorem pinned_model_decides_witness:
  "\<exists>V'. inferencedMain no_args (composeNode '''') up_disk up_net up_clock up_worker (\<lambda>_. Some 5) 0 = Some (Inr V', 5, 2)
     \<and> registered_as (seedDomain (Inr []) (orDefault '''' ''unverified-tinyllama-q4'')) seeded_blank
     \<and> \<not> configured_for (we_config V') seeded_blank \<and> \<not> answers_accepted demo_env V' seeded_blank"
proof -
  obtain V' where run: "inferencedMain no_args (composeNode '''') up_disk up_net up_clock up_worker (\<lambda>_. Some 5) 0 = Some (Inr V', 5, 2)"
    using up_run by blast
  have sha: "length (we_sha256 up_worker b) = 32" for b
    by (auto simp: up_worker_def demo_sha256_def)
  have reg: "registered_as (seedDomain (Inr []) (orDefault '''' ''unverified-tinyllama-q4'')) seeded_blank"
    by (simp add: registered_as_def seedDomain_def orDefault_def seeded_blank_def)
  have "hexEncode bs \<noteq> ''''" if "length bs = 32" for bs
    using that hexEncode_ne [of bs] by fastforce
  then have "'''' \<noteq> hexEncode (we_sha256 up_worker [1, 2, 3])"
    using sha by metis
  then show ?thesis
    using pinned_model_decides [OF sha run reg, of demo_env] run reg by (auto simp: up_disk_def)
qed

end
