(* ===== verification/BusRace.thy ===== *)
theory BusRace
  imports EventBus "HOL-Library.Multiset"
begin

text \<open>
  The event bus under concurrency. The code runs \<open>emit\<close> in two parts: it logs the event and copies the
  list of subscribers under the lock, and sends after releasing it, one channel after the other, in any
  order. A subscription replays the log in a goroutine of its own. A subscriber is a handler of the HTTP
  server, which reads its channel until it returns; returning runs its deferred \<open>cancel\<close>, once.
  \<open>bus_step\<close> interleaves these parts; its labels record what an observer sees. Shown are what a subscriber
  can get, and when the process can send on a closed channel.
\<close>

section \<open>Interleaving\<close>

text \<open>
  A configuration of the running process: the bus, the sends that emitters have still to make, the
  replays that are under way, and the channels whose handlers have not returned.
\<close>

record config =
  cfg_bus :: bus
  cfg_emits :: "(nat \<times> event) list"
  cfg_replays :: "(nat \<times> event list) list"
  cfg_open :: "nat list"

definition start_config :: config where
  "start_config = \<lparr>cfg_bus = empty_bus, cfg_emits = [], cfg_replays = [], cfg_open = []\<rparr>"

datatype bus_label = Emitted event | Subscribed nat | Received nat event | Cancelled nat | Internal

text \<open>
  The replay waits for room in the channel and gives up after two seconds, so it may end at any
  moment; a send on a closed channel does not wait.
\<close>

inductive bus_step :: "config \<Rightarrow> bus_label \<Rightarrow> config \<Rightarrow> bool" where
  emit_lock: "bus_step c (Emitted e) (c\<lparr>cfg_bus := logEvent e (cfg_bus c),
      cfg_emits := cfg_emits c @ map (\<lambda>i. (i, e)) (bus_subs (cfg_bus c))\<rparr>)"
| emit_send: "cfg_emits c = xs @ (i, e) # ys \<Longrightarrow>
    bus_step c Internal (c\<lparr>cfg_bus := trySend e i (cfg_bus c), cfg_emits := xs @ ys\<rparr>)"
| sub: "subscribe (cfg_bus c) = (b, i) \<Longrightarrow>
    bus_step c (Subscribed i) (c\<lparr>cfg_bus := b, cfg_replays := cfg_replays c @ [(i, bus_log (cfg_bus c))],
      cfg_open := i # cfg_open c\<rparr>)"
| replay_send: "cfg_replays c = xs @ (i, e # es) # ys \<Longrightarrow>
    ch_closed (bus_chans (cfg_bus c) ! i) \<or> length (ch_buf (bus_chans (cfg_bus c) ! i)) < channelCapacity \<Longrightarrow>
    bus_step c Internal (c\<lparr>cfg_bus := trySend e i (cfg_bus c), cfg_replays := xs @ (i, es) # ys\<rparr>)"
| replay_end: "cfg_replays c = xs @ (i, es) # ys \<Longrightarrow> bus_step c Internal (c\<lparr>cfg_replays := xs @ ys\<rparr>)"
| recv: "i \<in> set (cfg_open c) \<Longrightarrow> ch_buf (bus_chans (cfg_bus c) ! i) = e # es \<Longrightarrow>
    bus_step c (Received i e) (c\<lparr>cfg_bus := receive i (cfg_bus c)\<rparr>)"
| cancel: "i \<in> set (cfg_open c) \<Longrightarrow>
    bus_step c (Cancelled i) (c\<lparr>cfg_bus := cancel i (cfg_bus c), cfg_open := removeAll i (cfg_open c)\<rparr>)"

text \<open>
  The runs with their labels. \<open>g\<close> says when a handler may return: in the code always, \<open>any_time\<close>. The
  discipline \<open>drained\<close> is what the code lacks: that no send to the channel is under way.
\<close>

definition any_time :: "config \<Rightarrow> nat \<Rightarrow> bool" where
  "any_time c i \<longleftrightarrow> True"

definition drained :: "config \<Rightarrow> nat \<Rightarrow> bool" where
  "drained c i \<longleftrightarrow> i \<notin> fst ` set (cfg_emits c) \<and> i \<notin> fst ` set (cfg_replays c)"

inductive bus_run :: "(config \<Rightarrow> nat \<Rightarrow> bool) \<Rightarrow> bus_label list \<Rightarrow> config \<Rightarrow> bool" for g where
  start: "bus_run g [] start_config"
| step: "bus_run g tr c \<Longrightarrow> bus_step c l c' \<Longrightarrow> (case l of Cancelled i \<Rightarrow> g c i | _ \<Rightarrow> True) \<Longrightarrow>
    bus_run g (tr @ [l]) c'"

text \<open>What was published, and what a subscriber has read so far and finds in its buffer.\<close>

definition emittedOf :: "bus_label list \<Rightarrow> event list" where
  "emittedOf tr = concat (map (\<lambda>l. case l of Emitted e \<Rightarrow> [e] | _ \<Rightarrow> []) tr)"

definition receivedBy :: "nat \<Rightarrow> bus_label list \<Rightarrow> event list" where
  "receivedBy i tr = concat (map (\<lambda>l. case l of Received j e \<Rightarrow> if j = i then [e] else [] | _ \<Rightarrow> []) tr)"

definition buffered :: "bus \<Rightarrow> nat \<Rightarrow> event list" where
  "buffered b i = (if i < length (bus_chans b) then ch_buf (bus_chans b ! i) else [])"

lemma history_snoc [simp]:
  "emittedOf [] = []" "receivedBy i [] = []"
  "emittedOf (tr @ [l]) = emittedOf tr @ (case l of Emitted e \<Rightarrow> [e] | _ \<Rightarrow> [])"
  "receivedBy i (tr @ [l]) = receivedBy i tr @ (case l of Received j e \<Rightarrow> if j = i then [e] else [] | _ \<Rightarrow> [])"
  by (simp_all add: emittedOf_def receivedBy_def)

section \<open>Delivery\<close>

text \<open>What is on its way to a subscriber.\<close>

definition to_chan :: "nat \<Rightarrow> (nat \<times> 'a) list \<Rightarrow> 'a list" where
  "to_chan i ps = map snd (filter (\<lambda>p. fst p = i) ps)"

definition on_way :: "config \<Rightarrow> nat \<Rightarrow> event multiset" where
  "on_way c i = mset (to_chan i (cfg_emits c)) + mset (concat (to_chan i (cfg_replays c)))"

lemma to_chan_simps [simp]:
  "to_chan i [] = []" "to_chan i ((j, x) # ps) = (if j = i then x # to_chan i ps else to_chan i ps)"
  "to_chan i (ps @ qs) = to_chan i ps @ to_chan i qs"
  by (simp_all add: to_chan_def)

lemma to_chan_new: "list_all (\<lambda>p. fst p < n) ps \<Longrightarrow> n \<le> i \<Longrightarrow> to_chan i ps = []"
  by (induction ps) (auto simp: to_chan_def)

lemma to_chan_emit: "distinct is \<Longrightarrow> to_chan i (map (\<lambda>j. (j, e)) is) = (if i \<in> set is then [e] else [])"
  by (induction "is") (auto simp: to_chan_def)

definition chans_ok :: "config \<Rightarrow> bool" where
  "chans_ok c \<longleftrightarrow>
     distinct (bus_subs (cfg_bus c)) \<and> list_all (\<lambda>i. i < length (bus_chans (cfg_bus c))) (bus_subs (cfg_bus c))
     \<and> list_all (\<lambda>p. fst p < length (bus_chans (cfg_bus c))) (cfg_emits c)
     \<and> list_all (\<lambda>p. fst p < length (bus_chans (cfg_bus c))) (cfg_replays c)
     \<and> list_all (\<lambda>i. i < length (bus_chans (cfg_bus c))) (cfg_open c)
     \<and> list_all (\<lambda>ch. length (ch_buf ch) \<le> channelCapacity) (bus_chans (cfg_bus c))"

definition handed :: "bus_label list \<Rightarrow> config \<Rightarrow> nat \<Rightarrow> event multiset" where
  "handed tr c i = mset (receivedBy i tr) + mset (buffered (cfg_bus c) i) + on_way c i"

subsection \<open>The operations\<close>

lemma logEvent_fields [simp]:
  "bus_subs (logEvent e b) = bus_subs b" "bus_chans (logEvent e b) = bus_chans b" "buffered (logEvent e b) = buffered b"
  "bus_panic (logEvent e b) = bus_panic b"
  by (simp_all add: logEvent_def Let_def buffered_def fun_eq_iff)

lemma list_all_update: "list_all P xs \<Longrightarrow> (i < length xs \<Longrightarrow> P x) \<Longrightarrow> list_all P (xs[i := x])"
  by (cases "i < length xs") (auto simp: list_all_length nth_list_update)

lemma nth_upd: "j < length xs \<Longrightarrow> xs[i := x] ! j = (if j = i then x else xs ! j)"
  by (cases "j = i") simp_all

lemma list_all_nth: "list_all P xs \<Longrightarrow> i < length xs \<Longrightarrow> P (xs ! i)"
  by (simp add: list_all_length)

lemma buffered_update:
  "buffered (b\<lparr>bus_chans := (bus_chans b)[i := ch]\<rparr>) j =
    (if j = i \<and> i < length (bus_chans b) then ch_buf ch else buffered b j)"
  by (auto simp: buffered_def nth_list_update)

lemma trySend_bounded:
  "list_all (\<lambda>ch. length (ch_buf ch) \<le> channelCapacity) (bus_chans b) \<Longrightarrow>
   list_all (\<lambda>ch. length (ch_buf ch) \<le> channelCapacity) (bus_chans (trySend e i b))"
  by (auto simp: trySend_def intro!: list_all_update)

lemma trySend_buffered:
  "mset (buffered (trySend e i b) j) \<subseteq># mset (buffered b j) + (if i = j then {#e#} else {#})"
  by (auto simp: trySend_def buffered_update) (auto simp: buffered_def)

lemma cancel_frame:
  "bus_log (cancel i b) = bus_log b" "length (bus_chans (cancel i b)) = length (bus_chans b)"
  "buffered (cancel i b) = buffered b" "set (bus_subs (cancel i b)) \<subseteq> set (bus_subs b)"
  "distinct (bus_subs b) \<Longrightarrow> distinct (bus_subs (cancel i b))"
  by (auto simp: cancel_def fun_eq_iff buffered_def nth_upd)

lemma cancel_bounded:
  "list_all (\<lambda>ch. length (ch_buf ch) \<le> channelCapacity) (bus_chans b) \<Longrightarrow>
   list_all (\<lambda>ch. length (ch_buf ch) \<le> channelCapacity) (bus_chans (cancel i b))"
  unfolding cancel_def by (auto intro!: list_all_update dest: list_all_nth)

lemma receive_frame:
  "bus_log (receive i b) = bus_log b" "length (bus_chans (receive i b)) = length (bus_chans b)"
  "bus_subs (receive i b) = bus_subs b" "bus_panic (receive i b) = bus_panic b"
  "buffered (receive i b) j = (if j = i then tl (buffered b j) else buffered b j)"
  by (auto simp: receive_def buffered_update) (auto simp: buffered_def)

lemma receive_bounded:
  "list_all (\<lambda>ch. length (ch_buf ch) \<le> channelCapacity) (bus_chans b) \<Longrightarrow>
   list_all (\<lambda>ch. length (ch_buf ch) \<le> channelCapacity) (bus_chans (receive i b))"
  unfolding receive_def by (auto intro!: list_all_update dest: list_all_nth)

subsection \<open>The steps\<close>

lemma chans_step:
  assumes "bus_step c l c'" and "chans_ok c"
  shows "chans_ok c'"
  using assms
proof cases
  case (cancel i)
  then show ?thesis
    using assms(2) cancel_frame(4) [of i "cfg_bus c", THEN subsetD]
    by (auto simp: chans_ok_def cancel_frame cancel_bounded list_all_iff [of _ "bus_subs _"] list_all_iff [of _ "removeAll _ _"]
        list_all_iff [of _ "cfg_open _"])
next
  case (sub b i)
  then show ?thesis
    using assms(2) by (auto simp: chans_ok_def subscribe_def list_all_iff less_Suc_eq)
qed (auto simp: chans_ok_def trySend_bounded receive_frame receive_bounded list_all_iff [of _ "map _ _"] list_all_iff [of _ "bus_subs _"])

lemma log_step:
  "bus_step c l c' \<Longrightarrow> bus_log (cfg_bus c') = (case l of Emitted e \<Rightarrow> lastN eventLogLimit (bus_log (cfg_bus c) @ [e])
     | _ \<Rightarrow> bus_log (cfg_bus c))"
  by (erule bus_step.cases) (auto simp: logEvent_log cancel_frame receive_frame subscribe_def)

text \<open>No step but the logging of an event puts more on its way to a subscriber than there was; a new
  subscriber is sent the log.\<close>

lemma handed_step:
  assumes "bus_step c l c'" and ok: "chans_ok c" and new: "\<forall>i \<ge> length (bus_chans (cfg_bus c)). receivedBy i tr = []"
  shows "handed (tr @ [l]) c' i \<subseteq>#
    (case l of Emitted e \<Rightarrow> add_mset e (handed tr c i)
     | Subscribed j \<Rightarrow> if i = j then mset (bus_log (cfg_bus c)) else handed tr c i
     | _ \<Rightarrow> handed tr c i)"
  using assms(1)
proof cases
  case (emit_lock e)
  then show ?thesis
    using ok by (auto simp: handed_def on_way_def chans_ok_def to_chan_emit)
next
  case (emit_send xs j e ys)
  then show ?thesis
    using trySend_buffered [of e j "cfg_bus c" i]
    by (auto simp: handed_def on_way_def subset_mset.add_mono)
next
  case (sub b j)
  then show ?thesis
    using ok new by (auto simp: handed_def on_way_def chans_ok_def subscribe_def to_chan_new buffered_def nth_append)
next
  case (replay_send xs j e es ys)
  then show ?thesis
    using trySend_buffered [of e j "cfg_bus c" i]
    by (auto simp: handed_def on_way_def)
next
  case (recv j e es)
  then have "buffered (cfg_bus c) j = e # es"
    using ok by (simp add: chans_ok_def list_all_iff buffered_def)
  with recv show ?thesis
    by (auto simp: handed_def on_way_def receive_frame)
qed (auto simp: handed_def on_way_def cancel_frame)

definition delivery_inv :: "bus_label list \<Rightarrow> config \<Rightarrow> bool" where
  "delivery_inv tr c \<longleftrightarrow>
     chans_ok c \<and> bus_log (cfg_bus c) = lastN eventLogLimit (emittedOf tr)
     \<and> (\<forall>i \<ge> length (bus_chans (cfg_bus c)). receivedBy i tr = [])
     \<and> (\<forall>i. handed tr c i \<subseteq># mset (emittedOf tr))"

lemma bus_run_delivery: "bus_run g tr c \<Longrightarrow> delivery_inv tr c"
proof (induction rule: bus_run.induct)
  case start
  show ?case
    by (simp add: delivery_inv_def chans_ok_def handed_def start_config_def empty_bus_def lastN_def buffered_def on_way_def)
next
  case (step tr c l c')
  then have ok: "chans_ok c" and log: "bus_log (cfg_bus c) = lastN eventLogLimit (emittedOf tr)"
    and new: "\<forall>i \<ge> length (bus_chans (cfg_bus c)). receivedBy i tr = []"
    and D: "handed tr c i \<subseteq># mset (emittedOf tr)" for i
    by (simp_all add: delivery_inv_def)
  have "mset (bus_log (cfg_bus c)) \<subseteq># mset (emittedOf tr)"
    unfolding log lastN_def by (metis append_take_drop_id mset_append mset_subset_eq_add_right)
  then have "handed (tr @ [l]) c' i \<subseteq># mset (emittedOf (tr @ [l]))" for i
    using handed_step [OF step(2) ok new, of i] D [of i]
    by (auto split: bus_label.splits if_splits intro: subset_mset.order_trans)
  moreover have "bus_log (cfg_bus c') = lastN eventLogLimit (emittedOf (tr @ [l]))"
    using log_step [OF step(2)] log by (simp add: lastN_append lastN_short split: bus_label.splits)
  moreover have "\<forall>i \<ge> length (bus_chans (cfg_bus c')). receivedBy i (tr @ [l]) = []"
    using step(2) new ok
    by (cases rule: bus_step.cases) (auto simp: cancel_frame receive_frame subscribe_def chans_ok_def list_all_iff)
  ultimately show ?case
    using chans_step [OF step(2) ok] by (simp add: delivery_inv_def)
qed

text \<open>C37: What a subscriber can get. In every interleaving of emits, subscriptions, replays, reads and
  cancellations: the replay log is exactly the last 1024 events published; what a subscriber has read
  and what waits for it were published, and every event, counting the replayed ones, is
  delivered to it at most as often as it was published; and at most 64 events wait.\<close>

theorem bus_delivery:
  assumes "bus_run g tr c"
  shows "bus_log (cfg_bus c) = lastN 1024 (emittedOf tr)
    \<and> mset (receivedBy i tr) + mset (buffered (cfg_bus c) i) \<subseteq># mset (emittedOf tr)
    \<and> length (buffered (cfg_bus c) i) \<le> 64"
proof -
  have inv: "delivery_inv tr c"
    by (rule bus_run_delivery [OF assms])
  then have "handed tr c i \<subseteq># mset (emittedOf tr)" and ok: "chans_ok c"
    and log: "bus_log (cfg_bus c) = lastN eventLogLimit (emittedOf tr)"
    by (simp_all add: delivery_inv_def)
  then have "mset (receivedBy i tr) + mset (buffered (cfg_bus c) i) \<subseteq># mset (emittedOf tr)"
    unfolding handed_def by (rule_tac subset_mset.order_trans [OF mset_subset_eq_add_left])
  moreover have "length (buffered (cfg_bus c) i) \<le> 64"
    using ok list_all_nth by (fastforce simp: chans_ok_def buffered_def channelCapacity_def)
  ultimately show ?thesis
    using log by (simp add: eventLogLimit_def)
qed

section \<open>The race\<close>

text \<open>Short runs: a subscription and an event, in either order, then the handler returns.\<close>

lemma any_run:
  "bus_run any_time tr c \<Longrightarrow> bus_step c l c' \<Longrightarrow> bus_run any_time (tr @ [l]) c'"
  by (rule bus_run.step) (simp_all add: any_time_def split: bus_label.split)

definition sub_of :: "config \<Rightarrow> config" where
  "sub_of c = c\<lparr>cfg_bus := fst (subscribe (cfg_bus c)), cfg_replays := cfg_replays c @ [(snd (subscribe (cfg_bus c)), bus_log (cfg_bus c))],
     cfg_open := snd (subscribe (cfg_bus c)) # cfg_open c\<rparr>"

definition emit_of :: "event \<Rightarrow> config \<Rightarrow> config" where
  "emit_of e c = c\<lparr>cfg_bus := logEvent e (cfg_bus c), cfg_emits := cfg_emits c @ map (\<lambda>i. (i, e)) (bus_subs (cfg_bus c))\<rparr>"

definition cancel_of :: "nat \<Rightarrow> config \<Rightarrow> config" where
  "cancel_of i c = c\<lparr>cfg_bus := cancel i (cfg_bus c), cfg_open := removeAll i (cfg_open c)\<rparr>"

lemma short_steps:
  "bus_step c (Subscribed (length (bus_chans (cfg_bus c)))) (sub_of c)"
  "bus_step c (Emitted e) (emit_of e c)"
  "i \<in> set (cfg_open c) \<Longrightarrow> bus_step c (Cancelled i) (cancel_of i c)"
  using bus_step.sub [of c "fst (subscribe (cfg_bus c))" "length (bus_chans (cfg_bus c))"]
  by (auto simp: sub_of_def emit_of_def cancel_of_def subscribe_def intro: bus_step.emit_lock bus_step.cancel)

lemmas short_defs = sub_of_def emit_of_def cancel_of_def start_config_def empty_bus_def subscribe_def logEvent_def
  cancel_def Let_def trySend_def eventLogLimit_def

lemma subscribed_run:
  "bus_run any_time [Subscribed 0, Emitted e] (emit_of e (sub_of start_config))"
  "bus_run any_time [Emitted e, Subscribed 0] (sub_of (emit_of e start_config))"
  using any_run [OF any_run [OF bus_run.start short_steps(1)] short_steps(2)]
    any_run [OF any_run [OF bus_run.start short_steps(2)] short_steps(1)]
  by (simp_all add: short_defs)

lemma emit_race:
  "\<exists>c. bus_run any_time [Subscribed 0, Emitted e, Cancelled 0, Internal] c \<and> bus_panic (cfg_bus c)"
proof -
  let ?c = "cancel_of 0 (emit_of e (sub_of start_config))"
  have "bus_run any_time ([Subscribed 0, Emitted e] @ [Cancelled 0]) ?c"
    by (rule any_run [OF subscribed_run(1) short_steps(3)]) (simp add: short_defs)
  moreover have "bus_step ?c Internal (?c\<lparr>cfg_bus := trySend e 0 (cfg_bus ?c), cfg_emits := [] @ []\<rparr>)"
    by (rule bus_step.emit_send) (simp add: short_defs)
  ultimately have "bus_run any_time [Subscribed 0, Emitted e, Cancelled 0, Internal]
      (?c\<lparr>cfg_bus := trySend e 0 (cfg_bus ?c), cfg_emits := [] @ []\<rparr>)"
    using any_run by fastforce
  then show ?thesis
    by (rule_tac exI, rule_tac conjI) (assumption, simp add: short_defs)
qed

lemma replay_race:
  "\<exists>c. bus_run any_time [Emitted e, Subscribed 0, Cancelled 0, Internal] c \<and> bus_panic (cfg_bus c)"
proof -
  let ?c = "cancel_of 0 (sub_of (emit_of e start_config))"
  have "bus_run any_time ([Emitted e, Subscribed 0] @ [Cancelled 0]) ?c"
    by (rule any_run [OF subscribed_run(2) short_steps(3)]) (simp add: short_defs)
  moreover have "bus_step ?c Internal (?c\<lparr>cfg_bus := trySend e 0 (cfg_bus ?c), cfg_replays := [] @ (0, []) # []\<rparr>)"
    by (rule bus_step.replay_send) (simp_all add: short_defs)
  ultimately have "bus_run any_time [Emitted e, Subscribed 0, Cancelled 0, Internal]
      (?c\<lparr>cfg_bus := trySend e 0 (cfg_bus ?c), cfg_replays := [] @ (0, []) # []\<rparr>)"
    using any_run by fastforce
  then show ?thesis
    by (rule_tac exI, rule_tac conjI) (assumption, simp add: short_defs)
qed

theorem bus_delivery_witness:
  "\<exists>c. bus_run any_time [Subscribed 0, Emitted no_event, Internal, Received 0 no_event, Emitted no_event] c
     \<and> bus_log (cfg_bus c) = lastN 1024 [no_event, no_event]
     \<and> receivedBy 0 [Subscribed 0, Emitted no_event, Internal, Received 0 no_event, Emitted no_event] = [no_event]
     \<and> mset [no_event] + mset (buffered (cfg_bus c) 0) \<subseteq># mset [no_event, no_event]"
proof -
  let ?tr = "[Subscribed 0, Emitted no_event, Internal, Received 0 no_event, Emitted no_event]"
  let ?c1 = "emit_of no_event (sub_of start_config)"
  let ?c2 = "?c1\<lparr>cfg_bus := trySend no_event 0 (cfg_bus ?c1), cfg_emits := [] @ []\<rparr>"
  let ?c3 = "?c2\<lparr>cfg_bus := receive 0 (cfg_bus ?c2)\<rparr>"
  have "bus_step ?c1 Internal ?c2"
    by (rule bus_step.emit_send) (simp add: short_defs)
  moreover have "bus_step ?c2 (Received 0 no_event) ?c3"
    by (rule bus_step.recv [where es = "[]"]) (simp_all add: short_defs channelCapacity_def)
  ultimately have "bus_run any_time ((([Subscribed 0, Emitted no_event] @ [Internal]) @ [Received 0 no_event])
      @ [Emitted no_event]) (emit_of no_event ?c3)"
    by (intro any_run [OF any_run [OF any_run [OF subscribed_run(1)]] short_steps(2)])
  then have run: "bus_run any_time ?tr (emit_of no_event ?c3)" by simp
  have e: "emittedOf ?tr = [no_event, no_event]" and r: "receivedBy 0 ?tr = [no_event]"
    by (simp_all add: emittedOf_def receivedBy_def)
  show ?thesis
    using bus_delivery [OF run, of 0] unfolding e r using run by blast
qed

text \<open>With the discipline no send ever meets a closed channel.\<close>

definition no_late_send :: "config \<Rightarrow> bool" where
  "no_late_send c \<longleftrightarrow>
     \<not> bus_panic (cfg_bus c) \<and> chans_ok c
     \<and> (\<forall>i < length (bus_chans (cfg_bus c)). ch_closed (bus_chans (cfg_bus c) ! i) \<longrightarrow>
          i \<notin> set (bus_subs (cfg_bus c)) \<and> i \<notin> set (cfg_open c) \<and> drained c i)"

lemma trySend_alive:
  assumes "\<not> bus_panic b" and "i < length (bus_chans b)" and "\<not> ch_closed (bus_chans b ! i)"
  shows "\<not> bus_panic (trySend e i b)"
    and "j < length (bus_chans b) \<Longrightarrow> ch_closed (bus_chans (trySend e i b) ! j) = ch_closed (bus_chans b ! j)"
  using assms by (simp_all add: trySend_def nth_upd)

lemma drained_iff:
  "drained c i \<longleftrightarrow> (\<forall>e. (i, e) \<notin> set (cfg_emits c)) \<and> (\<forall>es. (i, es) \<notin> set (cfg_replays c))"
  by (force simp: drained_def)

lemma no_late_send_step:
  assumes "bus_step c l c'" and "case l of Cancelled i \<Rightarrow> drained c i | _ \<Rightarrow> True" and inv: "no_late_send c"
  shows "no_late_send c'"
proof -
  have ok: "chans_ok c" and alive: "\<not> bus_panic (cfg_bus c)"
    and shut: "ch_closed (bus_chans (cfg_bus c) ! i) \<Longrightarrow> i < length (bus_chans (cfg_bus c)) \<Longrightarrow>
        i \<notin> set (bus_subs (cfg_bus c)) \<and> i \<notin> set (cfg_open c) \<and> drained c i" for i
    using inv by (simp_all add: no_late_send_def)
  note ok' = chans_step [OF assms(1) ok]
  from assms(1) show ?thesis
  proof cases
    case (emit_lock e)
    then show ?thesis
      using ok' alive shut by (fastforce simp: no_late_send_def drained_iff)
  next
    case (emit_send xs i e ys)
    then have i: "i < length (bus_chans (cfg_bus c))" "\<not> ch_closed (bus_chans (cfg_bus c) ! i)"
      using ok shut [of i] by (auto simp: chans_ok_def list_all_iff drained_iff)
    show ?thesis
      using ok' trySend_alive(1) [OF alive i, of e] trySend_alive(2) [OF alive i, of _ e] shut emit_send by (auto simp: no_late_send_def drained_iff)
  next
    case (sub b i)
    have "drained c (length (bus_chans (cfg_bus c)))"
      using ok by (auto simp: chans_ok_def drained_iff list_all_iff)
    then show ?thesis
      using ok' alive shut sub by (auto simp: no_late_send_def drained_iff subscribe_def nth_append less_Suc_eq)
  next
    case (replay_send xs i e es ys)
    then have i: "i < length (bus_chans (cfg_bus c))" "\<not> ch_closed (bus_chans (cfg_bus c) ! i)"
      using ok shut [of i] by (auto simp: chans_ok_def list_all_iff drained_iff)
    show ?thesis
      using ok' trySend_alive(1) [OF alive i, of e] trySend_alive(2) [OF alive i, of _ e] shut replay_send by (auto simp: no_late_send_def drained_iff)
  next
    case (recv i e es)
    then show ?thesis
      using ok' alive shut by (auto simp: no_late_send_def drained_iff receive_def nth_upd)
  next
    case (cancel i)
    then have "i < length (bus_chans (cfg_bus c))" "\<not> ch_closed (bus_chans (cfg_bus c) ! i)" "drained c i"
      using ok shut [of i] assms(2) by (auto simp: chans_ok_def list_all_iff)
    then show ?thesis
      using ok' alive shut cancel by (auto simp: no_late_send_def drained_iff cancel_def nth_upd)
  qed (use ok' alive shut in \<open>auto simp: no_late_send_def drained_iff\<close>)
qed

lemma drained_runs: "bus_run drained tr c \<Longrightarrow> no_late_send c"
proof (induction rule: bus_run.induct)
  case start
  show ?case
    by (simp add: no_late_send_def chans_ok_def start_config_def empty_bus_def)
qed (blast intro: no_late_send_step)

text \<open>C38: The race between publishing and unsubscribing. If a handler returns while an event is on its way to
  its channel, from \<open>emit\<close>, which has copied the list of subscribers before, or from the replay of its own
  subscription, the next send meets the closed channel and panics: four steps are enough, for any event. It is the only
  way: if handlers returned only when no send to their channel is under way, no interleaving
  could panic.\<close>

theorem emit_cancel_race:
  "(\<exists>c. bus_run any_time [Subscribed 0, Emitted e, Cancelled 0, Internal] c \<and> bus_panic (cfg_bus c))
   \<and> (\<exists>c. bus_run any_time [Emitted e, Subscribed 0, Cancelled 0, Internal] c \<and> bus_panic (cfg_bus c))
   \<and> \<not> (\<exists>tr c. bus_run drained tr c \<and> bus_panic (cfg_bus c))"
  using emit_race replay_race drained_runs by (fastforce simp: no_late_send_def)

end
