(* ===== verification/Spec2Isabelle.thy ===== *)
theory Spec2Isabelle
  imports SettlementSpec DisputeSpec MarketSpec GatewaySpec IndexerSpec ClientSpec DaemonSpec StartupSpec LivenessSpec OutcomeSpec RequestSpec ConfigSpec BusRace
begin

text \<open>
  This library models the aios marketplace of the repository, four Go programs: the chain under
  \<open>src/chain\<close>, a key-value state machine on which providers register inference services, requesters pay
  for inferences, results can be challenged and witnesses vouch for one side of a dispute; the inference
  node under \<open>src/inference-node\<close>, which answers requests; the determinism harness under
  \<open>src/determinism-harness\<close>, which replays results and files challenges and vouches; and the indexer
  under \<open>src/indexer\<close>, a relational read model of the chain's events. The last three reach the chain
  over HTTP: they read records, post signed transactions and follow the stream of events.

  \<^bold>\<open>The chain\<close>

  \<^item> \<open>Prelude\<close>: machine words, the error monad, the buckets of the database as ordered lists of entries.
  \<^item> \<open>Types\<close>: \<open>chain/internal/types/types.go\<close>. Structs are records, enumerations datatypes, \<open>uint64\<close> and
    \<open>int64\<close> are 64-bit words whose arithmetic wraps, signed comparisons are \<open><s\<close> and \<open><=s\<close>. The
    payload of an event is a constructor of \<open>event_payload\<close>.
  \<^item> \<open>Codec\<close>: hex, big-endian id keys, addresses, \<open>ValidateBasic\<close> and \<open>CanonicalBytes\<close>.
  \<^item> \<open>Payments\<close> and \<open>Ledger\<close>: the locale \<open>ledger\<close> is the contract of debit and credit; \<open>state.go\<close>'s
    \<open>credit\<close>, \<open>debit\<close>, \<open>Mint\<close>, \<open>init\<close>, nonces and counters provide it. \<open>bal\<close> and \<open>total_supply\<close> read
    balances as natural numbers.
  \<^item> \<open>Tables\<close>: services, requests and domains (\<open>putService\<close>, \<open>getService\<close>, ...), as interpretations of
    the locale \<open>table\<close>; the public reads.
  \<^item> \<open>Invariant\<close>: \<open>chain_inv\<close>, the invariant of the database: well-formed tables, balances that do not
    wrap, and an escrow that covers \<open>obligations\<close>.
  \<^item> \<open>Settlement\<close> and \<open>Resolution\<close>: closing a request. \<open>executeSlash\<close>, \<open>executeDismiss\<close> and
    \<open>executeVoidDueToDomain\<close> of \<open>resolution.go\<close>, each refined by a list of payments; the locale
    \<open>settlement\<close> is their contract.
  \<^item> \<open>TxMarket\<close>, \<open>TxDispute\<close>, \<open>TxLifecycle\<close>: the handlers of \<open>tx.go\<close>, one function each, every branch
    and every error in the order of the code.
  \<^item> \<open>EventBus\<close>: \<open>emit\<close>, \<open>Subscribe\<close> and its \<open>cancel\<close>, run one after the other; the locale
    \<open>bounded_log\<close> is the contract of a log that keeps its last entries.
  \<^item> \<open>BusRace\<close>: the same operations interleaved. \<open>emit\<close> logs and copies the subscribers under the lock and
    sends after it; subscribers read, and cancel once, when their handler returns. The labels of \<open>bus_step\<close>
    are the history that the properties speak of; \<open>drained\<close> is the discipline that the code lacks.
  \<^item> \<open>Submit\<close> and \<open>Block\<close>: \<open>SubmitTx\<close> and \<open>commitBlock\<close>, the two ways the state moves.
  \<^item> \<open>System\<close>: the node as a transition system (\<open>node_step\<close>, \<open>reach\<close>) and the order of the statuses.
  \<^item> \<open>Lifecycle\<close>, \<open>Settings\<close> and \<open>Accounting\<close>: three abstractions of a step. The life of one request as a
    state machine (\<open>req_trans\<close>) that the chain follows request by request (\<open>follows\<close>); what a
    step leaves alone in the meta bucket; the money a block moves (\<open>blockPayouts\<close>).
  \<^item> \<open>Views\<close>: the exported reads of \<open>state.go\<close>, each a read transaction, and the exported helpers.
  \<^item> \<open>GoText\<close>: what the programs use of \<open>strings\<close>, \<open>strconv\<close> and \<open>bufio\<close>.
  \<^item> \<open>Keyring\<close>: \<open>EnsureDevKeyring\<close> and the key file, and signing on behalf of a named key (\<open>demo.go\<close>).
  \<^item> \<open>Gateway\<close>: the HTTP server (\<open>api.go\<close>, \<open>demo.go\<close>, \<open>demo_lifecycle.go\<close>): \<open>serve\<close> routes a request to
    its handler and yields the status, the body and the node after it. A call of \<open>/events\<close> subscribes
    (\<open>openEvents\<close>) and cancels when it ends (\<open>closeEvents\<close>).
  \<^item> \<open>Daemon\<close>: the chain process (\<open>cmd/aid/main.go\<close>, \<open>Open\<close>, \<open>RunBlockProducer\<close>): its start on the files
    it finds, and its life as a transition system (\<open>aid_step\<close>, \<open>aid_reach\<close>) with stops and restarts.

  \<^bold>\<open>The other programs\<close>

  \<^item> \<open>EventStream\<close>: both ends of \<open>GET /events\<close>, the text of the stream included, and the reconnection with
    its backoff, which the three clients share.
  \<^item> \<open>Net\<close> and \<open>ChainNet\<close>: the network as a client meets it, a record of calls over a world that may change
    with each of them; \<open>chainNet\<close> is the network whose world is the chain behind its HTTP server.
  \<^item> \<open>Envelope\<close>: the signed envelope as each of three Go modules declares it, and \<open>marshalObject\<close>, what
    \<open>encoding/json\<close> makes of such a declaration.
  \<^item> \<open>Indexer\<close> and \<open>IndexerLaws\<close>: the store, whose SQL statements are operations on two tables, the event
    handlers and the REST interface; the locale \<open>overwriting\<close> is the contract of updates that may be
    repeated.
  \<^item> \<open>Harness\<close> and \<open>HarnessLaws\<close>: \<open>checkRequest\<close>, the two filings, the stored results (a \<open>bounded_log\<close>) and
    the report.
  \<^item> \<open>Worker\<close> and \<open>WorkerLaws\<close>: the client library, the executor and the handling of an event by the
    inference node.
  \<^item> \<open>Startup\<close>: the waits of the clients for a file, the chain and the model server, the steps of their
    \<open>main\<close> functions, and the loops that subscribe again when a stream ends. These are partial functions
    (\<open>pollUntil\<close>, \<open>keepSubscribed\<close>) whose result is \<open>None\<close> when they never return.
  \<^item> \<open>Config\<close>: the flags and environment variables of the four processes, and each process with its
    settings put in.
  \<^item> \<open>Demo\<close>, \<open>ClientDemo\<close> and \<open>ProcessDemo\<close>: concrete environments and runs, used by the witnesses.
  \<^item> \<open>SettlementSpec\<close>, \<open>DisputeSpec\<close>, \<open>MarketSpec\<close>, \<open>GatewaySpec\<close>, \<open>IndexerSpec\<close>, \<open>ClientSpec\<close>,
    \<open>DaemonSpec\<close>, \<open>StartupSpec\<close>, \<open>LivenessSpec\<close>, \<open>OutcomeSpec\<close>, \<open>RequestSpec\<close>, \<open>ConfigSpec\<close>, \<open>BusRace\<close> and
    this theory: the properties.

  \<^bold>\<open>Correspondence\<close>

  A definition has the name of the Go function it translates. A handler takes the state explicitly and
  returns an error or the new state; a returned error stands for \<open>return err\<close>, and \<open>dbUpdate\<close> keeps the
  old state then, as a bbolt transaction does. A panic is the error \<open>Panic\<close>. Error texts are kept
  without the numbers formatted into them, and those of a failed HTTP call without the status and
  the body of the reply. A cursor loop is a recursion over the entries of a bucket in
  key order. Parameters of the model, collected in the record \<open>env\<close>: whether the store accepts a key,
  SHA-256, Ed25519, and the JSON decoders and encoder. The clients have records of their own for their
  codecs, keys and networks. A client operation is a function from the world to its result and the world
  after it (\<open>action\<close>). The SQL driver is a function that may refuse a statement.

  \<^bold>\<open>Hypotheses and bounds\<close>

  No fuel is used: every loop is a structural recursion or a recursion with a measure (reading a stream,
  trimming a text), except for the partial functions of \<open>Startup\<close>, whose waits are shown to end.
  \<open>clock_ok\<close> and \<open>keeps_time\<close> say that the clock does not run backwards and that a sleep lasts as long as
  asked; \<open>gen_ok\<close> that a generated private key ends in its public key, and \<open>gen_signs\<close> that it is a key
  of the signature scheme. \<open>put_accepts\<close> says that the store takes keys of 1 to 32768 bytes, bbolt's documented
  limits; \<open>sha_ok\<close> that a SHA-256 sum has 32 bytes; \<open>ed25519_ok\<close>, of one private key, that its
  signatures have 64 bytes and verify under its public half; \<open>ids_left\<close> that the id counters are below \<open>2 ^ 64 - 1\<close>;
  \<open>reach\<close> mints at most \<open>2 ^ 64 - 1\<close> coins in total. A Go slice of vouchers cannot grow past
  \<open>2 ^ 63 - 1\<close> elements (\<open>appendSlice\<close>). \<open>aid_run\<close> counts the blocks of a history of the process; where a
  deadline is computed from them there are fewer than \<open>2 ^ 62\<close>, at one block per second more than a
  hundred thousand million years. \<open>enc_ok\<close> says that an encoded event is one line, \<open>idx_wire\<close>,
  \<open>travels\<close>, \<open>challenge_travels\<close> and \<open>answer_travels\<close> that two programs agree on the texts they
  exchange, and \<open>takes_small\<close> that the SQL driver takes integers below \<open>2 ^ 63\<close>.

  \<^bold>\<open>What is shown\<close>

  Of the chain: the escrow always covers what is owed; blocks never fail; every request is settled, at the latest 66 blocks
  after its deadline; an answer that nobody disputes is paid and a challenge that nobody votes down is slashed
  by the blocks alone; every step refines the life cycle of a request; a block settles exactly the
  requests whose time has come and pays every account what the settlements say; supply is conserved;
  statuses only move forward; every settlement pays exactly the stakes held for the request, to the right
  accounts; the guards and effects of every
  handler; signatures and nonces; atomicity; what a subscriber of the event bus can get, in any
  interleaving, and the race that makes it panic; that in any history of the process the bonds of a
  request are the exact percentages, though the 64-bit product would wrap around under larger
  parameters; that a dispute, once recorded, is well-formed; round trips of the keys; correctness of
  the reads. Of the HTTP server:
  the chain changes only by accepted transactions, and a stream registers one subscriber; what the
  reads by id answer; a demo endpoint that cannot work. Of the streams: what is written is read back, and how long clients wait. Of the indexer:
  its schema, its statistics and listings, that replays are harmless, and what it misses. Of the chain
  process: what its first start sets up, and what holds whenever it runs and can never be changed. Of the
  waits: that they end. Of the three programs that sign: that their declarations of the
  envelope yield the same bytes, and when they sign alike. Of the
  configured stack: when the node and the seeded domain of the chain agree, and that the chain
  rejects every answer when they do not. Of the node and
  the harness: what a verdict means, that a divergence becomes a challenge on the chain, that an answer
  becomes a submitted result, and that an honest answer survives a check.

  \<^bold>\<open>Not modelled\<close>

  The JSON codec (only its use, and the order and tags of the envelope), the byte layout of bbolt, escapes in paths, the SQL engine beyond the
  statements used, the truncation of \<open>int64\<close> in \<open>Stats\<close>, logging, the listen addresses, the
  default data directory, the timeouts of HTTP calls, signals and the shutdown of the HTTP servers.
  The goroutines of the harness run one after the other in \<open>runChecks\<close>; between two calls of one check
  the world may change in any way.
\<close>

section \<open>The chain as a whole\<close>

text \<open>C1: In every node that can be reached from a fresh database by transactions, blocks, mints and
  administration, the module escrow account holds at least what the chain owes out of it: the escrow
  and the bonds of every open request and the registration bonds of the services. The coins in
  existence stay below \<open>2 ^ 64\<close>, so no balance has wrapped around.\<close>

theorem escrow_covers_obligations:
  assumes "reach E nd" and "sha_ok E"
  shows "obligations (nd_db nd) \<le> bal (nd_db nd) moduleEscrowAddr \<and> total_supply (nd_db nd) < 2 ^ 64"
  using reach_inv [OF assms] by (simp add: chain_inv_def solvent_def accounts_ok_def)

theorem escrow_covers_obligations_witness:
  "obligations (nd_db demo_registered) = 100 \<and> bal (nd_db demo_registered) moduleEscrowAddr = 100
   \<and> obligations (nd_db demo_registered) \<le> bal (nd_db demo_registered) moduleEscrowAddr"
  using escrow_covers_obligations [OF demo_registered_reach demo_sha] demo_registered_db by simp

text \<open>C2: The block producer never halts: from every reachable node a block commits, whatever requests
  are due, as long as the store accepts keys of a legal length.\<close>

theorem block_never_halts:
  assumes "reach E nd" and "sha_ok E" and "put_accepts E"
  shows "fst (commitBlock E now nd) = Inr ()"
proof (rule commitBlock_cases [of E nd now])
  fix e assume "commitDb E (nd_db nd) = Inl e"
  with commitDb_ok [OF assms(3) reach_inv [OF assms(1,2)]] show ?thesis by simp
qed simp

theorem block_never_halts_witness:
  "fst (commitBlock demo_env ''now'' demo_registered) = Inr ()"
  by (rule block_never_halts [OF demo_registered_reach demo_sha demo_accepts])

text \<open>C4: What a block does: the height goes up by one and every stored request becomes what
  \<open>sweepRequest\<close> makes of it: refunded after its deadline, finalized after an undisputed challenge
  window, dismissed or slashed after the resolution window, and otherwise unchanged. No request
  appears or disappears.\<close>

theorem block_sweeps_requests:
  assumes "chain_inv E {} (nd_db nd)" and "commitBlock E now nd = (Inr (), nd')"
    and "paramsLocked (nd_db nd) = Inr ps"
  shows "heightLocked (nd_db nd') = heightLocked (nd_db nd) + 1
    \<and> getRequest (nd_db nd') k =
        (case getRequest (nd_db nd) k of Inl e \<Rightarrow> Inl e
         | Inr r \<Rightarrow> Inr (sweepRequest (nd_db nd) ps (heightLocked (nd_db nd) + 1) r))"
proof (rule commitBlock_cases [of E nd now])
  fix s' h evs
  assume c: "commitDb E (nd_db nd) = Inr (s', h, evs)"
    "commitBlock E now nd = (Inr (), nd\<lparr>nd_db := s', nd_bus :=
       emit (mk_event h (BlockCommitted \<lparr>ebc_height = h, ebc_time = now\<rparr>)) (emitAll evs (nd_bus nd))\<rparr>)"
  note f = commitDb_facts(1,2,5) [OF assms(1) c(1) assms(3)]
  have "nd_db nd' = s'" using c(2) assms(2) by auto
  then show ?thesis
    using f(2) f(3) [of k] unfolding f(1) by simp
qed (use assms(2) in simp)

theorem block_sweeps_requests_witness:
  "\<exists>nd'. commitBlock demo_env ''now'' (demo_node demo_pending) = (Inr (), nd')
     \<and> heightLocked (nd_db nd') = 11 \<and> getRequest (nd_db nd') 1 = Inr (refunded 11 demo_pending)"
proof -
  obtain nd' where b: "commitBlock demo_env ''now'' (demo_node demo_pending) = (Inr (), nd')"
    using demo_commit [OF demo_invs(1)] by blast
  have "sweepRequest (demo_state demo_pending) defaultParams 11 demo_pending = refunded 11 demo_pending"
    by (simp add: sweepRequest_def) (simp add: demo_reqs word_sless_alt)
  then have "heightLocked (nd_db nd') = 11 \<and> getRequest (nd_db nd') 1 = Inr (refunded 11 demo_pending)"
    using block_sweeps_requests [of demo_env "demo_node demo_pending" "''now''" nd' defaultParams 1] b
    by (simp add: demo_invs)
  with b show ?thesis by blast
qed

text \<open>After a block no request is overdue: none is pending past its deadline, submitted past its
  challenge window, or challenged past its resolution window.\<close>

theorem no_request_overdue:
  assumes "chain_inv E {} (nd_db nd)" and "commitBlock E now nd = (Inr (), nd')"
    and "paramsLocked (nd_db nd) = Inr ps" and "getRequest (nd_db nd') k = Inr r"
  shows "\<not> isOverdue ps (heightLocked (nd_db nd')) r"
proof -
  let ?h = "heightLocked (nd_db nd) + 1"
  have fin: "\<not> isOverdue ps ?h (sweepRequest (nd_db nd) ps ?h q)" for q
  proof (cases "isOverdue ps ?h q")
    case True
    then have "terminal (req_status (sweepRequest (nd_db nd) ps ?h q))"
      by (simp add: sweepRequest_overdue)
    then show ?thesis
      using isOverdue_open isOpen_iff by blast
  next
    case False
    then show ?thesis by (simp add: sweepRequest_overdue)
  qed
  obtain s' h evs where c: "commitDb E (nd_db nd) = Inr (s', h, evs)" and nd': "nd_db nd' = s'"
    using assms(2) by (rule_tac commitBlock_cases [of E nd now]) auto
  note f = commitDb_facts(1,2,5) [OF assms(1) c assms(3)]
  obtain q where "r = sweepRequest (nd_db nd) ps ?h q"
    using assms(4) f(3) [of k] unfolding nd' f(1) by (auto split: sum.splits)
  with fin f(1,2) nd' show ?thesis by simp
qed

theorem no_request_overdue_witness:
  "\<exists>nd' r. commitBlock demo_env ''now'' (demo_node demo_pending) = (Inr (), nd')
     \<and> getRequest (nd_db nd') 1 = Inr r \<and> isOverdue defaultParams 11 demo_pending
     \<and> \<not> isOverdue defaultParams (heightLocked (nd_db nd')) r"
proof -
  obtain nd' where b: "commitBlock demo_env ''now'' (demo_node demo_pending) = (Inr (), nd')"
    using demo_commit [OF demo_invs(1)] by blast
  have inv: "chain_inv demo_env {} (nd_db (demo_node demo_pending))" and ps: "paramsLocked (nd_db (demo_node demo_pending)) = Inr defaultParams"
    by (simp_all add: demo_invs)
  obtain s' h evs where c: "commitDb demo_env (nd_db (demo_node demo_pending)) = Inr (s', h, evs)" and nd': "nd_db nd' = s'"
    using b by (rule_tac commitBlock_cases [of demo_env "demo_node demo_pending" "''now''"]) auto
  obtain r where r: "getRequest (nd_db nd') 1 = Inr r"
    using commitDb_facts(5) [OF inv c ps, of 1] by (simp add: nd')
  have "isOverdue defaultParams 11 demo_pending"
    by (simp add: isOverdue_def) (simp add: demo_reqs word_sless_alt)
  with b r no_request_overdue [OF inv b ps r] show ?thesis by blast
qed

text \<open>Whatever step the chain takes, a stored request stays stored, its status only moves forward in
  the life cycle (pending, submitted, challenged, then one of the terminal statuses), and once it is
  finalized, slashed or refunded the request never changes again.\<close>

theorem request_only_moves_forward:
  assumes "sha_ok E" and "chain_inv E {} (nd_db nd)" and "node_step E nd nd'"
    and "getRequest (nd_db nd) k = Inr r"
  shows "\<exists>r'. getRequest (nd_db nd') k = Inr r' \<and> req_status r \<le> req_status r'
    \<and> (if terminal (req_status r) then r' = r else True)"
  using node_step_forward [OF assms(1-3)] assms(4) by (auto simp: forward_def)

theorem request_only_moves_forward_witness:
  "\<exists>nd'. commitBlock demo_env ''now'' (demo_node demo_pending) = (Inr (), nd')
     \<and> (\<exists>r'. getRequest (nd_db nd') 1 = Inr r' \<and> StatusPending \<le> req_status r')"
proof -
  obtain nd' where b: "commitBlock demo_env ''now'' (demo_node demo_pending) = (Inr (), nd')"
    using demo_commit [OF demo_invs(1)] by blast
  have "chain_inv demo_env {} (nd_db (demo_node demo_pending))" and "getRequest (nd_db (demo_node demo_pending)) 1 = Inr demo_pending"
    by (simp_all add: demo_invs)
  from request_only_moves_forward [OF demo_sha this(1) node_step.block [OF b] this(2)] b show ?thesis
    by fastforce
qed

text \<open>C9: Transactions and blocks neither create nor destroy coins: the sum of all balances is the same
  before and after, whether the call succeeds or fails.\<close>

theorem supply_conserved:
  assumes "sha_ok E" and "chain_inv E {} (nd_db nd)" and "ids_left (nd_db nd)"
  shows "total_supply (nd_db (snd (submitTx E t nd))) = total_supply (nd_db nd)
    \<and> total_supply (nd_db (snd (commitBlock E now nd))) = total_supply (nd_db nd)"
proof
  show "total_supply (nd_db (snd (submitTx E t nd))) = total_supply (nd_db nd)"
    by (rule submitTx_cases [of E t nd])
      (use runTx_keeps [OF assms(2) signer_valid [OF assms(1)] assms(3)] in auto)
  obtain ps where "paramsLocked (nd_db nd) = Inr ps"
    by (rule wf_params [OF inv_wf [OF assms(2)]])
  then show "total_supply (nd_db (snd (commitBlock E now nd))) = total_supply (nd_db nd)"
    by (rule_tac commitBlock_cases [of E nd now]) (use commitDb_facts(4) [OF assms(2)] in auto)
qed

theorem supply_conserved_witness:
  "total_supply (demo_state demo_challenged) = 5000
   \<and> total_supply (nd_db (snd (submitTx demo_env (demo_tx txVouch 0 4 ''vch'') (demo_node demo_challenged)))) = 5000"
  using supply_conserved [of demo_env "demo_node demo_challenged" "demo_tx txVouch 0 4 ''vch''"]
  by (simp add: demo_sha demo_invs demo_ids_left demo_bal)

text \<open>No active service and no open request is bound to a deactivated verification domain: where the
  invariant of the reachable nodes holds, the domain of an active service, or of a service with an open
  request, is registered and active.\<close>

theorem nothing_open_on_inactive_domain:
  assumes "chain_inv E {} s" and "getService s k = Inr v" and "svc_domain_id v \<noteq> 0"
    and "svc_active v \<or> (\<exists>j r. getRequest s j = Inr r \<and> req_service_id r = k \<and> isOpen r)"
  shows "\<exists>d. getDomain s (svc_domain_id v) = Inr d \<and> dom_active d"
proof -
  note wf = inv_wf [OF assms(1)]
  have "domain_live {} s (svc_domain_id v)"
    using assms(4)
  proof
    assume "svc_active v"
    then show ?thesis using wf_service [OF wf assms(2)] by (simp add: svc_ok_def)
  next
    assume "\<exists>j r. getRequest s j = Inr r \<and> req_service_id r = k \<and> isOpen r"
    then obtain j r where r: "getRequest s j = Inr r" and "req_service_id r = k" and "isOpen r"
      by blast
    then show ?thesis using wf_request [OF wf r] assms(2) by (simp add: req_ok_def isOpen_iff)
  qed
  then show ?thesis using assms(3) by (simp add: domain_live_def)
qed

theorem nothing_open_on_inactive_domain_witness:
  "svc_domain_id demo_dom_svc = 1
   \<and> (\<exists>d. getDomain (demo_dom_state demo_pending) (svc_domain_id demo_dom_svc) = Inr d \<and> dom_active d)"
  using nothing_open_on_inactive_domain [OF demo_dom_invs(1), of 1 demo_dom_svc]
  by (simp add: demo_dom_svc_def demo_svc_def)

section \<open>Transactions\<close>

text \<open>C35: A transaction that fails for any reason, in the envelope, the nonce or the handler, changes
  nothing: neither the database nor the event bus.\<close>

theorem failed_tx_changes_nothing:
  assumes "submitTx E t nd = (Inl e, nd')"
  shows "nd' = nd"
  using assms by (rule_tac submitTx_cases [of E t nd]) auto

theorem failed_tx_changes_nothing_witness:
  "submitTx demo_env (demo_tx ''bogus'' 0 1 ''x'') (demo_node demo_pending) =
   (Inl (Wrapped ''validate'' (ErrText ''unknown tx type'')), demo_node demo_pending)
   \<and> snd (submitTx demo_env (demo_tx ''bogus'' 0 1 ''x'') (demo_node demo_pending)) = demo_node demo_pending"
proof -
  have "submitTx demo_env (demo_tx ''bogus'' 0 1 ''x'') (demo_node demo_pending) =
   (Inl (Wrapped ''validate'' (ErrText ''unknown tx type'')), demo_node demo_pending)"
    by (simp add: submitTx_def checkEnvelope_def validateBasic_def demo_tx_def known_tx_types_def tx_names)
  with failed_tx_changes_nothing [OF this] show ?thesis by simp
qed

text \<open>C33: A transaction succeeds only if the Ed25519 signature verifies under the 32-byte public key over
  the canonical bytes and the nonce is the next one of the key's address; then that nonce, and no other
  account's, is one higher.\<close>

theorem successful_tx_is_signed_and_counted:
  assumes "sha_ok E" and "chain_inv E {} (nd_db nd)" and "submitTx E t nd = (Inr rc, nd')"
  shows "\<exists>pub sig canonical. hexDecode (tx_pub_key_hex t) = Some pub \<and> length pub = 32
    \<and> hexDecode (tx_signature_hex t) = Some sig \<and> length sig = 64
    \<and> txCanonicalBytes (encode_tx E) t = Some canonical \<and> ed25519_verify E pub canonical sig
    \<and> (let signer = addressFromPubKey (sha256 E) pub in
       tx_nonce t = nextNonce (nd_db nd) signer
       \<and> nextNonce (nd_db nd') = (nextNonce (nd_db nd))(signer := tx_nonce t + 1))"
proof (rule submitTx_cases [of E t nd])
  fix signer s' rc'
  assume a: "checkEnvelope E t = Inr signer" "runTx E signer t (nd_db nd) = Inr (s', rc')"
    "submitTx E t nd = (Inr rc', nd\<lparr>nd_db := s', nd_bus := emitAll (pendingOf rc') (nd_bus nd)\<rparr>)"
  obtain s1 where n: "tx_nonce t = nextNonce (nd_db nd) signer"
    and d: "dispatch E (nd_db nd) signer t (heightLocked (nd_db nd)) = Inr (s1, rc')"
    and inc: "incNonce E s1 signer = Inr s'"
    using a(2) by (auto simp: runTx_def split: if_splits)
  have "cs_nonces s1 = cs_nonces (nd_db nd)"
    using dispatch_quiet [OF assms(2) signer_valid [OF assms(1) a(1)] d] by (simp add: quiet_def)
  then have "nextNonce s' = (nextNonce (nd_db nd))(signer := tx_nonce t + 1)"
    using inc n by (auto simp: incNonce_Inr nextNonce_def fun_eq_iff)
  moreover have "nd_db nd' = s'"
    using a(3) assms(3) by auto
  ultimately show ?thesis
    using a(1) n unfolding checkEnvelope_Inr by (auto simp: Let_def)
qed (use assms(3) in simp)

theorem successful_tx_is_signed_and_counted_witness:
  "\<exists>pub. hexDecode (tx_pub_key_hex (demo_tx txRegisterService 0 1 ''svc'')) = Some pub \<and> length pub = 32
    \<and> nextNonce (nd_db demo_registered) (addressFromPubKey (sha256 demo_env) pub) = 1"
  using successful_tx_is_signed_and_counted
    [OF demo_sha reach_inv [OF demo_funded_reach demo_sha] demo_registered_run]
  by (auto simp: Let_def demo_tx_def)

text \<open>C34: A transaction cannot be replayed: submitted again after it succeeded, it is rejected with the
  nonce error and changes nothing.\<close>

theorem replay_is_rejected:
  assumes "sha_ok E" and "chain_inv E {} (nd_db nd)" and "submitTx E t nd = (Inr rc, nd')"
  shows "submitTx E t nd' = (Inl (Wrapped ''expected'' ErrInvalidNonce), nd')"
proof (rule submitTx_cases [of E t nd])
  fix signer s' rc'
  assume a: "checkEnvelope E t = Inr signer" "runTx E signer t (nd_db nd) = Inr (s', rc')"
    "submitTx E t nd = (Inr rc', nd\<lparr>nd_db := s', nd_bus := emitAll (pendingOf rc') (nd_bus nd)\<rparr>)"
  obtain s1 where n: "tx_nonce t = nextNonce (nd_db nd) signer"
    and d: "dispatch E (nd_db nd) signer t (heightLocked (nd_db nd)) = Inr (s1, rc')"
    and inc: "incNonce E s1 signer = Inr s'"
    using a(2) by (auto simp: runTx_def split: if_splits)
  have "cs_nonces s1 = cs_nonces (nd_db nd)"
    using dispatch_quiet [OF assms(2) signer_valid [OF assms(1) a(1)] d] by (simp add: quiet_def)
  then have "nextNonce s' signer = tx_nonce t + 1"
    using inc n by (auto simp: incNonce_Inr nextNonce_def)
  then have "tx_nonce t \<noteq> nextNonce s' signer" by simp
  moreover have "nd_db nd' = s'"
    using a(3) assms(3) by auto
  ultimately show ?thesis
    using a(1) by (cases nd') (simp add: submitTx_def runTx_def dbUpdate_def)
qed (use assms(3) in simp)

theorem replay_is_rejected_witness:
  "submitTx demo_env (demo_tx txRegisterService 0 1 ''svc'') demo_registered =
   (Inl (Wrapped ''expected'' ErrInvalidNonce), demo_registered)"
  by (rule replay_is_rejected [OF demo_sha reach_inv [OF demo_funded_reach demo_sha] demo_registered_run])

text \<open>The events of a successful transaction reach the replay log: afterwards the log is the most
  recent 1024 entries of the old log followed by the events of the receipt.\<close>

theorem tx_events_are_logged:
  assumes "submitTx E t nd = (Inr rc, nd')" and "length (bus_log (nd_bus nd)) \<le> 1024"
  shows "bus_log (nd_bus nd') = lastN 1024 (bus_log (nd_bus nd) @ pendingOf rc)"
  using assms ev.fold_push [of "nd_bus nd"]
  by (rule_tac submitTx_cases [of E t nd]) (auto simp: emitAll_def eventLogLimit_def)

theorem tx_events_are_logged_witness:
  "map ev_type (bus_log (nd_bus demo_registered)) = [''ServiceRegistered'']"
proof -
  have e: "bus_log (nd_bus demo_funded) = []"
    by (simp add: demo_funded_def demo_genesis_def empty_bus_def)
  show ?thesis
    using tx_events_are_logged [OF demo_registered_run]
    by (simp add: e pendingOf_def one_event_def mk_event_def lastN_def)
qed

end
